theory Spec2Isabelle
  imports Complex_Main
begin

section \<open>Data model\<close>

text \<open>
  A number that the program is given is a \<^typ>\<open>real\<close> (every double is one). Strings
  are \<^typ>\<open>string\<close>, an optional field (\<open>x?: T\<close>, \<open>T | undefined\<close>) is an
  \<^typ>\<open>'a option\<close>, a \<open>Record<string, T>\<close> is an association list read with
  \<^const>\<open>map_of\<close> (the order of the list is the order of \<open>Object.entries\<close>), and a
  \<open>Map\<close> is a partial function.

  A number that the program computes is computed in IEEE double arithmetic, which rounds.
  It is kept as the expression that computes it: \<open>Lit x\<close> is a given number as it is,
  \<open>Times\<close>, \<open>Plus\<close>, \<open>Minus\<close> and \<open>Over\<close> are \<open>*\<close>, \<open>+\<close>, \<open>-\<close>
  and \<open>/\<close> on doubles, \<open>MathCos\<close>, \<open>MathSin\<close> and \<open>MathPI\<close> are the members of
  \<open>Math\<close>. The embedding does not evaluate such an expression and says nothing of the
  double it denotes.
\<close>

datatype JsNumber =
    Lit real
  | Times JsNumber JsNumber
  | Plus JsNumber JsNumber
  | Minus JsNumber JsNumber
  | Over JsNumber JsNumber
  | MathCos JsNumber
  | MathSin JsNumber
  | MathPI

subsection \<open>Token schema\<close>

text \<open>
  Modelled from the spec: the schema module \<open>schema/tokens.ts\<close> (the types \<open>Token\<close>,
  \<open>TokenGroup\<close>, \<open>TokenCollection\<close>, \<open>ThemeFile\<close>, the value types and the test
  \<open>isTokenReference\<close>) is not among the sources. The types below follow the data model
  of the spec and the fields that the code reads. \<open>TOther\<close> stands for a kind outside the
  sixteen that the write path names, for which it has the branch "Unknown token type".
  Lookups in object literals and records (\<open>TOKEN_TYPE_TO_FIGMA[...]\<close>,
  \<open>keywords[...]\<close>, \<open>collection.tokens[...]\<close>) are lookups among the keys written
  there: no kind, keyword or mode is named like a member that every JavaScript object
  inherits (\<open>constructor\<close>, \<open>__proto__\<close>).
\<close>

datatype TokenType =
    TColor | TDimension | TNumber | TString | TBoolean | TFontFamily | TFontWeight
  | TDuration | TTypography | TShadow | TBorder | TGradient | TCubicBezier
  | TTransition | TAnimation | TKeyframes
  | TOther string

fun typeName :: "TokenType \<Rightarrow> string" where
  "typeName TColor = ''color''"
| "typeName TDimension = ''dimension''"
| "typeName TNumber = ''number''"
| "typeName TString = ''string''"
| "typeName TBoolean = ''boolean''"
| "typeName TFontFamily = ''fontFamily''"
| "typeName TFontWeight = ''fontWeight''"
| "typeName TDuration = ''duration''"
| "typeName TTypography = ''typography''"
| "typeName TShadow = ''shadow''"
| "typeName TBorder = ''border''"
| "typeName TGradient = ''gradient''"
| "typeName TCubicBezier = ''cubicBezier''"
| "typeName TTransition = ''transition''"
| "typeName TAnimation = ''animation''"
| "typeName TKeyframes = ''keyframes''"
| "typeName (TOther s) = s"

record ColorValue =
  cv_r :: real
  cv_g :: real
  cv_b :: real
  cv_a :: real

record RGBA =
  rgba_r :: real
  rgba_g :: real
  rgba_b :: real
  rgba_a :: real

record DimensionValue =
  dv_value :: real
  dv_unit :: string

datatype FontWeightValue = WeightNumber real | WeightKeyword string

datatype LineHeightValue = LineHeightNumber real | LineHeightDimension DimensionValue

datatype TextTransform = TTNone | TTUppercase | TTLowercase | TTCapitalize

record TypographyValue =
  ty_fontFamily :: "string list"
  ty_fontSize :: DimensionValue
  ty_fontWeight :: FontWeightValue
  ty_lineHeight :: "LineHeightValue option"
  ty_letterSpacing :: "DimensionValue option"
  ty_textTransform :: "TextTransform option"

record ShadowValue =
  sh_inset :: "bool option"
  sh_color :: ColorValue
  sh_offsetX :: DimensionValue
  sh_offsetY :: DimensionValue
  sh_blur :: DimensionValue
  sh_spread :: "DimensionValue option"

datatype GradientType = Linear | Radial | Conic

record GradientStop =
  gs_color :: ColorValue
  gs_position :: real

record GradientValue =
  gr_type :: GradientType
  gr_angle :: "real option"
  gr_stops :: "GradientStop list"

text \<open>
  The value of a token, by shape. \<open>VReference\<close> is \<open>{ $ref: "{a.b.c}" }\<close>, the
  values that \<open>isTokenReference\<close> accepts; \<open>VDimension\<close> is the \<open>{ value, unit }\<close>
  shape that dimension and duration values share; \<open>VStrings\<close> is an array of strings;
  \<open>VShadow\<close> and \<open>VShadows\<close> are a single shadow and an array of shadows;
  \<open>VOpaque\<close> stands for the values of the kinds no function of the write path reads
  (border, cubicBezier, transition, animation, keyframes).

  The type tag and the value are two fields, as in the code, so a token whose value has
  another shape than its tag promises can be written down; the schema has none ("the
  value's shape is determined by type"), and a value is a reference or has that shape.
\<close>

datatype TokenValue =
    VReference string
  | VColor ColorValue
  | VDimension DimensionValue
  | VNumber real
  | VString string
  | VBoolean bool
  | VStrings "string list"
  | VTypography TypographyValue
  | VShadow ShadowValue
  | VShadows "ShadowValue list"
  | VGradient GradientValue
  | VOpaque

record CodeSyntax =
  cs_web :: "string option"
  cs_android :: "string option"
  cs_ios :: "string option"

record FigmaExtensions =
  fe_variableId :: string
  fe_scopes :: "string list"
  fe_hiddenFromPublishing :: bool
  fe_codeSyntax :: "CodeSyntax option"

record Token =
  tk_type :: TokenType
  tk_value :: TokenValue
  tk_description :: "string option"
  tk_extensions :: "FigmaExtensions option"

text \<open>
  A token group maps names to tokens and sub-groups, in order; each entry is a leaf or a
  group. Keys that start with \<open>$\<close> are metadata.
\<close>

datatype Node = Leaf Token | Group "(string \<times> Node) list"

type_synonym TokenGroup = "(string \<times> Node) list"

record TokenCollection =
  tc_name :: string
  tc_modes :: "string list"
  tc_defaultMode :: string
  tc_tokens :: "(string \<times> TokenGroup) list"

record ThemeMeta =
  figmaFileKey :: "string option"

record ThemeFile =
  th_name :: string
  th_collections :: "TokenCollection list"
  th_meta :: "ThemeMeta option"

subsection \<open>Options, report and errors of the output adapter\<close>

datatype OperationMode = CreateOnly | Update | Sync

record FigmaOutputAdapterOptions =
  targetFileKey :: "string option"
  operationMode :: "OperationMode option"
  allowSourceOverwrite :: "bool option"
  collectionMapping :: "(string \<times> string) list option"
  skipHidden :: "bool option"
  idPrefix :: "string option"

record SourceCheckResult =
  sourceFileKey :: "string option"
  sc_targetFileKey :: "string option"
  isSameFile :: bool
  overwriteAllowed :: bool

datatype error =
    SourceOverwriteError string string
  | TypeError

section \<open>Source safety check\<close>

text \<open>\<open>!key\<close> on a \<open>string | undefined\<close>: true for \<open>undefined\<close> and for the empty string.\<close>

fun falsyKey :: "string option \<Rightarrow> bool" where
  "falsyKey None = True"
| "falsyKey (Some s) = (s = [])"

text \<open>\<open>theme.meta?.figmaFileKey\<close>\<close>

definition metaFileKey :: "ThemeFile \<Rightarrow> string option" where
  "metaFileKey theme = (case th_meta theme of None \<Rightarrow> None | Some m \<Rightarrow> figmaFileKey m)"

definition checkSourceSafety ::
  "ThemeFile \<Rightarrow> FigmaOutputAdapterOptions \<Rightarrow> error + SourceCheckResult" where
  "checkSourceSafety theme options =
     (let sourceKey = metaFileKey theme;
          targetKey = targetFileKey options;
          allowOverwrite = (case allowSourceOverwrite options of None \<Rightarrow> False | Some v \<Rightarrow> v);
          result = \<lparr> sourceFileKey = sourceKey, sc_targetFileKey = targetKey,
                     isSameFile = False, overwriteAllowed = allowOverwrite \<rparr>
      in if falsyKey sourceKey \<or> falsyKey targetKey then Inr result
         else let result' = result \<lparr> isSameFile := (sourceKey = targetKey) \<rparr>
              in if isSameFile result' \<and> \<not> allowOverwrite
                 then (case (sourceKey, targetKey) of
                         (Some s, Some t) \<Rightarrow> Inl (SourceOverwriteError s t)
                       | _ \<Rightarrow> Inr result')
                 else Inr result')"

section \<open>Colour converters\<close>

definition convertFigmaColor :: "RGBA \<Rightarrow> ColorValue" where
  "convertFigmaColor color =
     \<lparr> cv_r = rgba_r color, cv_g = rgba_g color, cv_b = rgba_b color,
       cv_a = rgba_a color \<rparr>"

definition colorToFigmaRGBA :: "ColorValue \<Rightarrow> RGBA" where
  "colorToFigmaRGBA color =
     \<lparr> rgba_r = cv_r color, rgba_g = cv_g color, rgba_b = cv_b color,
       rgba_a = cv_a color \<rparr>"

definition unitRange :: "RGBA \<Rightarrow> bool" where
  "unitRange c = (0 \<le> rgba_r c \<and> rgba_r c \<le> 1 \<and> 0 \<le> rgba_g c \<and> rgba_g c \<le> 1 \<and>
                  0 \<le> rgba_b c \<and> rgba_b c \<le> 1 \<and> 0 \<le> rgba_a c \<and> rgba_a c \<le> 1)"

section \<open>Transformation report\<close>

record TransformationStats =
  collectionsCreated :: nat
  modesCreated :: nat
  variablesCreated :: nat
  valuesSet :: nat
  st_skipped :: nat
  st_warnings :: nat

record SkippedToken =
  sk_path :: string
  sk_reason :: string
  sk_originalType :: TokenType
  sk_suggestion :: "string option"

datatype WarningCode =
    UNSUPPORTED_TYPE | VALUE_TRUNCATED | UNIT_DISCARDED | COMPOSITE_SKIPPED
  | ALIAS_UNRESOLVED | NAME_COLLISION | SOURCE_MATCH | PLUGIN_NOT_CONNECTED

record TransformationWarning =
  w_code :: WarningCode
  w_message :: string
  w_path :: "string option"

record TransformationReportBuilder =
  stats :: TransformationStats
  skipped :: "SkippedToken list"
  warnings :: "TransformationWarning list"
  sourceCheck :: SourceCheckResult

definition newReport :: TransformationReportBuilder where
  "newReport =
     \<lparr> stats = \<lparr> collectionsCreated = 0, modesCreated = 0, variablesCreated = 0,
                 valuesSet = 0, st_skipped = 0, st_warnings = 0 \<rparr>,
       skipped = [], warnings = [],
       sourceCheck = \<lparr> sourceFileKey = None, sc_targetFileKey = None,
                       isSameFile = False, overwriteAllowed = False \<rparr> \<rparr>"

definition addCollection :: "TransformationReportBuilder \<Rightarrow> TransformationReportBuilder" where
  "addCollection rep =
     rep \<lparr> stats := (stats rep) \<lparr> collectionsCreated := collectionsCreated (stats rep) + 1 \<rparr> \<rparr>"

definition addMode :: "TransformationReportBuilder \<Rightarrow> TransformationReportBuilder" where
  "addMode rep = rep \<lparr> stats := (stats rep) \<lparr> modesCreated := modesCreated (stats rep) + 1 \<rparr> \<rparr>"

definition addVariable :: "TransformationReportBuilder \<Rightarrow> TransformationReportBuilder" where
  "addVariable rep =
     rep \<lparr> stats := (stats rep) \<lparr> variablesCreated := variablesCreated (stats rep) + 1 \<rparr> \<rparr>"

definition addValue :: "TransformationReportBuilder \<Rightarrow> TransformationReportBuilder" where
  "addValue rep = rep \<lparr> stats := (stats rep) \<lparr> valuesSet := valuesSet (stats rep) + 1 \<rparr> \<rparr>"

definition addSkipped ::
  "string \<Rightarrow> string \<Rightarrow> TokenType \<Rightarrow> string option \<Rightarrow>
   TransformationReportBuilder \<Rightarrow> TransformationReportBuilder" where
  "addSkipped path reason originalType suggestion rep =
     rep \<lparr> stats := (stats rep) \<lparr> st_skipped := st_skipped (stats rep) + 1 \<rparr>,
           skipped := skipped rep @
             [\<lparr> sk_path = path, sk_reason = reason, sk_originalType = originalType,
                sk_suggestion = suggestion \<rparr>] \<rparr>"

definition addWarning ::
  "WarningCode \<Rightarrow> string \<Rightarrow> string option \<Rightarrow>
   TransformationReportBuilder \<Rightarrow> TransformationReportBuilder" where
  "addWarning code message path rep =
     rep \<lparr> stats := (stats rep) \<lparr> st_warnings := st_warnings (stats rep) + 1 \<rparr>,
           warnings := warnings rep @ [\<lparr> w_code = code, w_message = message, w_path = path \<rparr>] \<rparr>"

definition setSourceCheck ::
  "string option \<Rightarrow> string option \<Rightarrow> bool \<Rightarrow>
   TransformationReportBuilder \<Rightarrow> TransformationReportBuilder" where
  "setSourceCheck sourceKey targetKey allowed rep =
     rep \<lparr> sourceCheck :=
             \<lparr> sourceFileKey = sourceKey, sc_targetFileKey = targetKey,
               isSameFile = (sourceKey \<noteq> None \<and> targetKey \<noteq> None \<and> sourceKey = targetKey),
               overwriteAllowed = allowed \<rparr> \<rparr>"

section \<open>Write path: request body and synthetic ids\<close>

datatype Action = CREATE

datatype VariableResolvedDataType = COLOR | FLOAT | STRING | BOOLEAN

record VariableCollectionCreate =
  vcc_action :: Action
  vcc_id :: string
  vcc_name :: string
  vcc_initialModeId :: string

record VariableModeCreate =
  vmc_action :: Action
  vmc_id :: string
  vmc_name :: string
  vmc_variableCollectionId :: string

record VariableCreate =
  vc_action :: Action
  vc_id :: string
  vc_name :: string
  vc_variableCollectionId :: string
  vc_resolvedType :: VariableResolvedDataType
  vc_description :: "string option"

text \<open>
  What \<open>tokenValueToFigma\<close> returns (\<open>unknown | null\<close>, with \<open>null\<close> as \<open>None\<close>).
  The casts \<open>token.$value as T\<close> are not checked at run time. For the kinds number,
  string and boolean the value is returned as it is, whatever its shape: \<open>FUnchecked v\<close>
  is the value \<open>v\<close> itself when it is no number, string or boolean. For the other kinds
  the converter reads the fields of the promised shape; on a value of another shape, which
  the schema excludes, \<open>FUnchecked v\<close> is a placeholder for what JavaScript makes of the
  missing fields, and the embedding says nothing about it.
\<close>

datatype FigmaValue =
    FColor RGBA
  | FNumber JsNumber
  | FString string
  | FBoolean bool
  | FUnchecked TokenValue

record VariableModeValue =
  mv_variableId :: string
  mv_modeId :: string
  mv_value :: FigmaValue

record PostVariablesRequestBody =
  variableCollections :: "VariableCollectionCreate list"
  variableModes :: "VariableModeCreate list"
  variables :: "VariableCreate list"
  variableModeValues :: "VariableModeValue list"

definition TOKEN_TYPE_TO_FIGMA :: "TokenType \<Rightarrow> VariableResolvedDataType option" where
  "TOKEN_TYPE_TO_FIGMA t =
     map_of [(TColor, COLOR), (TDimension, FLOAT), (TNumber, FLOAT), (TString, STRING),
             (TBoolean, BOOLEAN), (TFontFamily, STRING), (TFontWeight, FLOAT),
             (TDuration, FLOAT)] t"

definition SKIP_TYPES :: "TokenType list" where
  "SKIP_TYPES = [TTypography, TShadow, TBorder, TGradient, TCubicBezier, TTransition,
                 TAnimation, TKeyframes]"

text \<open>Decimal rendering of the counter, as the template literal prints it.\<close>

definition digitChar :: "nat \<Rightarrow> char" where
  "digitChar d = ''0123456789'' ! d"

fun showNat :: "nat \<Rightarrow> string" where
  "showNat n = (if n < 10 then [digitChar n] else showNat (n div 10) @ [digitChar (n mod 10)])"

declare showNat.simps [simp del]

text \<open>
  The process-wide \<open>idCounter\<close> is threaded through: \<open>generateTempId\<close> takes the counter
  and returns the id with the incremented counter.
\<close>

definition generateTempId :: "string \<Rightarrow> nat \<Rightarrow> string \<times> nat" where
  "generateTempId prefix idCounter = (prefix @ ''_'' @ showNat (idCounter + 1), idCounter + 1)"

definition resetIdCounter :: "nat \<Rightarrow> nat" where
  "resetIdCounter idCounter = 0"

section \<open>Write path: value converters\<close>

definition quoteChar :: char where
  "quoteChar = CHR 0x27"

definition dimensionToNumber ::
  "DimensionValue \<Rightarrow> TransformationReportBuilder \<Rightarrow> string \<Rightarrow>
   real \<times> TransformationReportBuilder" where
  "dimensionToNumber d rep path =
     (dv_value d,
      if dv_unit d \<noteq> ''px''
      then addWarning UNIT_DISCARDED
             (''Unit '' @ [quoteChar] @ dv_unit d @ [quoteChar] @
              '' discarded, stored as raw number'') (Some path) rep
      else rep)"

definition toLowerChar :: "char \<Rightarrow> char" where
  "toLowerChar c =
     (let n = (of_char c :: nat) in if 65 \<le> n \<and> n \<le> 90 then char_of (n + 32) else c)"

definition toLowerCase :: "string \<Rightarrow> string" where
  "toLowerCase s = map toLowerChar s"

definition weightKeywords :: "(string \<times> real) list" where
  "weightKeywords =
     [(''thin'', 100), (''hairline'', 100), (''extralight'', 200), (''ultralight'', 200),
      (''light'', 300), (''normal'', 400), (''regular'', 400), (''medium'', 500),
      (''semibold'', 600), (''demibold'', 600), (''bold'', 700), (''extrabold'', 800),
      (''ultrabold'', 800), (''black'', 900), (''heavy'', 900)]"

fun fontWeightToNumber :: "FontWeightValue \<Rightarrow> real" where
  "fontWeightToNumber (WeightNumber n) = n"
| "fontWeightToNumber (WeightKeyword w) =
     (case map_of weightKeywords (toLowerCase w) of Some n \<Rightarrow> n | None \<Rightarrow> 400)"

text \<open>\<open>return token.$value\<close> of the number, string and boolean cases: the value as it is.\<close>

fun rawValue :: "TokenValue \<Rightarrow> FigmaValue" where
  "rawValue (VNumber n) = FNumber (Lit n)"
| "rawValue (VString s) = FString s"
| "rawValue (VBoolean b) = FBoolean b"
| "rawValue v = FUnchecked v"

definition tokenValueToFigma ::
  "Token \<Rightarrow> TransformationReportBuilder \<Rightarrow> string \<Rightarrow>
   FigmaValue option \<times> TransformationReportBuilder" where
  "tokenValueToFigma token rep path =
     (case tk_value token of
        VReference ref \<Rightarrow>
          (None, addSkipped path ''Token references require special handling''
                   (tk_type token) (Some ''References will be supported in a future update'') rep)
      | v \<Rightarrow>
          (case tk_type token of
             TColor \<Rightarrow>
               (case v of VColor c \<Rightarrow> (Some (FColor (colorToFigmaRGBA c)), rep)
                        | _ \<Rightarrow> (Some (FUnchecked v), rep))
           | TDimension \<Rightarrow>
               (case v of
                  VDimension d \<Rightarrow>
                    (case dimensionToNumber d rep path of
                       (n, rep') \<Rightarrow> (Some (FNumber (Lit n)), rep'))
                | _ \<Rightarrow> (Some (FUnchecked v), rep))
           | TNumber \<Rightarrow> (Some (rawValue v), rep)
           | TString \<Rightarrow> (Some (rawValue v), rep)
           | TBoolean \<Rightarrow> (Some (rawValue v), rep)
           | TFontFamily \<Rightarrow>
               (case v of
                  VStrings families \<Rightarrow>
                    (Some (FString (case families of [] \<Rightarrow> [] | f # _ \<Rightarrow> f)),
                     if length families > 1
                     then addWarning VALUE_TRUNCATED
                            (''Font stack truncated to first family: '' @ hd families)
                            (Some path) rep
                     else rep)
                | _ \<Rightarrow> (Some (FUnchecked v), rep))
           | TFontWeight \<Rightarrow>
               (case v of
                  VNumber n \<Rightarrow>
                    (Some (FNumber (Lit (fontWeightToNumber (WeightNumber n)))), rep)
                | VString w \<Rightarrow>
                    (Some (FNumber (Lit (fontWeightToNumber (WeightKeyword w)))), rep)
                | _ \<Rightarrow> (Some (FUnchecked v), rep))
           | TDuration \<Rightarrow>
               (case v of
                  VDimension dur \<Rightarrow>
                    (Some (FNumber (if dv_unit dur = ''s''
                                    then Times (Lit (dv_value dur)) (Lit 1000)
                                    else Lit (dv_value dur))), rep)
                | _ \<Rightarrow> (Some (FUnchecked v), rep))
           | _ \<Rightarrow> (None, rep)))"

section \<open>Write path: token traversal\<close>

definition startsWithDollar :: "string \<Rightarrow> bool" where
  "startsWithDollar key = (case key of [] \<Rightarrow> False | c # _ \<Rightarrow> c = CHR ''$'')"

fun join :: "string \<Rightarrow> string list \<Rightarrow> string" where
  "join sep [] = []"
| "join sep [x] = x"
| "join sep (x # y # ys) = x @ sep @ join sep (y # ys)"

fun flattenTokens :: "TokenGroup \<Rightarrow> string list \<Rightarrow> (string list \<times> Token) list" where
  "flattenTokens [] basePath = []"
| "flattenTokens ((key, Leaf token) # rest) basePath =
     (if startsWithDollar key then [] else [(basePath @ [key], token)])
     @ flattenTokens rest basePath"
| "flattenTokens ((key, Group grp) # rest) basePath =
     (if startsWithDollar key then [] else flattenTokens grp (basePath @ [key]))
     @ flattenTokens rest basePath"

text \<open>
  The navigation of \<open>transformToFigmaVariables\<close> to the token at a path inside one mode's
  tree: it follows the segments while the current node is an object that has the segment
  as a key, and yields a token when it ends on a node with \<open>$type\<close>. The segments come
  from \<open>flattenTokens\<close> and never start with \<open>$\<close>, while all keys of a token do, so a
  token has no segment as a key.
\<close>

fun navigate :: "Node \<Rightarrow> string list \<Rightarrow> Node option" where
  "navigate current [] = Some current"
| "navigate (Group grp) (segment # rest) =
     (case map_of grp segment of None \<Rightarrow> None | Some next \<Rightarrow> navigate next rest)"
| "navigate (Leaf token) (segment # rest) = None"

definition findModeToken :: "TokenGroup \<Rightarrow> string list \<Rightarrow> Token option" where
  "findModeToken modeTokens path =
     (case navigate (Group modeTokens) path of
        Some (Leaf token) \<Rightarrow> Some token
      | _ \<Rightarrow> None)"

section \<open>Write path: the main transformer\<close>

text \<open>
  The state that \<open>transformToFigmaVariables\<close> mutates while it runs: the id counter, the
  request body and the report. The lookup tables \<open>collectionIds\<close>, \<open>modeIds\<close> and
  \<open>variableIds\<close> are written and never read, so they are left out; the table
  \<open>collectionModeIds\<close> of the collection at hand is read and is kept.
\<close>

record TransformState =
  ts_idCounter :: nat
  ts_requestBody :: PostVariablesRequestBody
  ts_report :: TransformationReportBuilder

definition pushCollection :: "VariableCollectionCreate \<Rightarrow> TransformState \<Rightarrow> TransformState" where
  "pushCollection x st =
     st \<lparr> ts_requestBody := (ts_requestBody st)
            \<lparr> variableCollections := variableCollections (ts_requestBody st) @ [x] \<rparr> \<rparr>"

definition pushMode :: "VariableModeCreate \<Rightarrow> TransformState \<Rightarrow> TransformState" where
  "pushMode x st =
     st \<lparr> ts_requestBody := (ts_requestBody st)
            \<lparr> variableModes := variableModes (ts_requestBody st) @ [x] \<rparr> \<rparr>"

definition pushVariable :: "VariableCreate \<Rightarrow> TransformState \<Rightarrow> TransformState" where
  "pushVariable x st =
     st \<lparr> ts_requestBody := (ts_requestBody st)
            \<lparr> variables := variables (ts_requestBody st) @ [x] \<rparr> \<rparr>"

definition pushModeValue :: "VariableModeValue \<Rightarrow> TransformState \<Rightarrow> TransformState" where
  "pushModeValue x st =
     st \<lparr> ts_requestBody := (ts_requestBody st)
            \<lparr> variableModeValues := variableModeValues (ts_requestBody st) @ [x] \<rparr> \<rparr>"

definition onReport ::
  "(TransformationReportBuilder \<Rightarrow> TransformationReportBuilder) \<Rightarrow>
   TransformState \<Rightarrow> TransformState" where
  "onReport f st = st \<lparr> ts_report := f (ts_report st) \<rparr>"

text \<open>One round of the loop \<open>for (const modeName of collection.modes)\<close> that creates the modes.\<close>

definition createMode ::
  "string \<Rightarrow> string \<Rightarrow> string \<Rightarrow> string \<Rightarrow>
   (string \<rightharpoonup> string) \<times> TransformState \<Rightarrow> (string \<rightharpoonup> string) \<times> TransformState" where
  "createMode prefix collectionId defaultMode modeName acc =
     (case acc of (collectionModeIds, st) \<Rightarrow>
        if modeName = defaultMode then (collectionModeIds, st)
        else (case generateTempId (prefix @ ''_mode'') (ts_idCounter st) of (modeId, n) \<Rightarrow>
                (collectionModeIds(modeName \<mapsto> modeId),
                 onReport addMode
                   (pushMode \<lparr> vmc_action = CREATE, vmc_id = modeId, vmc_name = modeName,
                              vmc_variableCollectionId = collectionId \<rparr>
                      (st \<lparr> ts_idCounter := n \<rparr>)))))"

text \<open>One round of the loop that sets the values of one variable, for one mode.\<close>

definition setModeValue ::
  "TokenCollection \<Rightarrow> (string \<rightharpoonup> string) \<Rightarrow> string list \<Rightarrow> string \<Rightarrow> string \<Rightarrow>
   TransformState \<Rightarrow> TransformState" where
  "setModeValue collection collectionModeIds path variableId modeName st =
     (case map_of (tc_tokens collection) modeName of
        None \<Rightarrow> st
      | Some modeTokens \<Rightarrow>
          (case findModeToken modeTokens path of
             None \<Rightarrow> st
           | Some modeToken \<Rightarrow>
               (case collectionModeIds modeName of
                  None \<Rightarrow> st
                | Some modeId \<Rightarrow>
                    if modeId = [] then st
                    else (case tokenValueToFigma modeToken (ts_report st)
                                 (tc_name collection @ ''.'' @ modeName @ ''.'' @ join ''.'' path) of
                            (None, rep) \<Rightarrow> st \<lparr> ts_report := rep \<rparr>
                          | (Some figmaValue, rep) \<Rightarrow>
                              onReport addValue
                                (pushModeValue \<lparr> mv_variableId = variableId, mv_modeId = modeId,
                                                 mv_value = figmaValue \<rparr>
                                   (st \<lparr> ts_report := rep \<rparr>))))))"

definition isHidden :: "Token \<Rightarrow> bool" where
  "isHidden token =
     (case tk_extensions token of None \<Rightarrow> False | Some e \<Rightarrow> fe_hiddenFromPublishing e)"

text \<open>One round of the loop \<open>for (const { path, token } of flattenedTokens)\<close>.\<close>

definition processToken ::
  "FigmaOutputAdapterOptions \<Rightarrow> string \<Rightarrow> TokenCollection \<Rightarrow> string \<Rightarrow>
   (string \<rightharpoonup> string) \<Rightarrow> string list \<times> Token \<Rightarrow> TransformState \<Rightarrow> TransformState" where
  "processToken options prefix collection collectionId collectionModeIds entry st =
     (case entry of (path, token) \<Rightarrow>
        if tk_type token \<in> set SKIP_TYPES
        then onReport (addSkipped (join ''.'' path)
                         (''Token type '' @ [quoteChar] @ typeName (tk_type token) @ [quoteChar] @
                          '' is not supported as a Figma variable'')
                         (tk_type token)
                         (Some ''Consider using Figma Styles API for composite types'')) st
        else (case TOKEN_TYPE_TO_FIGMA (tk_type token) of
                None \<Rightarrow>
                  onReport (addSkipped (join ''.'' path)
                              (''Unknown token type: '' @ typeName (tk_type token))
                              (tk_type token) None) st
              | Some figmaType \<Rightarrow>
                  if skipHidden options = Some True \<and> isHidden token then st
                  else (case generateTempId (prefix @ ''_var'') (ts_idCounter st) of
                          (variableId, n) \<Rightarrow>
                            fold (setModeValue collection collectionModeIds path variableId)
                              (tc_modes collection)
                              (onReport addVariable
                                 (pushVariable
                                    \<lparr> vc_action = CREATE, vc_id = variableId,
                                      vc_name = join ''/'' path,
                                      vc_variableCollectionId = collectionId,
                                      vc_resolvedType = figmaType,
                                      vc_description = tk_description token \<rparr>
                                    (st \<lparr> ts_idCounter := n \<rparr>))))))"

text \<open>One round of the loop \<open>for (const collection of theme.collections)\<close>.\<close>

definition mappedName :: "FigmaOutputAdapterOptions \<Rightarrow> string \<Rightarrow> string" where
  "mappedName options name =
     (case collectionMapping options of
        None \<Rightarrow> name
      | Some m \<Rightarrow> (case map_of m name of None \<Rightarrow> name | Some n \<Rightarrow> n))"

definition processCollection ::
  "FigmaOutputAdapterOptions \<Rightarrow> string \<Rightarrow> TokenCollection \<Rightarrow>
   TransformState \<Rightarrow> TransformState" where
  "processCollection options prefix collection st =
     (case generateTempId (prefix @ ''_col'') (ts_idCounter st) of (collectionId, n1) \<Rightarrow>
      case generateTempId (prefix @ ''_mode'') n1 of (initialModeId, n2) \<Rightarrow>
      case fold (createMode prefix collectionId (tc_defaultMode collection))
             (tc_modes collection)
             (Map.empty(tc_defaultMode collection \<mapsto> initialModeId),
              onReport addCollection
                (pushCollection
                   \<lparr> vcc_action = CREATE, vcc_id = collectionId,
                     vcc_name = mappedName options (tc_name collection),
                     vcc_initialModeId = initialModeId \<rparr>
                   (st \<lparr> ts_idCounter := n2 \<rparr>)))
      of (collectionModeIds, st') \<Rightarrow>
        (case map_of (tc_tokens collection) (tc_defaultMode collection) of
           None \<Rightarrow> st'
         | Some defaultTokens \<Rightarrow>
             fold (processToken options prefix collection collectionId collectionModeIds)
               (flattenTokens defaultTokens []) st'))"

record TransformResult =
  requestBody :: PostVariablesRequestBody
  report :: TransformationReportBuilder

definition idPrefixOf :: "FigmaOutputAdapterOptions \<Rightarrow> string" where
  "idPrefixOf options =
     (case idPrefix options of None \<Rightarrow> ''temp'' | Some p \<Rightarrow> if p = [] then ''temp'' else p)"

definition initialState :: "ThemeFile \<Rightarrow> FigmaOutputAdapterOptions \<Rightarrow> nat \<Rightarrow> TransformState" where
  "initialState theme options idCounter =
     \<lparr> ts_idCounter = resetIdCounter idCounter,
       ts_requestBody = \<lparr> variableCollections = [], variableModes = [], variables = [],
                          variableModeValues = [] \<rparr>,
       ts_report =
         setSourceCheck
           (metaFileKey theme)
           (targetFileKey options)
           (case allowSourceOverwrite options of None \<Rightarrow> False | Some v \<Rightarrow> v)
           newReport \<rparr>"

text \<open>
  \<open>transformToFigmaVariables\<close> takes the value of the process-wide counter at the call and
  returns the result with the value it leaves behind.
\<close>

definition runCollections ::
  "ThemeFile \<Rightarrow> FigmaOutputAdapterOptions \<Rightarrow> nat \<Rightarrow> TransformState" where
  "runCollections theme options idCounter =
     fold (processCollection options (idPrefixOf options)) (th_collections theme)
       (initialState theme options idCounter)"

definition transformToFigmaVariables ::
  "ThemeFile \<Rightarrow> FigmaOutputAdapterOptions \<Rightarrow> nat \<Rightarrow> TransformResult \<times> nat" where
  "transformToFigmaVariables theme options idCounter =
     (let st = runCollections theme options idCounter
      in (\<lparr> requestBody = ts_requestBody st, report = ts_report st \<rparr>, ts_idCounter st))"

section \<open>Composite styles\<close>

text \<open>
  The style types that \<open>styles-transformer.ts\<close> imports from \<open>types.ts\<close>
  (\<open>FigmaTextStyle\<close>, \<open>FigmaEffect\<close>, \<open>FigmaPaint\<close> and the like) are not in
  the \<open>types.ts\<close> among the sources; the records below have the fields that the code
  writes.
\<close>

datatype LengthUnit = PERCENT | PIXELS

record FigmaLineHeight =
  lh_unit :: LengthUnit
  lh_value :: JsNumber

record FigmaLetterSpacing =
  ls_unit :: LengthUnit
  ls_value :: real

datatype TextCase = ORIGINAL | UPPER | LOWER | TITLE

record FigmaTextStyle =
  fts_name :: string
  fts_fontFamily :: string
  fts_fontSize :: real
  fts_fontWeight :: real
  fts_description :: "string option"
  fts_lineHeight :: "FigmaLineHeight option"
  fts_letterSpacing :: "FigmaLetterSpacing option"
  fts_textCase :: "TextCase option"

datatype EffectType = INNER_SHADOW | DROP_SHADOW

datatype BlendMode = NORMAL

record Vector =
  vx :: real
  vy :: real

record FigmaEffect =
  fx_type :: EffectType
  fx_visible :: bool
  fx_blendMode :: BlendMode
  fx_color :: RGBA
  fx_offset :: Vector
  fx_radius :: real
  fx_spread :: real

record FigmaEffectStyle =
  fes_name :: string
  fes_effects :: "FigmaEffect list"
  fes_description :: "string option"

datatype PaintType = GRADIENT_LINEAR | GRADIENT_RADIAL | GRADIENT_ANGULAR

record FigmaGradientStop =
  fgs_color :: RGBA
  fgs_position :: real

record HandlePosition =
  hx :: JsNumber
  hy :: JsNumber

record FigmaPaint =
  fp_type :: PaintType
  fp_visible :: bool
  fp_blendMode :: BlendMode
  fp_gradientStops :: "FigmaGradientStop list"
  fp_gradientHandlePositions :: "HandlePosition list"

record FigmaPaintStyle =
  fps_name :: string
  fps_paints :: "FigmaPaint list"
  fps_description :: "string option"

definition extractDimensionValue :: "DimensionValue \<Rightarrow> real" where
  "extractDimensionValue d = dv_value d"

fun normalizeFontWeight :: "FontWeightValue \<Rightarrow> real" where
  "normalizeFontWeight (WeightNumber n) = n"
| "normalizeFontWeight (WeightKeyword w) =
     (case map_of weightKeywords (toLowerCase w) of Some n \<Rightarrow> n | None \<Rightarrow> 400)"

text \<open>\<open>if (description)\<close>: an absent or empty description is left out.\<close>

definition truthyDescription :: "string option \<Rightarrow> string option" where
  "truthyDescription description =
     (case description of None \<Rightarrow> None | Some s \<Rightarrow> if s = [] then None else Some s)"

fun textTransformToTextCase :: "TextTransform \<Rightarrow> TextCase" where
  "textTransformToTextCase TTUppercase = UPPER"
| "textTransformToTextCase TTLowercase = LOWER"
| "textTransformToTextCase TTCapitalize = TITLE"
| "textTransformToTextCase TTNone = ORIGINAL"

definition typographyToTextStyle ::
  "string \<Rightarrow> TypographyValue \<Rightarrow> string option \<Rightarrow> FigmaTextStyle" where
  "typographyToTextStyle name v description =
     \<lparr> fts_name = name,
       fts_fontFamily =
         (case ty_fontFamily v of [] \<Rightarrow> ''Inter'' | f # _ \<Rightarrow> if f = [] then ''Inter'' else f),
       fts_fontSize = extractDimensionValue (ty_fontSize v),
       fts_fontWeight = normalizeFontWeight (ty_fontWeight v),
       fts_description = truthyDescription description,
       fts_lineHeight =
         (case ty_lineHeight v of
            None \<Rightarrow> None
          | Some (LineHeightNumber n) \<Rightarrow> Some \<lparr> lh_unit = PERCENT, lh_value = Times (Lit n) (Lit 100) \<rparr>
          | Some (LineHeightDimension d) \<Rightarrow>
              Some \<lparr> lh_unit = PIXELS, lh_value = Lit (extractDimensionValue d) \<rparr>),
       fts_letterSpacing =
         (case ty_letterSpacing v of
            None \<Rightarrow> None
          | Some d \<Rightarrow> Some \<lparr> ls_unit = PIXELS, ls_value = extractDimensionValue d \<rparr>),
       fts_textCase = map_option textTransformToTextCase (ty_textTransform v) \<rparr>"

definition shadowToFigmaEffect :: "ShadowValue \<Rightarrow> FigmaEffect" where
  "shadowToFigmaEffect shadow =
     \<lparr> fx_type = (if sh_inset shadow = Some True then INNER_SHADOW else DROP_SHADOW),
       fx_visible = True,
       fx_blendMode = NORMAL,
       fx_color = colorToFigmaRGBA (sh_color shadow),
       fx_offset = \<lparr> vx = extractDimensionValue (sh_offsetX shadow),
                     vy = extractDimensionValue (sh_offsetY shadow) \<rparr>,
       fx_radius = extractDimensionValue (sh_blur shadow),
       fx_spread = (case sh_spread shadow of None \<Rightarrow> 0 | Some d \<Rightarrow> extractDimensionValue d) \<rparr>"

definition shadowToEffectStyle ::
  "string \<Rightarrow> ShadowValue list \<Rightarrow> string option \<Rightarrow> FigmaEffectStyle" where
  "shadowToEffectStyle name shadows description =
     \<lparr> fes_name = name, fes_effects = map shadowToFigmaEffect shadows,
       fes_description = truthyDescription description \<rparr>"

fun gradientTypeToFigma :: "GradientType \<Rightarrow> PaintType" where
  "gradientTypeToFigma Linear = GRADIENT_LINEAR"
| "gradientTypeToFigma Radial = GRADIENT_RADIAL"
| "gradientTypeToFigma Conic = GRADIENT_ANGULAR"

definition gradientToFigmaPaint :: "GradientValue \<Rightarrow> FigmaPaint" where
  "gradientToFigmaPaint gradient =
     (let angle = Lit (case gr_angle gradient of None \<Rightarrow> 180 | Some x \<Rightarrow> x);
          radians = Times (Minus angle (Lit 90)) (Over MathPI (Lit 180));
          c = MathCos radians;
          s = MathSin radians
      in \<lparr> fp_type = gradientTypeToFigma (gr_type gradient),
           fp_visible = True,
           fp_blendMode = NORMAL,
           fp_gradientStops =
             map (\<lambda>stop. \<lparr> fgs_color = colorToFigmaRGBA (gs_color stop),
                             fgs_position = gs_position stop \<rparr>) (gr_stops gradient),
           fp_gradientHandlePositions =
             [\<lparr> hx = Minus (Lit 0.5) (Times c (Lit 0.5)),
                hy = Minus (Lit 0.5) (Times s (Lit 0.5)) \<rparr>,
              \<lparr> hx = Plus (Lit 0.5) (Times c (Lit 0.5)),
                hy = Plus (Lit 0.5) (Times s (Lit 0.5)) \<rparr>,
              \<lparr> hx = Minus (Lit 0.5) (Times s (Lit 0.5)),
                hy = Plus (Lit 0.5) (Times c (Lit 0.5)) \<rparr>] \<rparr>)"

definition gradientToPaintStyle ::
  "string \<Rightarrow> GradientValue \<Rightarrow> string option \<Rightarrow> FigmaPaintStyle" where
  "gradientToPaintStyle name v description =
     \<lparr> fps_name = name, fps_paints = [gradientToFigmaPaint v],
       fps_description = truthyDescription description \<rparr>"

record PluginTextStyleParams =
  pts_action :: Action
  pts_style :: FigmaTextStyle

record PluginEffectStyleParams =
  pes_action :: Action
  pes_style :: FigmaEffectStyle

record PluginPaintStyleParams =
  pps_action :: Action
  pps_style :: FigmaPaintStyle

record StyleTokenResult =
  textStyles :: "PluginTextStyleParams list"
  effectStyles :: "PluginEffectStyleParams list"
  paintStyles :: "PluginPaintStyleParams list"

datatype StyleKind = TextKind | EffectKind | PaintKind

record StyleCounters =
  textCount :: nat
  effectCount :: nat
  paintCount :: nat

text \<open>
  Modelled from the spec: the method \<open>addStyle\<close> of the report builder, which
  \<open>traverseForStyles\<close> calls with \<open>'text'\<close>, \<open>'effect'\<close> or \<open>'paint'\<close>. The class in
  \<open>report.ts\<close> has no such method and no style counter; the spec says of the style path
  "No report beyond a per-kind style counter".
\<close>

fun addStyle :: "StyleKind \<Rightarrow> StyleCounters \<Rightarrow> StyleCounters" where
  "addStyle TextKind rep = rep \<lparr> textCount := textCount rep + 1 \<rparr>"
| "addStyle EffectKind rep = rep \<lparr> effectCount := effectCount rep + 1 \<rparr>"
| "addStyle PaintKind rep = rep \<lparr> paintCount := paintCount rep + 1 \<rparr>"

text \<open>
  The casts of \<open>traverseForStyles\<close> (\<open>token.$value as TypographyValue\<close> and the like) are
  not checked. On a value of another shape, a reference \<open>{ $ref }\<close> among them, the
  converters read a property of \<open>undefined\<close> (\<open>value.fontFamily[0]\<close>,
  \<open>shadow.color.r\<close>, \<open>gradient.stops.map\<close>) and JavaScript raises a TypeError; only an
  empty array under a shadow token maps to no effect at all.
\<close>

definition asTypography :: "TokenValue \<Rightarrow> error + TypographyValue" where
  "asTypography v = (case v of VTypography t \<Rightarrow> Inr t | _ \<Rightarrow> Inl TypeError)"

definition asShadows :: "TokenValue \<Rightarrow> error + ShadowValue list" where
  "asShadows v =
     (case v of
        VShadow s \<Rightarrow> Inr [s]
      | VShadows ss \<Rightarrow> Inr ss
      | VStrings [] \<Rightarrow> Inr []
      | _ \<Rightarrow> Inl TypeError)"

definition asGradient :: "TokenValue \<Rightarrow> error + GradientValue" where
  "asGradient v = (case v of VGradient x \<Rightarrow> Inr x | _ \<Rightarrow> Inl TypeError)"

text \<open>The body of the loop of \<open>traverseForStyles\<close> for an entry that is a token.\<close>

definition styleOfToken ::
  "string \<Rightarrow> Token \<Rightarrow> StyleTokenResult \<times> StyleCounters \<Rightarrow>
   error + StyleTokenResult \<times> StyleCounters" where
  "styleOfToken styleName token acc =
     (case acc of (result, rep) \<Rightarrow>
        (case tk_type token of
           TTypography \<Rightarrow>
             (case asTypography (tk_value token) of
                Inl e \<Rightarrow> Inl e
              | Inr v \<Rightarrow>
                  Inr (result \<lparr> textStyles := textStyles result @
                                 [\<lparr> pts_action = CREATE,
                                    pts_style = typographyToTextStyle styleName v
                                                  (tk_description token) \<rparr>] \<rparr>,
                       addStyle TextKind rep))
         | TShadow \<Rightarrow>
             (case asShadows (tk_value token) of
                Inl e \<Rightarrow> Inl e
              | Inr v \<Rightarrow>
                  Inr (result \<lparr> effectStyles := effectStyles result @
                                 [\<lparr> pes_action = CREATE,
                                    pes_style = shadowToEffectStyle styleName v
                                                  (tk_description token) \<rparr>] \<rparr>,
                       addStyle EffectKind rep))
         | TGradient \<Rightarrow>
             (case asGradient (tk_value token) of
                Inl e \<Rightarrow> Inl e
              | Inr v \<Rightarrow>
                  Inr (result \<lparr> paintStyles := paintStyles result @
                                 [\<lparr> pps_action = CREATE,
                                    pps_style = gradientToPaintStyle styleName v
                                                  (tk_description token) \<rparr>] \<rparr>,
                       addStyle PaintKind rep))
         | _ \<Rightarrow> Inr (result, rep)))"

fun traverseForStyles ::
  "TokenGroup \<Rightarrow> string list \<Rightarrow> string \<Rightarrow> StyleTokenResult \<times> StyleCounters \<Rightarrow>
   error + StyleTokenResult \<times> StyleCounters" where
  "traverseForStyles [] path collectionName acc = Inr acc"
| "traverseForStyles ((key, Leaf token) # rest) path collectionName acc =
     (if startsWithDollar key then traverseForStyles rest path collectionName acc
      else (case styleOfToken (join ''/'' (path @ [key])) token acc of
              Inl e \<Rightarrow> Inl e
            | Inr acc' \<Rightarrow> traverseForStyles rest path collectionName acc'))"
| "traverseForStyles ((key, Group grp) # rest) path collectionName acc =
     (if startsWithDollar key then traverseForStyles rest path collectionName acc
      else (case traverseForStyles grp (path @ [key]) collectionName acc of
              Inl e \<Rightarrow> Inl e
            | Inr acc' \<Rightarrow> traverseForStyles rest path collectionName acc'))"

fun extractCollections ::
  "TokenCollection list \<Rightarrow> StyleTokenResult \<times> StyleCounters \<Rightarrow>
   error + StyleTokenResult \<times> StyleCounters" where
  "extractCollections [] acc = Inr acc"
| "extractCollections (collection # rest) acc =
     (case map_of (tc_tokens collection) (tc_defaultMode collection) of
        None \<Rightarrow> extractCollections rest acc
      | Some defaultTokens \<Rightarrow>
          (case traverseForStyles defaultTokens [] (tc_name collection) acc of
             Inl e \<Rightarrow> Inl e
           | Inr acc' \<Rightarrow> extractCollections rest acc'))"

definition extractStyleTokens ::
  "ThemeFile \<Rightarrow> StyleCounters \<Rightarrow> error + StyleTokenResult \<times> StyleCounters" where
  "extractStyleTokens theme rep =
     extractCollections (th_collections theme)
       (\<lparr> textStyles = [], effectStyles = [], paintStyles = [] \<rparr>, rep)"

section \<open>Read path: host variables to tokens\<close>

text \<open>
  A mode value of a host variable: \<open>boolean | number | string | RGBA | VariableAlias\<close>.
  The guards \<open>isVariableAlias\<close>, \<open>isRGBA\<close> and \<open>typeof\<close> tell the cases apart.
\<close>

datatype VariableValue =
    BooleanValue bool
  | NumberValue real
  | StringValue string
  | RGBAValue RGBA
  | AliasValue string

record HostCodeSyntax =
  hc_WEB :: "string option"
  hc_ANDROID :: "string option"
  hc_iOS :: "string option"

record LocalVariable =
  lv_id :: string
  lv_name :: string
  lv_variableCollectionId :: string
  lv_resolvedType :: string
  lv_scopes :: "string list"
  lv_valuesByMode :: "(string \<times> VariableValue) list"
  lv_hiddenFromPublishing :: bool
  lv_codeSyntax :: "HostCodeSyntax option"
  lv_description :: string

definition dimensionScopes :: "string list" where
  "dimensionScopes =
     [''CORNER_RADIUS'', ''WIDTH_HEIGHT'', ''GAP'', ''STROKE_FLOAT'', ''FONT_SIZE'',
      ''LINE_HEIGHT'', ''LETTER_SPACING'', ''PARAGRAPH_SPACING'', ''PARAGRAPH_INDENT'']"

definition convertFigmaNumber :: "real \<Rightarrow> string list \<Rightarrow> TokenValue" where
  "convertFigmaNumber v scopes =
     (if list_ex (\<lambda>scope. scope \<in> set dimensionScopes) scopes
      then VDimension \<lparr> dv_value = v, dv_unit = ''px'' \<rparr>
      else VNumber v)"

fun splitOn :: "char \<Rightarrow> string \<Rightarrow> string list" where
  "splitOn c [] = [[]]"
| "splitOn c (x # xs) =
     (if x = c then [] # splitOn c xs
      else (case splitOn c xs of [] \<Rightarrow> [[x]] | y # ys \<Rightarrow> (x # y) # ys))"

text \<open>\<open>\s\<close> on the characters of a byte string: tab, line feed, vertical tab, form feed,
  carriage return and space.\<close>

definition isSpaceChar :: "char \<Rightarrow> bool" where
  "isSpaceChar c = (let n = (of_char c :: nat) in (9 \<le> n \<and> n \<le> 13) \<or> n = 32)"

text \<open>\<open>replace(/\s+/g, '-')\<close>: \<open>inRun\<close> says that the character before was white space.\<close>

fun replaceSpaces :: "bool \<Rightarrow> string \<Rightarrow> string" where
  "replaceSpaces inRun [] = []"
| "replaceSpaces inRun (c # cs) =
     (if isSpaceChar c then (if inRun then [] else ''-'') @ replaceSpaces True cs
      else c # replaceSpaces False cs)"

definition kebabSegment :: "string \<Rightarrow> string" where
  "kebabSegment segment = replaceSpaces False (toLowerCase segment)"

definition createTokenReference ::
  "string \<Rightarrow> (string \<rightharpoonup> LocalVariable) \<Rightarrow> TokenValue" where
  "createTokenReference aliasId variablesById =
     (case variablesById aliasId of
        None \<Rightarrow> VReference (''{'' @ aliasId @ ''}'')
      | Some referencedVar \<Rightarrow>
          VReference (''{'' @ join ''.'' (map kebabSegment (splitOn CHR ''/'' (lv_name referencedVar)))
                      @ ''}''))"

definition detectTokenType :: "LocalVariable \<Rightarrow> TokenType" where
  "detectTokenType variable =
     (if lv_resolvedType variable = ''COLOR'' then TColor
      else if lv_resolvedType variable = ''BOOLEAN'' then TBoolean
      else if lv_resolvedType variable = ''STRING'' then
        (if ''FONT_FAMILY'' \<in> set (lv_scopes variable) then TFontFamily else TString)
      else if lv_resolvedType variable = ''FLOAT'' then
        (if ''FONT_WEIGHT'' \<in> set (lv_scopes variable) then TFontWeight
         else if ''CORNER_RADIUS'' \<in> set (lv_scopes variable) \<or>
                 ''WIDTH_HEIGHT'' \<in> set (lv_scopes variable) \<or>
                 ''GAP'' \<in> set (lv_scopes variable) \<or>
                 ''FONT_SIZE'' \<in> set (lv_scopes variable) \<or>
                 ''LINE_HEIGHT'' \<in> set (lv_scopes variable) \<or>
                 ''LETTER_SPACING'' \<in> set (lv_scopes variable)
         then TDimension
         else TNumber)
      else TString)"

definition figmaExtensionsOf :: "LocalVariable \<Rightarrow> FigmaExtensions" where
  "figmaExtensionsOf variable =
     \<lparr> fe_variableId = lv_id variable,
       fe_scopes = lv_scopes variable,
       fe_hiddenFromPublishing = lv_hiddenFromPublishing variable,
       fe_codeSyntax =
         (case lv_codeSyntax variable of
            None \<Rightarrow> None
          | Some cs \<Rightarrow>
              if hc_WEB cs = None \<and> hc_ANDROID cs = None \<and> hc_iOS cs = None then None
              else Some \<lparr> cs_web = hc_WEB cs, cs_android = hc_ANDROID cs, cs_ios = hc_iOS cs \<rparr>) \<rparr>"

definition createToken ::
  "LocalVariable \<Rightarrow> VariableValue \<Rightarrow> (string \<rightharpoonup> LocalVariable) \<Rightarrow> Token" where
  "createToken variable v variablesById =
     (let tokenType = detectTokenType variable;
          tokenValue =
            (case v of
               AliasValue aliasId \<Rightarrow> createTokenReference aliasId variablesById
             | RGBAValue c \<Rightarrow> VColor (convertFigmaColor c)
             | NumberValue n \<Rightarrow> convertFigmaNumber n (lv_scopes variable)
             | StringValue s \<Rightarrow> if tokenType = TFontFamily then VStrings [s] else VString s
             | BooleanValue x \<Rightarrow> VBoolean x)
      in \<lparr> tk_type = tokenType,
           tk_value = tokenValue,
           tk_description =
             (if lv_description variable = [] then None else Some (lv_description variable)),
           tk_extensions = Some (figmaExtensionsOf variable) \<rparr>)"

text \<open>
  The shape that the type tag of a token promises for a value that is not a reference:
  a dimension is \<open>{ value, unit }\<close>, a number is a plain number.
\<close>

definition shapeAgrees :: "Token \<Rightarrow> bool" where
  "shapeAgrees token =
     (case tk_type token of
        TDimension \<Rightarrow> (case tk_value token of VDimension d \<Rightarrow> dv_unit d = ''px'' | _ \<Rightarrow> False)
      | TNumber \<Rightarrow> (case tk_value token of VNumber n \<Rightarrow> True | _ \<Rightarrow> False)
      | _ \<Rightarrow> True)"

section \<open>Predicates and example inputs used by the theorems\<close>

definition collectionIdsOf :: "PostVariablesRequestBody \<Rightarrow> string set" where
  "collectionIdsOf body = set (map vcc_id (variableCollections body))"

definition modeIdsOf :: "PostVariablesRequestBody \<Rightarrow> string set" where
  "modeIdsOf body =
     set (map vmc_id (variableModes body)) \<union> set (map vcc_initialModeId (variableCollections body))"

definition variableIdsOf :: "PostVariablesRequestBody \<Rightarrow> string set" where
  "variableIdsOf body = set (map vc_id (variables body))"

text \<open>
  Every id that an op of the batch refers to is the id of an op of the same batch: the
  collection of a variable-create and of a mode-create is a collection-create, the variable
  of a mode value is a variable-create, and its mode is a mode-create or the initial mode
  of a collection-create.
\<close>

definition referentiallyConsistent :: "PostVariablesRequestBody \<Rightarrow> bool" where
  "referentiallyConsistent body =
     ((\<forall>v \<in> set (variables body). vc_variableCollectionId v \<in> collectionIdsOf body) \<and>
      (\<forall>m \<in> set (variableModes body). vmc_variableCollectionId m \<in> collectionIdsOf body) \<and>
      (\<forall>x \<in> set (variableModeValues body).
         mv_variableId x \<in> variableIdsOf body \<and> mv_modeId x \<in> modeIdsOf body))"

text \<open>What holds between two rounds of the loops that run for one collection.\<close>

definition loopInvariant :: "string \<Rightarrow> (string \<rightharpoonup> string) \<Rightarrow> TransformState \<Rightarrow> bool" where
  "loopInvariant collectionId collectionModeIds st =
     (referentiallyConsistent (ts_requestBody st) \<and>
      collectionId \<in> collectionIdsOf (ts_requestBody st) \<and>
      (\<forall>modeName modeId. collectionModeIds modeName = Some modeId \<longrightarrow>
         modeId \<in> modeIdsOf (ts_requestBody st)))"

definition exampleTheme :: "string option \<Rightarrow> ThemeFile" where
  "exampleTheme key =
     \<lparr> th_name = ''Test'', th_collections = [], th_meta = Some \<lparr> figmaFileKey = key \<rparr> \<rparr>"

definition exampleOptions :: "string option \<Rightarrow> bool option \<Rightarrow> FigmaOutputAdapterOptions" where
  "exampleOptions key allow =
     \<lparr> targetFileKey = key, operationMode = None, allowSourceOverwrite = allow,
       collectionMapping = None, skipHidden = None, idPrefix = None \<rparr>"

definition shadowToken :: Token where
  "shadowToken = \<lparr> tk_type = TShadow, tk_value = VShadows [], tk_description = None,
                   tk_extensions = None \<rparr>"

definition remToken :: Token where
  "remToken = \<lparr> tk_type = TDimension, tk_value = VDimension \<lparr> dv_value = 32, dv_unit = ''rem'' \<rparr>,
                tk_description = None, tk_extensions = None \<rparr>"

definition smallCollection :: TokenCollection where
  "smallCollection =
     \<lparr> tc_name = ''c'', tc_modes = [''m'', ''n''], tc_defaultMode = ''m'',
       tc_tokens = [(''m'', [(''s'', Leaf shadowToken), (''d'', Leaf remToken)])] \<rparr>"

definition smallTheme :: ThemeFile where
  "smallTheme = \<lparr> th_name = ''T'', th_collections = [smallCollection], th_meta = None \<rparr>"

subsection \<open>What each token and each collection contributes\<close>

definition compositeSuggestion :: string where
  "compositeSuggestion = ''Consider using Figma Styles API for composite types''"

definition isCompositeSkip :: "SkippedToken \<Rightarrow> bool" where
  "isCompositeSkip s = (sk_suggestion s = Some compositeSuggestion)"

definition compositeSkip :: "string list \<times> Token \<Rightarrow> SkippedToken" where
  "compositeSkip entry =
     \<lparr> sk_path = join ''.'' (fst entry),
       sk_reason = ''Token type '' @ [quoteChar] @ typeName (tk_type (snd entry)) @ [quoteChar] @
                   '' is not supported as a Figma variable'',
       sk_originalType = tk_type (snd entry),
       sk_suggestion = Some compositeSuggestion \<rparr>"

definition isSkipType :: "string list \<times> Token \<Rightarrow> bool" where
  "isSkipType entry = (tk_type (snd entry) \<in> set SKIP_TYPES)"

definition createsVariable :: "FigmaOutputAdapterOptions \<Rightarrow> string list \<times> Token \<Rightarrow> bool" where
  "createsVariable options entry =
     (tk_type (snd entry) \<notin> set SKIP_TYPES \<and>
      TOKEN_TYPE_TO_FIGMA (tk_type (snd entry)) \<noteq> None \<and>
      \<not> (skipHidden options = Some True \<and> isHidden (snd entry)))"

definition defaultEntries :: "TokenCollection \<Rightarrow> (string list \<times> Token) list" where
  "defaultEntries c =
     (case map_of (tc_tokens c) (tc_defaultMode c) of
        None \<Rightarrow> []
      | Some defaultTokens \<Rightarrow> flattenTokens defaultTokens [])"

definition nonDefaultModes :: "TokenCollection \<Rightarrow> string list" where
  "nonDefaultModes c = filter (\<lambda>m. m \<noteq> tc_defaultMode c) (tc_modes c)"

definition isUnitDiscarded :: "TransformationWarning \<Rightarrow> bool" where
  "isUnitDiscarded w = (w_code w = UNIT_DISCARDED)"

definition unitWarning :: "DimensionValue \<Rightarrow> string \<Rightarrow> TransformationWarning" where
  "unitWarning d path =
     \<lparr> w_code = UNIT_DISCARDED,
       w_message = ''Unit '' @ [quoteChar] @ dv_unit d @ [quoteChar] @
                   '' discarded, stored as raw number'',
       w_path = Some path \<rparr>"

definition unitWarningsOf :: "Token \<Rightarrow> string \<Rightarrow> TransformationWarning list" where
  "unitWarningsOf token path =
     (case tk_value token of
        VDimension d \<Rightarrow>
          if tk_type token = TDimension \<and> dv_unit d \<noteq> ''px'' then [unitWarning d path] else []
      | _ \<Rightarrow> [])"

definition modeUnitWarnings ::
  "TokenCollection \<Rightarrow> string list \<Rightarrow> string \<Rightarrow> TransformationWarning list" where
  "modeUnitWarnings c path modeName =
     (case map_of (tc_tokens c) modeName of
        None \<Rightarrow> []
      | Some modeTokens \<Rightarrow>
          (case findModeToken modeTokens path of
             None \<Rightarrow> []
           | Some token \<Rightarrow>
               unitWarningsOf token (tc_name c @ ''.'' @ modeName @ ''.'' @ join ''.'' path)))"

definition skipsOf :: "TransformState \<Rightarrow> SkippedToken list" where
  "skipsOf st = filter isCompositeSkip (skipped (ts_report st))"

definition unitWarningsIn :: "TransformState \<Rightarrow> TransformationWarning list" where
  "unitWarningsIn st = filter isUnitDiscarded (warnings (ts_report st))"

definition variableNamesOf :: "TransformState \<Rightarrow> string list" where
  "variableNamesOf st = map vc_name (variables (ts_requestBody st))"

definition modeNamesOf :: "TransformState \<Rightarrow> string list" where
  "modeNamesOf st = map vmc_name (variableModes (ts_requestBody st))"

definition modeIdsTotal :: "(string \<rightharpoonup> string) \<Rightarrow> string list \<Rightarrow> bool" where
  "modeIdsTotal cm ms = (\<forall>m \<in> set ms. \<exists>i. cm m = Some i \<and> i \<noteq> [])"

definition tokenUnitWarnings ::
  "FigmaOutputAdapterOptions \<Rightarrow> TokenCollection \<Rightarrow> string list \<times> Token \<Rightarrow>
   TransformationWarning list" where
  "tokenUnitWarnings options c entry =
     (if createsVariable options entry
      then concat (map (modeUnitWarnings c (fst entry)) (tc_modes c))
      else [])"

definition nonEmptyIds :: "(string \<rightharpoonup> string) \<Rightarrow> bool" where
  "nonEmptyIds cm = (\<forall>k i. cm k = Some i \<longrightarrow> i \<noteq> [])"

definition modesOfCollection :: "string \<Rightarrow> VariableModeCreate list \<Rightarrow> bool" where
  "modesOfCollection cid new = (\<forall>x \<in> set new. vmc_variableCollectionId x = cid \<and> vmc_action x = CREATE)"

definition strokeVariable :: LocalVariable where
  "strokeVariable =
     \<lparr> lv_id = ''VariableID:1'', lv_name = ''border/width'', lv_variableCollectionId = ''C'',
       lv_resolvedType = ''FLOAT'', lv_scopes = [''STROKE_FLOAT''],
       lv_valuesByMode = [(''m'', NumberValue 2)], lv_hiddenFromPublishing = False,
       lv_codeSyntax = None, lv_description = [] \<rparr>"

definition referenceTypography :: Token where
  "referenceTypography =
     \<lparr> tk_type = TTypography, tk_value = VReference ''{type.body}'', tk_description = None,
       tk_extensions = None \<rparr>"

definition referenceTheme :: ThemeFile where
  "referenceTheme =
     \<lparr> th_name = ''T'',
       th_collections =
         [\<lparr> tc_name = ''c'', tc_modes = [''m''], tc_defaultMode = ''m'',
            tc_tokens = [(''m'', [(''t'', Leaf referenceTypography)])] \<rparr>],
       th_meta = None \<rparr>"

text \<open>The style loop over a flattened list of tokens.\<close>

fun applyStyles ::
  "(string list \<times> Token) list \<Rightarrow> StyleTokenResult \<times> StyleCounters \<Rightarrow>
   error + StyleTokenResult \<times> StyleCounters" where
  "applyStyles [] acc = Inr acc"
| "applyStyles (entry # rest) acc =
     (case styleOfToken (join ''/'' (fst entry)) (snd entry) acc of
        Inl e \<Rightarrow> Inl e
      | Inr acc' \<Rightarrow> applyStyles rest acc')"

definition returns :: "error + 'a \<Rightarrow> bool" where
  "returns x = (case x of Inl e \<Rightarrow> False | Inr v \<Rightarrow> True)"

definition styleShaped :: "string list \<times> Token \<Rightarrow> bool" where
  "styleShaped entry =
     (case tk_type (snd entry) of
        TTypography \<Rightarrow> returns (asTypography (tk_value (snd entry)))
      | TShadow \<Rightarrow> returns (asShadows (tk_value (snd entry)))
      | TGradient \<Rightarrow> returns (asGradient (tk_value (snd entry)))
      | _ \<Rightarrow> True)"

definition ofType :: "TokenType \<Rightarrow> string list \<times> Token \<Rightarrow> bool" where
  "ofType t entry = (tk_type (snd entry) = t)"

subsection \<open>The tokens of a tree and the themes of the schema\<close>

text \<open>
  The tokens of a token tree, said without the traversal of the code: a token is at a path
  when the keys of the path lead to it through nested groups. Keys that start with \<open>$\<close>
  are metadata and lead to no token. This is what "a token of the tree at a path" means in
  the theorems; \<open>flattenTokens\<close> and \<open>findModeToken\<close> are compared with it.
\<close>

inductive tokenAt :: "TokenGroup \<Rightarrow> string list \<Rightarrow> Token \<Rightarrow> bool" where
  here: "(key, Leaf token) \<in> set grp \<Longrightarrow> \<not> startsWithDollar key \<Longrightarrow> tokenAt grp [key] token"
| below: "(key, Group sub) \<in> set grp \<Longrightarrow> \<not> startsWithDollar key \<Longrightarrow> tokenAt sub path token \<Longrightarrow>
          tokenAt grp (key # path) token"

code_pred tokenAt .

text \<open>
  A token group is a JavaScript object, so a key occurs once at each level; the list of
  entries that stands for it here has no key twice.
\<close>

fun distinctKeys :: "TokenGroup \<Rightarrow> bool" where
  "distinctKeys [] = True"
| "distinctKeys ((key, Leaf token) # rest) = (key \<notin> set (map fst rest) \<and> distinctKeys rest)"
| "distinctKeys ((key, Group sub) # rest) =
     (key \<notin> set (map fst rest) \<and> distinctKeys sub \<and> distinctKeys rest)"

definition cleanPath :: "string list \<Rightarrow> bool" where
  "cleanPath path = (path \<noteq> [] \<and> (\<forall>s \<in> set path. \<not> startsWithDollar s))"

text \<open>
  Modelled from the spec: the schema module \<open>schema/tokens.ts\<close> is not among the sources.
  The spec says of a token that "the value's shape is determined by type": a value is a
  reference or has the shape of its type tag. On such tokens \<open>tokenValueToFigma\<close> reads
  only fields that the value has. On other values the code throws (a fontWeight value that
  is neither a number nor a string has no \<open>toLowerCase\<close>) or reads \<open>undefined\<close> (a
  dimension value without \<open>unit\<close> gets a warning of its own); the embedding has the
  placeholder \<open>FUnchecked\<close> there and the theorems about whole calls leave these themes
  out.
\<close>

definition wellShaped :: "Token \<Rightarrow> bool" where
  "wellShaped token =
     (case tk_value token of
        VReference ref \<Rightarrow> True
      | v \<Rightarrow>
          (case tk_type token of
             TColor \<Rightarrow> (case v of VColor c \<Rightarrow> True | _ \<Rightarrow> False)
           | TDimension \<Rightarrow> (case v of VDimension d \<Rightarrow> True | _ \<Rightarrow> False)
           | TNumber \<Rightarrow> (case v of VNumber n \<Rightarrow> True | _ \<Rightarrow> False)
           | TString \<Rightarrow> (case v of VString s \<Rightarrow> True | _ \<Rightarrow> False)
           | TBoolean \<Rightarrow> (case v of VBoolean b \<Rightarrow> True | _ \<Rightarrow> False)
           | TFontFamily \<Rightarrow> (case v of VStrings families \<Rightarrow> True | _ \<Rightarrow> False)
           | TFontWeight \<Rightarrow> (case v of VNumber n \<Rightarrow> True | VString w \<Rightarrow> True | _ \<Rightarrow> False)
           | TDuration \<Rightarrow> (case v of VDimension d \<Rightarrow> True | _ \<Rightarrow> False)
           | TTypography \<Rightarrow> (case v of VTypography t \<Rightarrow> True | _ \<Rightarrow> False)
           | TShadow \<Rightarrow> (case v of VShadow s \<Rightarrow> True | VShadows ss \<Rightarrow> True | _ \<Rightarrow> False)
           | TGradient \<Rightarrow> (case v of VGradient g \<Rightarrow> True | _ \<Rightarrow> False)
           | _ \<Rightarrow> True))"

fun wellShapedGroup :: "TokenGroup \<Rightarrow> bool" where
  "wellShapedGroup [] = True"
| "wellShapedGroup ((key, Leaf token) # rest) = (wellShaped token \<and> wellShapedGroup rest)"
| "wellShapedGroup ((key, Group sub) # rest) = (wellShapedGroup sub \<and> wellShapedGroup rest)"

definition wellShapedCollection :: "TokenCollection \<Rightarrow> bool" where
  "wellShapedCollection c = list_all (\<lambda>entry. wellShapedGroup (snd entry)) (tc_tokens c)"

text \<open>
  A well-formed theme: in every tree of every mode of every collection, no key occurs twice
  at one level and every token is well shaped.
\<close>

definition wellFormedTheme :: "ThemeFile \<Rightarrow> bool" where
  "wellFormedTheme theme =
     list_all (\<lambda>c. list_all (\<lambda>entry. distinctKeys (snd entry) \<and> wellShapedGroup (snd entry))
                     (tc_tokens c))
       (th_collections theme)"

text \<open>The token at a path in the tree of one mode of a collection (\<open>collection.tokens[modeName]\<close>).\<close>

definition tokenOfMode :: "TokenCollection \<Rightarrow> string \<Rightarrow> string list \<Rightarrow> Token \<Rightarrow> bool" where
  "tokenOfMode c modeName path token =
     (case map_of (tc_tokens c) modeName of
        None \<Rightarrow> False
      | Some tree \<Rightarrow> tokenAt tree path token)"

text \<open>
  The eight kinds of token that have no variable, and the eight that have one, listed as
  the specification lists them; \<open>SKIP_TYPES\<close> and \<open>TOKEN_TYPE_TO_FIGMA\<close> of the
  code are compared with these lists.
\<close>

definition compositeKinds :: "TokenType set" where
  "compositeKinds = {TTypography, TShadow, TBorder, TGradient, TCubicBezier, TTransition,
                     TAnimation, TKeyframes}"

definition variableKinds :: "TokenType set" where
  "variableKinds = {TColor, TDimension, TNumber, TString, TBoolean, TFontFamily, TFontWeight,
                    TDuration}"

definition becomesVariable :: "FigmaOutputAdapterOptions \<Rightarrow> Token \<Rightarrow> bool" where
  "becomesVariable options token =
     (tk_type token \<in> variableKinds \<and> \<not> (skipHidden options = Some True \<and> isHidden token))"

text \<open>
  A Skipped entry of a composite token of the default-mode tree of a collection, a
  variable-create named after a token of that tree that becomes a variable, and a
  UNIT_DISCARDED warning of a dimension token with another unit than "px" at a path of the
  tree of a mode.
\<close>

definition compositeSkipOf :: "TokenCollection \<Rightarrow> SkippedToken \<Rightarrow> bool" where
  "compositeSkipOf c s =
     (\<exists>path token. tokenOfMode c (tc_defaultMode c) path token \<and>
                   tk_type token \<in> compositeKinds \<and> s = compositeSkip (path, token))"

definition variableOf ::
  "FigmaOutputAdapterOptions \<Rightarrow> TokenCollection \<Rightarrow> VariableCreate \<Rightarrow> bool" where
  "variableOf options c v =
     (\<exists>path token. tokenOfMode c (tc_defaultMode c) path token \<and>
                   becomesVariable options token \<and> vc_name v = join ''/'' path)"

definition unitDiscardedAt ::
  "TokenCollection \<Rightarrow> string \<Rightarrow> string list \<Rightarrow> TransformationWarning \<Rightarrow> bool" where
  "unitDiscardedAt c modeName path w =
     (\<exists>token d. tokenOfMode c modeName path token \<and> tk_type token = TDimension \<and>
                tk_value token = VDimension d \<and> dv_unit d \<noteq> ''px'' \<and>
                w = unitWarning d (tc_name c @ ''.'' @ modeName @ ''.'' @ join ''.'' path))"

definition unitDiscardedIn :: "TokenCollection \<Rightarrow> TransformationWarning \<Rightarrow> bool" where
  "unitDiscardedIn c w =
     (\<exists>modeName path. modeName \<in> set (tc_modes c) \<and> unitDiscardedAt c modeName path w)"

text \<open>
  What one round of the value loop pushes for a variable id, a path and a mode: at most one
  mode value. The value that \<open>tokenValueToFigma\<close> returns does not depend on the report.
\<close>

definition figmaValueOf :: "Token \<Rightarrow> FigmaValue option" where
  "figmaValueOf token = fst (tokenValueToFigma token newReport [])"

definition modeValuesOf ::
  "TokenCollection \<Rightarrow> (string \<rightharpoonup> string) \<Rightarrow> string list \<Rightarrow> string \<Rightarrow> string \<Rightarrow>
   VariableModeValue list" where
  "modeValuesOf c cm path vid modeName =
     (case map_of (tc_tokens c) modeName of
        None \<Rightarrow> []
      | Some modeTokens \<Rightarrow>
          (case findModeToken modeTokens path of
             None \<Rightarrow> []
           | Some token \<Rightarrow>
               (case cm modeName of
                  None \<Rightarrow> []
                | Some modeId \<Rightarrow>
                    if modeId = [] then []
                    else (case figmaValueOf token of
                            None \<Rightarrow> []
                          | Some figmaValue \<Rightarrow>
                              [\<lparr> mv_variableId = vid, mv_modeId = modeId,
                                 mv_value = figmaValue \<rparr>]))))"

text \<open>
  The lists of the request body only grow while the transformer runs: a later state extends
  an earlier one.
\<close>

definition extends :: "TransformState \<Rightarrow> TransformState \<Rightarrow> bool" where
  "extends st st' =
     ((\<exists>xs. variableCollections (ts_requestBody st') = variableCollections (ts_requestBody st) @ xs) \<and>
      (\<exists>xs. variableModes (ts_requestBody st') = variableModes (ts_requestBody st) @ xs) \<and>
      (\<exists>xs. variables (ts_requestBody st') = variables (ts_requestBody st) @ xs) \<and>
      (\<exists>xs. variableModeValues (ts_requestBody st') = variableModeValues (ts_requestBody st) @ xs))"

text \<open>No mode value of the state is the placeholder for an unchecked cast.\<close>

fun isUnchecked :: "FigmaValue \<Rightarrow> bool" where
  "isUnchecked (FUnchecked v) = True"
| "isUnchecked v = False"

definition checkedValues :: "TransformState \<Rightarrow> bool" where
  "checkedValues st =
     list_all (\<lambda>y. \<not> isUnchecked (mv_value y)) (variableModeValues (ts_requestBody st))"

text \<open>
  A theme of two collections; the second has nested groups, a tree for each of its two
  modes, a shadow token at \<open>a.s\<close> and a dimension token in rem at \<open>b.d\<close>.
\<close>

definition nestedCollection :: TokenCollection where
  "nestedCollection =
     \<lparr> tc_name = ''k'', tc_modes = [''m'', ''n''], tc_defaultMode = ''m'',
       tc_tokens =
         [(''m'', [(''a'', Group [(''s'', Leaf shadowToken)]),
                   (''b'', Group [(''d'', Leaf remToken)])]),
          (''n'', [(''b'', Group [(''d'', Leaf remToken)])])] \<rparr>"

definition nestedTheme :: ThemeFile where
  "nestedTheme =
     \<lparr> th_name = ''T'', th_collections = [smallCollection, nestedCollection], th_meta = None \<rparr>"

section \<open>Properties\<close>

subsection \<open>Evaluation of the example\<close>

lemma showNat_digit: "n < 10 \<Longrightarrow> showNat n = [digitChar n]"
  by (simp add: showNat.simps)

lemmas eval_defs =
  transformToFigmaVariables_def runCollections_def initialState_def resetIdCounter_def
  processCollection_def createMode_def processToken_def setModeValue_def findModeToken_def
  tokenValueToFigma_def dimensionToNumber_def generateTempId_def showNat_digit digitChar_def
  idPrefixOf_def mappedName_def isHidden_def startsWithDollar_def SKIP_TYPES_def
  TOKEN_TYPE_TO_FIGMA_def pushCollection_def pushMode_def pushVariable_def pushModeValue_def
  onReport_def addCollection_def addMode_def addVariable_def addValue_def addSkipped_def
  addWarning_def setSourceCheck_def newReport_def metaFileKey_def colorToFigmaRGBA_def
  quoteChar_def Let_def

lemmas example_defs =
  smallTheme_def smallCollection_def shadowToken_def remToken_def exampleOptions_def

lemma smallTheme_body:
  "requestBody (fst (transformToFigmaVariables smallTheme (exampleOptions None None) n)) =
     \<lparr> variableCollections =
         [\<lparr> vcc_action = CREATE, vcc_id = ''temp_col_1'', vcc_name = ''c'',
            vcc_initialModeId = ''temp_mode_2'' \<rparr>],
       variableModes =
         [\<lparr> vmc_action = CREATE, vmc_id = ''temp_mode_3'', vmc_name = ''n'',
            vmc_variableCollectionId = ''temp_col_1'' \<rparr>],
       variables =
         [\<lparr> vc_action = CREATE, vc_id = ''temp_var_4'', vc_name = ''d'',
            vc_variableCollectionId = ''temp_col_1'', vc_resolvedType = FLOAT,
            vc_description = None \<rparr>],
       variableModeValues =
         [\<lparr> mv_variableId = ''temp_var_4'', mv_modeId = ''temp_mode_2'',
            mv_value = FNumber (Lit 32) \<rparr>] \<rparr>"
  by (simp add: eval_defs example_defs)

subsection \<open>Source safety\<close>

lemma checkSourceSafety_cases:
  "checkSourceSafety theme options =
     (if falsyKey (metaFileKey theme) \<or> falsyKey (targetFileKey options)
      then Inr \<lparr> sourceFileKey = metaFileKey theme, sc_targetFileKey = targetFileKey options,
                 isSameFile = False,
                 overwriteAllowed = (allowSourceOverwrite options = Some True) \<rparr>
      else if metaFileKey theme = targetFileKey options \<and>
              allowSourceOverwrite options \<noteq> Some True
      then Inl (SourceOverwriteError (the (metaFileKey theme)) (the (targetFileKey options)))
      else Inr \<lparr> sourceFileKey = metaFileKey theme, sc_targetFileKey = targetFileKey options,
                 isSameFile = (metaFileKey theme = targetFileKey options),
                 overwriteAllowed = (allowSourceOverwrite options = Some True) \<rparr>)"
  by (cases "metaFileKey theme"; cases "targetFileKey options";
      cases "allowSourceOverwrite options")
     (auto simp: checkSourceSafety_def Let_def)

text \<open>
  C1, as the code has it. \<open>checkSourceSafety\<close> raises \<open>SourceOverwriteError\<close>, carrying
  both file keys, if and only if the file key of the theme and the target file key are both
  present and not empty, are equal, and \<open>allowSourceOverwrite\<close> is not \<open>true\<close>. When a
  key is absent or empty it returns with \<open>isSameFile = false\<close>; when the keys are equal,
  not empty, and \<open>allowSourceOverwrite\<close> is \<open>true\<close>, it returns with
  \<open>isSameFile = true\<close> and \<open>overwriteAllowed = true\<close>.
\<close>

theorem checkSourceSafety_raises_iff:
  "(checkSourceSafety theme options = Inl e \<longleftrightarrow>
      (\<exists>k. k \<noteq> [] \<and> metaFileKey theme = Some k \<and> targetFileKey options = Some k \<and>
           allowSourceOverwrite options \<noteq> Some True \<and> e = SourceOverwriteError k k)) \<and>
   (falsyKey (metaFileKey theme) \<or> falsyKey (targetFileKey options) \<longrightarrow>
      (\<exists>res. checkSourceSafety theme options = Inr res \<and> \<not> isSameFile res)) \<and>
   (k \<noteq> [] \<and> metaFileKey theme = Some k \<and> targetFileKey options = Some k \<and>
    allowSourceOverwrite options = Some True \<longrightarrow>
      (\<exists>res. checkSourceSafety theme options = Inr res \<and> isSameFile res \<and>
             overwriteAllowed res))"
  by (cases "metaFileKey theme"; cases "targetFileKey options")
     (auto simp: checkSourceSafety_cases)

theorem checkSourceSafety_raises_iff_witness:
  "checkSourceSafety (exampleTheme (Some ''X'')) (exampleOptions (Some ''X'') None)
     = Inl (SourceOverwriteError ''X'' ''X'') \<and>
   (\<exists>res. checkSourceSafety (exampleTheme None) (exampleOptions (Some ''X'') None) = Inr res \<and>
          \<not> isSameFile res) \<and>
   (\<exists>res. checkSourceSafety (exampleTheme (Some ''X'')) (exampleOptions (Some ''X'') (Some True))
            = Inr res \<and> isSameFile res \<and> overwriteAllowed res)"
  using checkSourceSafety_raises_iff
          [of "exampleTheme (Some ''X'')" "exampleOptions (Some ''X'') None"
              "SourceOverwriteError ''X'' ''X''" "''X''"]
        checkSourceSafety_raises_iff
          [of "exampleTheme None" "exampleOptions (Some ''X'') None" TypeError "''X''"]
        checkSourceSafety_raises_iff
          [of "exampleTheme (Some ''X'')" "exampleOptions (Some ''X'') (Some True)" TypeError "''X''"]
  by (simp add: exampleTheme_def exampleOptions_def metaFileKey_def)

text \<open>
  C1, as the claim states it, fails when both keys are the empty string: they are present and
  equal and no overwrite is allowed, and \<open>checkSourceSafety\<close> returns.
\<close>

theorem checkSourceSafety_empty_keys_counterexample:
  "metaFileKey (exampleTheme (Some [])) = Some [] \<and>
   targetFileKey (exampleOptions (Some []) None) = Some [] \<and>
   allowSourceOverwrite (exampleOptions (Some []) None) \<noteq> Some True \<and>
   checkSourceSafety (exampleTheme (Some [])) (exampleOptions (Some []) None)
     = Inr \<lparr> sourceFileKey = Some [], sc_targetFileKey = Some [], isSameFile = False,
             overwriteAllowed = False \<rparr>"
  by (simp add: checkSourceSafety_def exampleTheme_def exampleOptions_def metaFileKey_def)

subsection \<open>Colour round trip\<close>

text \<open>
  C7. For every RGBA colour with components in [0,1], the read-path converter followed by
  the write-path converter gives the colour back:
  \<open>colorToFigmaRGBA (convertFigmaColor c) = c\<close>.
\<close>

theorem color_roundtrip:
  "unitRange c \<Longrightarrow> colorToFigmaRGBA (convertFigmaColor c) = c"
  by (simp add: colorToFigmaRGBA_def convertFigmaColor_def)

theorem color_roundtrip_witness:
  "unitRange \<lparr> rgba_r = 1, rgba_g = 0, rgba_b = 1/2, rgba_a = 1 \<rparr> \<and>
   colorToFigmaRGBA (convertFigmaColor \<lparr> rgba_r = 1, rgba_g = 0, rgba_b = 1/2, rgba_a = 1 \<rparr>)
     = \<lparr> rgba_r = 1, rgba_g = 0, rgba_b = 1/2, rgba_a = 1 \<rparr>"
proof -
  have h: "unitRange \<lparr> rgba_r = 1, rgba_g = 0, rgba_b = 1/2, rgba_a = 1 \<rparr>"
    by (simp add: unitRange_def)
  show ?thesis using h color_roundtrip [OF h] by simp
qed

subsection \<open>Determinism\<close>

text \<open>
  C3. \<open>transformToFigmaVariables\<close> is deterministic: the result of a call does not depend
  on the value of the id counter at the call, so two calls with the counter reset between
  them return the same request body, ids included.
\<close>

theorem transform_deterministic:
  "fst (transformToFigmaVariables theme options n) =
     fst (transformToFigmaVariables theme options m) \<and>
   requestBody (fst (transformToFigmaVariables theme options
       (resetIdCounter (snd (transformToFigmaVariables theme options n))))) =
     requestBody (fst (transformToFigmaVariables theme options n))"
  by (simp add: transformToFigmaVariables_def runCollections_def initialState_def
        resetIdCounter_def Let_def)

subsection \<open>Referential consistency\<close>

lemmas body_defs =
  collectionIdsOf_def modeIdsOf_def variableIdsOf_def referentiallyConsistent_def
  loopInvariant_def pushCollection_def pushMode_def pushVariable_def pushModeValue_def
  onReport_def

lemma setModeValue_inv:
  assumes "loopInvariant cid cm st" "vid \<in> variableIdsOf (ts_requestBody st)"
  shows "loopInvariant cid cm (setModeValue c cm path vid m st) \<and>
         vid \<in> variableIdsOf (ts_requestBody (setModeValue c cm path vid m st))"
  using assms
  by (auto simp: setModeValue_def body_defs split: option.splits prod.splits)

lemma fold_setModeValue_inv:
  assumes "loopInvariant cid cm st" "vid \<in> variableIdsOf (ts_requestBody st)"
  shows "loopInvariant cid cm (fold (setModeValue c cm path vid) ms st)"
  using assms
proof (induction ms arbitrary: st)
  case Nil
  then show ?case by simp
next
  case (Cons m ms)
  then show ?case using setModeValue_inv [of cid cm st vid c path m] by simp
qed

lemma processToken_inv:
  assumes "loopInvariant cid cm st"
  shows "loopInvariant cid cm (processToken opts prefix c cid cm entry st)"
proof (cases entry)
  case (Pair path token)
  have skip: "\<And>f. loopInvariant cid cm (onReport f st)"
    using assms by (simp add: body_defs)
  have var1: "\<And>v n. vc_variableCollectionId v = cid \<Longrightarrow>
      loopInvariant cid cm (onReport addVariable (pushVariable v (st \<lparr> ts_idCounter := n \<rparr>)))"
    using assms by (auto simp: body_defs)
  have var2: "\<And>v n vid. vc_id v = vid \<Longrightarrow> vid \<in> variableIdsOf
      (ts_requestBody (onReport addVariable (pushVariable v (st \<lparr> ts_idCounter := n \<rparr>))))"
    by (auto simp: body_defs)
  show ?thesis
    unfolding processToken_def Pair
    by (auto split: option.splits prod.splits simp: skip assms
             intro!: fold_setModeValue_inv var1 var2)
qed

lemma fold_processToken_inv:
  assumes "loopInvariant cid cm st"
  shows "loopInvariant cid cm (fold (processToken opts prefix c cid cm) entries st)"
  using assms
  by (induction entries arbitrary: st) (simp_all add: processToken_inv)

lemma createMode_inv:
  assumes "loopInvariant cid cm st" "createMode prefix cid d m (cm, st) = (cm', st')"
  shows "loopInvariant cid cm' st'"
  using assms
  by (auto simp: createMode_def body_defs split: if_splits prod.splits) blast+

lemma fold_createMode_inv:
  assumes "loopInvariant cid cm st" "fold (createMode prefix cid d) ms (cm, st) = (cm', st')"
  shows "loopInvariant cid cm' st'"
  using assms
proof (induction ms arbitrary: cm st)
  case Nil
  then show ?case by simp
next
  case (Cons m ms)
  obtain cm1 st1 where step: "createMode prefix cid d m (cm, st) = (cm1, st1)"
    by (cases "createMode prefix cid d m (cm, st)")
  with Cons show ?case using createMode_inv [OF Cons.prems(1) step] by simp
qed

lemma processCollection_consistent:
  assumes "referentiallyConsistent (ts_requestBody st)"
  shows "referentiallyConsistent (ts_requestBody (processCollection opts prefix c st))"
proof -
  obtain cid n1 where g1: "generateTempId (prefix @ ''_col'') (ts_idCounter st) = (cid, n1)"
    by (cases "generateTempId (prefix @ ''_col'') (ts_idCounter st)")
  obtain mid n2 where g2: "generateTempId (prefix @ ''_mode'') n1 = (mid, n2)"
    by (cases "generateTempId (prefix @ ''_mode'') n1")
  define st0 where "st0 = onReport addCollection
                (pushCollection
                   \<lparr> vcc_action = CREATE, vcc_id = cid,
                     vcc_name = mappedName opts (tc_name c),
                     vcc_initialModeId = mid \<rparr>
                   (st \<lparr> ts_idCounter := n2 \<rparr>))"
  have inv0: "loopInvariant cid (Map.empty(tc_defaultMode c \<mapsto> mid)) st0"
    using assms by (auto simp: st0_def body_defs)
  obtain cm st1 where f: "fold (createMode prefix cid (tc_defaultMode c)) (tc_modes c)
             (Map.empty(tc_defaultMode c \<mapsto> mid), st0) = (cm, st1)"
    by (cases "fold (createMode prefix cid (tc_defaultMode c)) (tc_modes c)
             (Map.empty(tc_defaultMode c \<mapsto> mid), st0)")
  have inv1: "loopInvariant cid cm st1"
    using fold_createMode_inv [OF inv0 f] .
  show ?thesis
    using inv1 fold_processToken_inv [OF inv1, of opts prefix c]
    by (auto simp: processCollection_def g1 g2 f st0_def [symmetric] loopInvariant_def
             split: option.splits)
qed

lemma fold_processCollection_consistent:
  assumes "referentiallyConsistent (ts_requestBody st)"
  shows "referentiallyConsistent (ts_requestBody (fold (processCollection opts prefix) cs st))"
  using assms
  by (induction cs arbitrary: st) (simp_all add: processCollection_consistent)

text \<open>
  C10. For every theme and options, the request body that \<open>transformToFigmaVariables\<close>
  returns is referentially consistent: the \<open>variableCollectionId\<close> of every variable-create
  and mode-create is the id of a collection-create of the batch, the \<open>variableId\<close> of every
  mode value is the id of a variable-create of the batch, and its \<open>modeId\<close> is the id of a
  mode-create or the \<open>initialModeId\<close> of a collection-create of the batch.
\<close>

theorem transform_consistent:
  "referentiallyConsistent (requestBody (fst (transformToFigmaVariables theme options n)))"
  by (simp add: transformToFigmaVariables_def runCollections_def Let_def)
     (rule fold_processCollection_consistent,
      simp add: initialState_def referentiallyConsistent_def)

theorem transform_consistent_witness:
  "variableModeValues
     (requestBody (fst (transformToFigmaVariables smallTheme (exampleOptions None None) 0))) \<noteq> [] \<and>
   variableModes
     (requestBody (fst (transformToFigmaVariables smallTheme (exampleOptions None None) 0))) \<noteq> [] \<and>
   referentiallyConsistent
     (requestBody (fst (transformToFigmaVariables smallTheme (exampleOptions None None) 0)))"
  using transform_consistent [of smallTheme "exampleOptions None None" 0]
  by (simp add: smallTheme_body)

subsection \<open>Traces of the loops\<close>

lemmas trace_defs = skipsOf_def unitWarningsIn_def variableNamesOf_def modeNamesOf_def
  pushCollection_def pushMode_def pushVariable_def pushModeValue_def onReport_def
  addCollection_def addMode_def addVariable_def addValue_def addSkipped_def addWarning_def

lemma tokenValueToFigma_skips:
  "filter isCompositeSkip (skipped (snd (tokenValueToFigma t rep p))) =
     filter isCompositeSkip (skipped rep)"
  by (cases "tk_value t"; cases "tk_type t")
     (simp_all add: tokenValueToFigma_def dimensionToNumber_def addSkipped_def addWarning_def
        isCompositeSkip_def compositeSuggestion_def)

lemma tokenValueToFigma_unit:
  "filter isUnitDiscarded (warnings (snd (tokenValueToFigma t rep p))) =
     filter isUnitDiscarded (warnings rep) @ unitWarningsOf t p"
  by (cases "tk_value t"; cases "tk_type t")
     (simp_all add: tokenValueToFigma_def dimensionToNumber_def addSkipped_def addWarning_def
        isUnitDiscarded_def unitWarningsOf_def unitWarning_def)

lemma setModeValue_trace:
  "skipsOf (setModeValue c cm path vid m st) = skipsOf st \<and>
   variables (ts_requestBody (setModeValue c cm path vid m st)) = variables (ts_requestBody st) \<and>
   variableModes (ts_requestBody (setModeValue c cm path vid m st)) =
     variableModes (ts_requestBody st) \<and>
   variableCollections (ts_requestBody (setModeValue c cm path vid m st)) =
     variableCollections (ts_requestBody st) \<and>
   ((\<exists>i. cm m = Some i \<and> i \<noteq> []) \<longrightarrow>
      unitWarningsIn (setModeValue c cm path vid m st) =
        unitWarningsIn st @ modeUnitWarnings c path m)"
proof (cases "map_of (tc_tokens c) m")
  case None
  then show ?thesis by (simp add: setModeValue_def modeUnitWarnings_def)
next
  case (Some modeTokens)
  show ?thesis
  proof (cases "findModeToken modeTokens path")
    case None
    with Some show ?thesis by (simp add: setModeValue_def modeUnitWarnings_def)
  next
    case tok: (Some t)
    show ?thesis
    proof (cases "cm m")
      case None
      with Some tok show ?thesis by (simp add: setModeValue_def)
    next
      case mid: (Some i)
      let ?p = "tc_name c @ ''.'' @ m @ ''.'' @ join ''.'' path"
      obtain x rep' where r: "tokenValueToFigma t (ts_report st) ?p = (x, rep')"
        by (cases "tokenValueToFigma t (ts_report st) ?p")
      have a: "filter isCompositeSkip (skipped rep') = filter isCompositeSkip (skipped (ts_report st))"
        using tokenValueToFigma_skips [of t "ts_report st" ?p] r by simp
      have b: "filter isUnitDiscarded (warnings rep') =
                 filter isUnitDiscarded (warnings (ts_report st)) @ unitWarningsOf t ?p"
        using tokenValueToFigma_unit [of t "ts_report st" ?p] r by simp
      show ?thesis
        using Some tok mid r a b
        by (cases x) (auto simp: setModeValue_def modeUnitWarnings_def trace_defs)
    qed
  qed
qed

lemma fold_setModeValue_trace:
  "skipsOf (fold (setModeValue c cm path vid) ms st) = skipsOf st \<and>
   variables (ts_requestBody (fold (setModeValue c cm path vid) ms st)) =
     variables (ts_requestBody st) \<and>
   variableModes (ts_requestBody (fold (setModeValue c cm path vid) ms st)) =
     variableModes (ts_requestBody st) \<and>
   variableCollections (ts_requestBody (fold (setModeValue c cm path vid) ms st)) =
     variableCollections (ts_requestBody st) \<and>
   (modeIdsTotal cm ms \<longrightarrow>
      unitWarningsIn (fold (setModeValue c cm path vid) ms st) =
        unitWarningsIn st @ concat (map (modeUnitWarnings c path) ms))"
proof (induction ms arbitrary: st)
  case Nil
  then show ?case by simp
next
  case (Cons m ms)
  show ?case
    using Cons.IH [of "setModeValue c cm path vid m st"] setModeValue_trace [of c cm path vid m st]
    by (auto simp: modeIdsTotal_def)
qed

lemma processToken_trace:
  "skipsOf (processToken opts prefix c cid cm entry st) =
     skipsOf st @ (if isSkipType entry then [compositeSkip entry] else []) \<and>
   variableNamesOf (processToken opts prefix c cid cm entry st) =
     variableNamesOf st @ (if createsVariable opts entry then [join ''/'' (fst entry)] else []) \<and>
   variableModes (ts_requestBody (processToken opts prefix c cid cm entry st)) =
     variableModes (ts_requestBody st) \<and>
   variableCollections (ts_requestBody (processToken opts prefix c cid cm entry st)) =
     variableCollections (ts_requestBody st) \<and>
   (modeIdsTotal cm (tc_modes c) \<longrightarrow>
      unitWarningsIn (processToken opts prefix c cid cm entry st) =
        unitWarningsIn st @ tokenUnitWarnings opts c entry)"
proof (cases entry)
  case (Pair path token)
  show ?thesis
  proof (cases "createsVariable opts entry")
    case False
    then show ?thesis
      unfolding Pair
      by (auto simp: processToken_def createsVariable_def isSkipType_def compositeSkip_def
            tokenUnitWarnings_def isCompositeSkip_def compositeSuggestion_def trace_defs
            split: option.splits)
  next
    case True
    then obtain figmaType where ft: "TOKEN_TYPE_TO_FIGMA (tk_type token) = Some figmaType"
      by (auto simp: createsVariable_def Pair)
    obtain vid n where g: "generateTempId (prefix @ ''_var'') (ts_idCounter st) = (vid, n)"
      by (cases "generateTempId (prefix @ ''_var'') (ts_idCounter st)")
    define st1 where "st1 = onReport addVariable
                                 (pushVariable
                                    \<lparr> vc_action = CREATE, vc_id = vid,
                                      vc_name = join ''/'' path,
                                      vc_variableCollectionId = cid,
                                      vc_resolvedType = figmaType,
                                      vc_description = tk_description token \<rparr>
                                    (st \<lparr> ts_idCounter := n \<rparr>))"
    have eq: "processToken opts prefix c cid cm (path, token) st =
                fold (setModeValue c cm path vid) (tc_modes c) st1"
      using True ft g
      by (auto simp: processToken_def createsVariable_def Pair st1_def)
    have s1: "skipsOf st1 = skipsOf st" "unitWarningsIn st1 = unitWarningsIn st"
      "variables (ts_requestBody st1) = variables (ts_requestBody st) @
          [\<lparr> vc_action = CREATE, vc_id = vid, vc_name = join ''/'' path,
             vc_variableCollectionId = cid, vc_resolvedType = figmaType,
             vc_description = tk_description token \<rparr>]"
      "variableModes (ts_requestBody st1) = variableModes (ts_requestBody st)"
      "variableCollections (ts_requestBody st1) = variableCollections (ts_requestBody st)"
      by (simp_all add: st1_def trace_defs)
    show ?thesis
      using True fold_setModeValue_trace [of c cm path vid "tc_modes c" st1] s1
      by (auto simp: eq variableNamesOf_def tokenUnitWarnings_def isSkipType_def
            createsVariable_def Pair)
  qed
qed

lemma fold_processToken_trace:
  "skipsOf (fold (processToken opts prefix c cid cm) entries st) =
     skipsOf st @ map compositeSkip (filter isSkipType entries) \<and>
   variableNamesOf (fold (processToken opts prefix c cid cm) entries st) =
     variableNamesOf st @ map (\<lambda>e. join ''/'' (fst e)) (filter (createsVariable opts) entries) \<and>
   variableModes (ts_requestBody (fold (processToken opts prefix c cid cm) entries st)) =
     variableModes (ts_requestBody st) \<and>
   variableCollections (ts_requestBody (fold (processToken opts prefix c cid cm) entries st)) =
     variableCollections (ts_requestBody st) \<and>
   (modeIdsTotal cm (tc_modes c) \<longrightarrow>
      unitWarningsIn (fold (processToken opts prefix c cid cm) entries st) =
        unitWarningsIn st @ concat (map (tokenUnitWarnings opts c) entries))"
proof (induction entries arbitrary: st)
  case Nil
  then show ?case by simp
next
  case (Cons e es)
  show ?case
    using Cons.IH [of "processToken opts prefix c cid cm e st"]
          processToken_trace [of opts prefix c cid cm e st]
    by auto
qed

lemma createMode_frame:
  "skipsOf (snd (createMode prefix cid d m acc)) = skipsOf (snd acc) \<and>
   unitWarningsIn (snd (createMode prefix cid d m acc)) = unitWarningsIn (snd acc) \<and>
   variables (ts_requestBody (snd (createMode prefix cid d m acc))) =
     variables (ts_requestBody (snd acc)) \<and>
   variableCollections (ts_requestBody (snd (createMode prefix cid d m acc))) =
     variableCollections (ts_requestBody (snd acc))"
  by (cases acc) (simp add: createMode_def generateTempId_def trace_defs)

lemma fold_createMode_frame:
  "skipsOf (snd (fold (createMode prefix cid d) ms acc)) = skipsOf (snd acc) \<and>
   unitWarningsIn (snd (fold (createMode prefix cid d) ms acc)) = unitWarningsIn (snd acc) \<and>
   variables (ts_requestBody (snd (fold (createMode prefix cid d) ms acc))) =
     variables (ts_requestBody (snd acc)) \<and>
   variableCollections (ts_requestBody (snd (fold (createMode prefix cid d) ms acc))) =
     variableCollections (ts_requestBody (snd acc))"
  by (induction ms arbitrary: acc) (simp_all add: createMode_frame)

lemma createMode_modes:
  "\<exists>new. variableModes (ts_requestBody (snd (createMode prefix cid d m acc))) =
            variableModes (ts_requestBody (snd acc)) @ new \<and>
          map vmc_name new = filter (\<lambda>x. x \<noteq> d) [m] \<and> modesOfCollection cid new"
  by (cases acc)
     (simp add: createMode_def generateTempId_def trace_defs modesOfCollection_def)

lemma fold_createMode_modes:
  "\<exists>new. variableModes (ts_requestBody (snd (fold (createMode prefix cid d) ms acc))) =
            variableModes (ts_requestBody (snd acc)) @ new \<and>
          map vmc_name new = filter (\<lambda>x. x \<noteq> d) ms \<and> modesOfCollection cid new"
proof (induction ms arbitrary: acc)
  case Nil
  show ?case by (simp add: modesOfCollection_def)
next
  case (Cons m ms)
  obtain new1 where n1:
    "variableModes (ts_requestBody (snd (createMode prefix cid d m acc))) =
       variableModes (ts_requestBody (snd acc)) @ new1"
    "map vmc_name new1 = filter (\<lambda>x. x \<noteq> d) [m]" "modesOfCollection cid new1"
    using createMode_modes [of prefix cid d m acc] by blast
  obtain new2 where n2:
    "variableModes (ts_requestBody (snd (fold (createMode prefix cid d) ms
        (createMode prefix cid d m acc)))) =
       variableModes (ts_requestBody (snd (createMode prefix cid d m acc))) @ new2"
    "map vmc_name new2 = filter (\<lambda>x. x \<noteq> d) ms" "modesOfCollection cid new2"
    using Cons.IH [of "createMode prefix cid d m acc"] by blast
  have "variableModes (ts_requestBody (snd (fold (createMode prefix cid d) (m # ms) acc))) =
          variableModes (ts_requestBody (snd acc)) @ (new1 @ new2)"
    using n1(1) n2(1) by simp
  moreover have "map vmc_name (new1 @ new2) = filter (\<lambda>x. x \<noteq> d) (m # ms)"
    using n1(2) n2(2) by simp
  moreover have "modesOfCollection cid (new1 @ new2)"
    using n1(3) n2(3) by (auto simp: modesOfCollection_def)
  ultimately show ?case by blast
qed

lemma createMode_ids:
  "(nonEmptyIds (fst acc) \<longrightarrow> nonEmptyIds (fst (createMode prefix cid d m acc))) \<and>
   (fst acc k \<noteq> None \<longrightarrow> fst (createMode prefix cid d m acc) k \<noteq> None) \<and>
   (m \<noteq> d \<longrightarrow> fst (createMode prefix cid d m acc) m \<noteq> None)"
  by (cases acc) (simp add: createMode_def generateTempId_def nonEmptyIds_def)

lemma fold_createMode_ids:
  "(nonEmptyIds (fst acc) \<longrightarrow> nonEmptyIds (fst (fold (createMode prefix cid d) ms acc))) \<and>
   (fst acc k \<noteq> None \<longrightarrow> fst (fold (createMode prefix cid d) ms acc) k \<noteq> None) \<and>
   (k \<in> set ms \<and> k \<noteq> d \<longrightarrow> fst (fold (createMode prefix cid d) ms acc) k \<noteq> None)"
proof (induction ms arbitrary: acc)
  case Nil
  show ?case by simp
next
  case (Cons m ms)
  note a = createMode_ids [where acc = acc and prefix = prefix and cid = cid and d = d
                             and m = m and k = k]
  note a' = createMode_ids [where acc = acc and prefix = prefix and cid = cid and d = d
                              and m = m and k = m]
  note b = Cons.IH [of "createMode prefix cid d m acc"]
  show ?case
  proof (intro conjI impI)
    assume "nonEmptyIds (fst acc)"
    then show "nonEmptyIds (fst (fold (createMode prefix cid d) (m # ms) acc))"
      using a b by simp
  next
    assume "fst acc k \<noteq> None"
    then show "fst (fold (createMode prefix cid d) (m # ms) acc) k \<noteq> None"
      using a b by simp
  next
    assume h: "k \<in> set (m # ms) \<and> k \<noteq> d"
    show "fst (fold (createMode prefix cid d) (m # ms) acc) k \<noteq> None"
    proof (cases "k = m")
      case True
      then have "fst (createMode prefix cid d m acc) k \<noteq> None" using a' h by simp
      then show ?thesis using b by simp
    next
      case False
      then have "k \<in> set ms" using h by simp
      then show ?thesis using b h by simp
    qed
  qed
qed

lemma processCollection_trace:
  "skipsOf (processCollection opts prefix c st) =
     skipsOf st @ map compositeSkip (filter isSkipType (defaultEntries c)) \<and>
   variableNamesOf (processCollection opts prefix c st) =
     variableNamesOf st @
       map (\<lambda>e. join ''/'' (fst e)) (filter (createsVariable opts) (defaultEntries c)) \<and>
   unitWarningsIn (processCollection opts prefix c st) =
     unitWarningsIn st @ concat (map (tokenUnitWarnings opts c) (defaultEntries c)) \<and>
   (\<exists>new created.
      variableModes (ts_requestBody (processCollection opts prefix c st)) =
        variableModes (ts_requestBody st) @ new \<and>
      map vmc_name new = nonDefaultModes c \<and>
      variableCollections (ts_requestBody (processCollection opts prefix c st)) =
        variableCollections (ts_requestBody st) @ [created] \<and>
      modesOfCollection (vcc_id created) new)"
proof -
  obtain cid n1 where g1: "generateTempId (prefix @ ''_col'') (ts_idCounter st) = (cid, n1)"
    by (cases "generateTempId (prefix @ ''_col'') (ts_idCounter st)")
  obtain mid n2 where g2: "generateTempId (prefix @ ''_mode'') n1 = (mid, n2)"
    by (cases "generateTempId (prefix @ ''_mode'') n1")
  have mid: "mid \<noteq> []" using g2 by (auto simp: generateTempId_def)
  define created where "created =
     \<lparr> vcc_action = CREATE, vcc_id = cid, vcc_name = mappedName opts (tc_name c),
       vcc_initialModeId = mid \<rparr>"
  define st0 where "st0 = onReport addCollection (pushCollection created (st \<lparr> ts_idCounter := n2 \<rparr>))"
  define acc0 where "acc0 = (Map.empty(tc_defaultMode c \<mapsto> mid), st0)"
  define acc1 where "acc1 = fold (createMode prefix cid (tc_defaultMode c)) (tc_modes c) acc0"
  define cm where "cm = fst acc1"
  define st1 where "st1 = snd acc1"
  have acc1: "acc1 = (cm, st1)" by (simp add: cm_def st1_def)
  have s0: "skipsOf st0 = skipsOf st" "unitWarningsIn st0 = unitWarningsIn st"
      "variables (ts_requestBody st0) = variables (ts_requestBody st)"
      "variableModes (ts_requestBody st0) = variableModes (ts_requestBody st)"
      "variableCollections (ts_requestBody st0) = variableCollections (ts_requestBody st) @ [created]"
    by (simp_all add: st0_def trace_defs)
  have fr: "skipsOf st1 = skipsOf st0" "unitWarningsIn st1 = unitWarningsIn st0"
      "variables (ts_requestBody st1) = variables (ts_requestBody st0)"
      "variableCollections (ts_requestBody st1) = variableCollections (ts_requestBody st0)"
    using fold_createMode_frame [of prefix cid "tc_defaultMode c" "tc_modes c" acc0]
    by (simp_all add: st1_def acc1_def acc0_def)
  obtain new where new:
     "variableModes (ts_requestBody st1) = variableModes (ts_requestBody st0) @ new"
     "map vmc_name new = filter (\<lambda>x. x \<noteq> tc_defaultMode c) (tc_modes c)"
     "modesOfCollection cid new"
    using fold_createMode_modes [of prefix cid "tc_defaultMode c" "tc_modes c" acc0]
    unfolding st1_def acc1_def acc0_def by auto
  have ne0: "nonEmptyIds (fst acc0)" using mid by (simp add: acc0_def nonEmptyIds_def)
  have ne: "nonEmptyIds cm"
    using fold_createMode_ids [where acc = acc0 and prefix = prefix and cid = cid
            and d = "tc_defaultMode c" and ms = "tc_modes c"] ne0
    by (simp add: cm_def acc1_def)
  have total: "modeIdsTotal cm (tc_modes c)"
    unfolding modeIdsTotal_def
  proof
    fix m assume m: "m \<in> set (tc_modes c)"
    have "cm m \<noteq> None"
    proof (cases "m = tc_defaultMode c")
      case True
      have "fst acc0 m \<noteq> None" using True by (simp add: acc0_def)
      then show ?thesis
        using fold_createMode_ids [where acc = acc0 and k = m and prefix = prefix and cid = cid
                and d = "tc_defaultMode c" and ms = "tc_modes c"]
        by (simp add: cm_def acc1_def)
    next
      case False
      then show ?thesis
        using fold_createMode_ids [where acc = acc0 and k = m and prefix = prefix and cid = cid
                and d = "tc_defaultMode c" and ms = "tc_modes c"] m
        by (simp add: cm_def acc1_def)
    qed
    then show "\<exists>i. cm m = Some i \<and> i \<noteq> []" using ne by (auto simp: nonEmptyIds_def)
  qed
  have eq: "processCollection opts prefix c st =
      (case map_of (tc_tokens c) (tc_defaultMode c) of
           None \<Rightarrow> st1
         | Some defaultTokens \<Rightarrow>
             fold (processToken opts prefix c cid cm) (flattenTokens defaultTokens []) st1)"
    using acc1
    by (simp add: processCollection_def g1 g2 created_def [symmetric] st0_def [symmetric]
          acc0_def [symmetric] acc1_def [symmetric])
  have s1: "skipsOf st1 = skipsOf st" "unitWarningsIn st1 = unitWarningsIn st"
      "variableNamesOf st1 = variableNamesOf st"
      "variableModes (ts_requestBody st1) = variableModes (ts_requestBody st) @ new"
      "variableCollections (ts_requestBody st1) = variableCollections (ts_requestBody st) @ [created]"
    using fr s0 new by (simp_all add: variableNamesOf_def)
  have cid: "vcc_id created = cid" by (simp add: created_def)
  have modes: "map vmc_name new = nonDefaultModes c" "modesOfCollection (vcc_id created) new"
    using new cid by (simp_all add: nonDefaultModes_def)
  show ?thesis
  proof (cases "map_of (tc_tokens c) (tc_defaultMode c)")
    case None
    have e: "processCollection opts prefix c st = st1" using None eq by simp
    have d: "defaultEntries c = []" using None by (simp add: defaultEntries_def)
    show ?thesis unfolding e d using s1 modes by simp
  next
    case (Some defaultTokens)
    have e: "processCollection opts prefix c st =
               fold (processToken opts prefix c cid cm) (defaultEntries c) st1"
      using Some eq by (simp add: defaultEntries_def)
    note u = fold_processToken_trace [of opts prefix c cid cm "defaultEntries c" st1]
    show ?thesis unfolding e using u total s1 modes by simp
  qed
qed

lemma fold_processCollection_trace:
  "skipsOf (fold (processCollection opts prefix) cs st) =
     skipsOf st @ map compositeSkip (filter isSkipType (concat (map defaultEntries cs))) \<and>
   variableNamesOf (fold (processCollection opts prefix) cs st) =
     variableNamesOf st @
       map (\<lambda>e. join ''/'' (fst e))
         (filter (createsVariable opts) (concat (map defaultEntries cs))) \<and>
   unitWarningsIn (fold (processCollection opts prefix) cs st) =
     unitWarningsIn st @
       concat (map (\<lambda>c. concat (map (tokenUnitWarnings opts c) (defaultEntries c))) cs) \<and>
   modeNamesOf (fold (processCollection opts prefix) cs st) =
     modeNamesOf st @ concat (map nonDefaultModes cs)"
proof (induction cs arbitrary: st)
  case Nil
  then show ?case by simp
next
  case (Cons c cs)
  show ?case
    using Cons.IH [of "processCollection opts prefix c st"]
          processCollection_trace [of opts prefix c st]
    by (auto simp: modeNamesOf_def)
qed

lemma runCollections_initial:
  "skipsOf (initialState theme options n) = [] \<and>
   unitWarningsIn (initialState theme options n) = [] \<and>
   variableNamesOf (initialState theme options n) = [] \<and>
   modeNamesOf (initialState theme options n) = [] \<and>
   variableModes (ts_requestBody (initialState theme options n)) = [] \<and>
   variableCollections (ts_requestBody (initialState theme options n)) = []"
  by (simp add: initialState_def trace_defs setSourceCheck_def newReport_def)

lemma processToken_skip:
  assumes "isSkipType entry"
  shows "processToken options prefix c cid cm entry st =
           st \<lparr> ts_report := addSkipped (join ''.'' (fst entry))
                   (''Token type '' @ [quoteChar] @ typeName (tk_type (snd entry)) @ [quoteChar] @
                    '' is not supported as a Figma variable'')
                   (tk_type (snd entry)) (Some compositeSuggestion) (ts_report st) \<rparr>"
  using assms
  by (cases entry) (simp add: processToken_def isSkipType_def onReport_def compositeSuggestion_def)

lemma setModeValue_dimension:
  assumes "map_of (tc_tokens c) modeName = Some modeTokens"
    and "findModeToken modeTokens path = Some token"
    and "tk_type token = TDimension" and "tk_value token = VDimension d"
    and "dv_unit d \<noteq> ''px''" and "cm modeName = Some modeId" and "modeId \<noteq> []"
  shows "variableModeValues (ts_requestBody (setModeValue c cm path vid modeName st)) =
           variableModeValues (ts_requestBody st) @
             [\<lparr> mv_variableId = vid, mv_modeId = modeId, mv_value = FNumber (Lit (dv_value d)) \<rparr>] \<and>
         warnings (ts_report (setModeValue c cm path vid modeName st)) =
           warnings (ts_report st) @
             [unitWarning d (tc_name c @ ''.'' @ modeName @ ''.'' @ join ''.'' path)]"
  using assms
  by (simp add: setModeValue_def tokenValueToFigma_def dimensionToNumber_def unitWarning_def
        trace_defs)


lemma createMode_default:
  "fst (createMode prefix cid d m acc) d = fst acc d"
  by (cases acc) (simp add: createMode_def generateTempId_def)

lemma fold_createMode_default:
  "fst (fold (createMode prefix cid d) ms acc) d = fst acc d"
  by (induction ms arbitrary: acc) (simp_all add: createMode_default)

lemma fold_processCollection_append:
  "\<exists>cols new.
     variableCollections (ts_requestBody (fold (processCollection opts prefix) cs st)) =
       variableCollections (ts_requestBody st) @ cols \<and>
     length cols = length cs \<and>
     variableModes (ts_requestBody (fold (processCollection opts prefix) cs st)) =
       variableModes (ts_requestBody st) @ new \<and>
     map vmc_name new = concat (map nonDefaultModes cs)"
proof (induction cs arbitrary: st)
  case Nil
  show ?case by simp
next
  case (Cons c cs)
  obtain new1 created where p:
    "variableModes (ts_requestBody (processCollection opts prefix c st)) =
        variableModes (ts_requestBody st) @ new1"
    "map vmc_name new1 = nonDefaultModes c"
    "variableCollections (ts_requestBody (processCollection opts prefix c st)) =
        variableCollections (ts_requestBody st) @ [created]"
    using processCollection_trace [of opts prefix c st] by blast
  obtain cols new2 where q:
    "variableCollections (ts_requestBody (fold (processCollection opts prefix) cs
        (processCollection opts prefix c st))) =
       variableCollections (ts_requestBody (processCollection opts prefix c st)) @ cols"
    "length cols = length cs"
    "variableModes (ts_requestBody (fold (processCollection opts prefix) cs
        (processCollection opts prefix c st))) =
       variableModes (ts_requestBody (processCollection opts prefix c st)) @ new2"
    "map vmc_name new2 = concat (map nonDefaultModes cs)"
    using Cons.IH [of "processCollection opts prefix c st"] by blast
  have "variableCollections (ts_requestBody (fold (processCollection opts prefix) (c # cs) st)) =
          variableCollections (ts_requestBody st) @ (created # cols)"
    using p q by simp
  moreover have "length (created # cols) = length (c # cs)" using q by simp
  moreover have "variableModes (ts_requestBody (fold (processCollection opts prefix) (c # cs) st)) =
          variableModes (ts_requestBody st) @ (new1 @ new2)"
    using p q by simp
  moreover have "map vmc_name (new1 @ new2) = concat (map nonDefaultModes (c # cs))"
    using p q by simp
  ultimately show ?case by blast
qed



subsection \<open>The tokens that the traversal lists\<close>

text \<open>
  \<open>flattenTokens\<close> lists the tokens of the tree, each with its path, and lists no path
  twice when no key occurs twice at a level; \<open>findModeToken\<close> finds the token at a path
  that has no metadata key, and only that.
\<close>

lemma tokenAt_Nil [simp]: "\<not> tokenAt [] path token"
  by (auto elim: tokenAt.cases)

lemma tokenAt_Cons_Leaf:
  "tokenAt ((key, Leaf t) # rest) path token \<longleftrightarrow>
     (\<not> startsWithDollar key \<and> path = [key] \<and> token = t) \<or> tokenAt rest path token"
proof
  assume "tokenAt ((key, Leaf t) # rest) path token"
  then show "(\<not> startsWithDollar key \<and> path = [key] \<and> token = t) \<or> tokenAt rest path token"
    by (cases rule: tokenAt.cases) (auto intro: tokenAt.intros)
next
  assume "(\<not> startsWithDollar key \<and> path = [key] \<and> token = t) \<or> tokenAt rest path token"
  then show "tokenAt ((key, Leaf t) # rest) path token"
  proof
    assume "\<not> startsWithDollar key \<and> path = [key] \<and> token = t"
    then show ?thesis by (auto intro: tokenAt.here)
  next
    assume "tokenAt rest path token"
    then show ?thesis by (cases rule: tokenAt.cases) (auto intro: tokenAt.intros)
  qed
qed

lemma tokenAt_Cons_Group:
  "tokenAt ((key, Group sub) # rest) path token \<longleftrightarrow>
     (\<not> startsWithDollar key \<and> (\<exists>q. path = key # q \<and> tokenAt sub q token)) \<or>
     tokenAt rest path token"
proof
  assume "tokenAt ((key, Group sub) # rest) path token"
  then show "(\<not> startsWithDollar key \<and> (\<exists>q. path = key # q \<and> tokenAt sub q token)) \<or>
     tokenAt rest path token"
    by (cases rule: tokenAt.cases) (auto intro: tokenAt.intros)
next
  assume "(\<not> startsWithDollar key \<and> (\<exists>q. path = key # q \<and> tokenAt sub q token)) \<or>
     tokenAt rest path token"
  then show "tokenAt ((key, Group sub) # rest) path token"
  proof
    assume "\<not> startsWithDollar key \<and> (\<exists>q. path = key # q \<and> tokenAt sub q token)"
    then show ?thesis by (auto intro: tokenAt.below)
  next
    assume "tokenAt rest path token"
    then show ?thesis by (cases rule: tokenAt.cases) (auto intro: tokenAt.intros)
  qed
qed

lemma flattenTokens_set:
  "(p, t) \<in> set (flattenTokens grp base) \<longleftrightarrow> (\<exists>q. p = base @ q \<and> tokenAt grp q t)"
proof (induction grp base arbitrary: p t rule: flattenTokens.induct)
  case (1 basePath)
  show ?case by simp
next
  case (2 key token rest basePath)
  show ?case using "2.IH" by (auto simp: tokenAt_Cons_Leaf)
next
  case (3 key grp rest basePath)
  show ?case using "3.IH" by (auto simp: tokenAt_Cons_Group)
qed

lemma tokenAt_head:
  assumes "tokenAt grp path token"
  shows "\<exists>key q. path = key # q \<and> key \<in> set (map fst grp) \<and> \<not> startsWithDollar key"
  using assms by (cases rule: tokenAt.cases) force+

lemma flattenTokens_distinct:
  "distinctKeys grp \<Longrightarrow> distinct (map fst (flattenTokens grp base))"
proof (induction grp base rule: flattenTokens.induct)
  case (1 basePath)
  show ?case by simp
next
  case (2 key token rest basePath)
  have "basePath @ [key] \<notin> fst ` set (flattenTokens rest basePath)"
  proof
    assume "basePath @ [key] \<in> fst ` set (flattenTokens rest basePath)"
    then obtain t where "(basePath @ [key], t) \<in> set (flattenTokens rest basePath)" by auto
    then have "tokenAt rest [key] t" by (auto simp: flattenTokens_set)
    then have "key \<in> set (map fst rest)" using tokenAt_head by fastforce
    then show False using "2.prems" by simp
  qed
  then show ?case using "2.IH" "2.prems" by simp
next
  case (3 key grp rest basePath)
  have disj: "fst ` set (flattenTokens grp (basePath @ [key])) \<inter>
              fst ` set (flattenTokens rest basePath) = {}"
  proof (rule ccontr)
    assume "\<not> ?thesis"
    then obtain p t1 t2 where a: "(p, t1) \<in> set (flattenTokens grp (basePath @ [key]))"
      and b: "(p, t2) \<in> set (flattenTokens rest basePath)" by auto
    from a obtain q1 where q1: "p = (basePath @ [key]) @ q1" by (auto simp: flattenTokens_set)
    from b obtain q2 where q2: "p = basePath @ q2" "tokenAt rest q2 t2"
      by (auto simp: flattenTokens_set)
    from q1 q2 have "q2 = key # q1" by simp
    then have "key \<in> set (map fst rest)" using tokenAt_head [OF q2(2)] by auto
    then show False using "3.prems" by simp
  qed
  show ?case using "3.IH" "3.prems" disj by auto
qed

lemma navigate_tokenAt:
  assumes "distinctKeys grp" "tokenAt grp path token"
  shows "navigate (Group grp) path = Some (Leaf token)"
  using assms(2) assms(1)
proof (induction rule: tokenAt.induct)
  case (here key token grp)
  have "map_of grp key = Some (Leaf token)"
    using here
  proof (induction grp)
    case Nil
    then show ?case by simp
  next
    case (Cons a grp)
    then show ?case by (cases a; cases "snd a") (auto simp: rev_image_eqI)
  qed
  then show ?case by simp
next
  case (below key sub grp path token)
  have "map_of grp key = Some (Group sub) \<and> distinctKeys sub"
    using below(1) below(5)
  proof (induction grp)
    case Nil
    then show ?case by simp
  next
    case (Cons a grp)
    then show ?case by (cases a; cases "snd a") (auto simp: rev_image_eqI)
  qed
  then show ?case using below by simp
qed

lemma findModeToken_tokenAt:
  assumes "distinctKeys grp" "tokenAt grp path token"
  shows "findModeToken grp path = Some token"
  using navigate_tokenAt [OF assms] by (simp add: findModeToken_def)

lemma tokenAt_clean: "tokenAt grp path token \<Longrightarrow> cleanPath path"
  by (induction rule: tokenAt.induct) (auto simp: cleanPath_def)

lemma navigate_found:
  assumes "navigate (Group grp) path = Some (Leaf token)" "\<forall>s \<in> set path. \<not> startsWithDollar s"
  shows "tokenAt grp path token"
  using assms
proof (induction path arbitrary: grp)
  case Nil
  then show ?case by simp
next
  case (Cons s path)
  from Cons.prems(1) obtain nxt where n: "map_of grp s = Some nxt" "navigate nxt path = Some (Leaf token)"
    by (auto split: option.splits)
  have mem: "(s, nxt) \<in> set grp" using n(1) by (rule map_of_SomeD)
  show ?case
  proof (cases nxt)
    case (Leaf t)
    then have "path = [] \<and> t = token" using n(2) by (cases path) auto
    then show ?thesis using mem Leaf Cons.prems(2) by (auto intro: tokenAt.here)
  next
    case (Group sub)
    then have "tokenAt sub path token" using Cons.IH [of sub] n(2) Cons.prems(2) by simp
    then show ?thesis using mem Group Cons.prems(2) by (auto intro: tokenAt.below)
  qed
qed

lemma findModeToken_found:
  assumes "findModeToken grp path = Some token" "\<forall>s \<in> set path. \<not> startsWithDollar s"
  shows "tokenAt grp path token"
proof -
  have "navigate (Group grp) path = Some (Leaf token)"
    using assms(1) by (auto simp: findModeToken_def split: option.splits Node.splits)
  then show ?thesis using assms(2) by (rule navigate_found)
qed

lemma isSkipType_kinds: "isSkipType entry \<longleftrightarrow> tk_type (snd entry) \<in> compositeKinds"
  by (auto simp: isSkipType_def compositeKinds_def SKIP_TYPES_def)

lemma createsVariable_kinds: "createsVariable options entry \<longleftrightarrow> becomesVariable options (snd entry)"
  by (cases "tk_type (snd entry)")
     (simp_all add: createsVariable_def becomesVariable_def variableKinds_def SKIP_TYPES_def
        TOKEN_TYPE_TO_FIGMA_def)

lemma kinds_disjoint: "tk_type t \<in> compositeKinds \<Longrightarrow> \<not> becomesVariable options t"
  by (auto simp: compositeKinds_def becomesVariable_def variableKinds_def)

lemma wellFormed_tree:
  assumes "wellFormedTheme theme" and "c \<in> set (th_collections theme)"
    and "map_of (tc_tokens c) m = Some tree"
  shows "distinctKeys tree" and "wellShapedGroup tree"
proof -
  have "(m, tree) \<in> set (tc_tokens c)" using assms(3) by (rule map_of_SomeD)
  then have "distinctKeys tree \<and> wellShapedGroup tree"
    using assms(1,2) by (force simp: wellFormedTheme_def list_all_iff)
  then show "distinctKeys tree" and "wellShapedGroup tree" by simp_all
qed

lemma defaultEntries_set:
  "(p, t) \<in> set (defaultEntries c) \<longleftrightarrow> tokenOfMode c (tc_defaultMode c) p t"
  by (simp add: defaultEntries_def tokenOfMode_def flattenTokens_set split: option.splits)

lemma defaultEntries_distinct:
  assumes "wellFormedTheme theme" and "c \<in> set (th_collections theme)"
  shows "distinct (map fst (defaultEntries c))"
  using wellFormed_tree(1) [OF assms] 
  by (auto simp: defaultEntries_def flattenTokens_distinct split: option.splits)

lemma count_list_distinct: "distinct xs \<Longrightarrow> x \<in> set xs \<Longrightarrow> count_list xs x = 1"
  by (induction xs) (auto simp: count_list_0_iff)

subsection \<open>The request body only grows\<close>

text \<open>
  What a round of each loop appends to the request body stays there. The table of mode ids
  of a collection binds a mode to the initial mode id or to the id of a mode-create of the
  collection.
\<close>

lemma extends_refl: "extends st st"
  by (simp add: extends_def)

lemma extends_trans: "extends a b \<Longrightarrow> extends b c \<Longrightarrow> extends a c"
  unfolding extends_def by (elim conjE exE) simp

lemma extends_set:
  assumes "extends st st'"
  shows "set (variableModes (ts_requestBody st)) \<subseteq> set (variableModes (ts_requestBody st'))"
    and "set (variables (ts_requestBody st)) \<subseteq> set (variables (ts_requestBody st'))"
    and "set (variableModeValues (ts_requestBody st)) \<subseteq> set (variableModeValues (ts_requestBody st'))"
    and "i < length (variableCollections (ts_requestBody st)) \<Longrightarrow>
           variableCollections (ts_requestBody st') ! i = variableCollections (ts_requestBody st) ! i"
  using assms unfolding extends_def by (auto simp: nth_append)

lemma setModeValue_extends: "extends st (setModeValue c cm path vid m st)"
  by (auto simp: extends_def setModeValue_def trace_defs split: option.splits prod.splits)

lemma fold_setModeValue_extends: "extends st (fold (setModeValue c cm path vid) ms st)"
proof (induction ms arbitrary: st)
  case Nil
  show ?case by (simp add: extends_refl)
next
  case (Cons m ms)
  show ?case
    using extends_trans [OF setModeValue_extends Cons.IH, of st c cm path vid m] by simp
qed

lemma processToken_extends: "extends st (processToken opts prefix c cid cm entry st)"
proof (cases entry)
  case (Pair path token)
  have a: "\<And>f. extends st (onReport f st)" by (simp add: extends_def onReport_def)
  have b: "\<And>v n. extends st (onReport addVariable (pushVariable v (st \<lparr> ts_idCounter := n \<rparr>)))"
    by (simp add: extends_def trace_defs)
  show ?thesis
    unfolding Pair processToken_def
    by (auto split: option.splits prod.splits simp: a extends_refl
             intro: extends_trans [OF b fold_setModeValue_extends])
qed

lemma fold_processToken_extends:
  "extends st (fold (processToken opts prefix c cid cm) entries st)"
proof (induction entries arbitrary: st)
  case Nil
  show ?case by (simp add: extends_refl)
next
  case (Cons e es)
  show ?case
    using extends_trans [OF processToken_extends Cons.IH, of st opts prefix c cid cm e] by simp
qed

lemma createMode_extends: "extends (snd acc) (snd (createMode prefix cid d m acc))"
  by (cases acc) (simp add: createMode_def generateTempId_def extends_def trace_defs)

lemma fold_createMode_extends: "extends (snd acc) (snd (fold (createMode prefix cid d) ms acc))"
proof (induction ms arbitrary: acc)
  case Nil
  show ?case by (simp add: extends_refl)
next
  case (Cons m ms)
  show ?case
    using extends_trans [OF createMode_extends Cons.IH, of acc prefix cid d m] by simp
qed

lemma processCollection_unfold:
  "\<exists>cid mid st0 cm st1.
      mid \<noteq> [] \<and>
      variableCollections (ts_requestBody st0) =
        variableCollections (ts_requestBody st) @
          [\<lparr> vcc_action = CREATE, vcc_id = cid, vcc_name = mappedName opts (tc_name c),
             vcc_initialModeId = mid \<rparr>] \<and>
      variableModes (ts_requestBody st0) = variableModes (ts_requestBody st) \<and>
      variables (ts_requestBody st0) = variables (ts_requestBody st) \<and>
      variableModeValues (ts_requestBody st0) = variableModeValues (ts_requestBody st) \<and>
      fold (createMode prefix cid (tc_defaultMode c)) (tc_modes c)
        (Map.empty(tc_defaultMode c \<mapsto> mid), st0) = (cm, st1) \<and>
      processCollection opts prefix c st =
        (case map_of (tc_tokens c) (tc_defaultMode c) of
           None \<Rightarrow> st1
         | Some defaultTokens \<Rightarrow>
             fold (processToken opts prefix c cid cm) (flattenTokens defaultTokens []) st1)"
proof -
  obtain cid n1 where g1: "generateTempId (prefix @ ''_col'') (ts_idCounter st) = (cid, n1)"
    by (cases "generateTempId (prefix @ ''_col'') (ts_idCounter st)")
  obtain mid n2 where g2: "generateTempId (prefix @ ''_mode'') n1 = (mid, n2)"
    by (cases "generateTempId (prefix @ ''_mode'') n1")
  have mid: "mid \<noteq> []" using g2 by (auto simp: generateTempId_def)
  define created where "created =
     \<lparr> vcc_action = CREATE, vcc_id = cid, vcc_name = mappedName opts (tc_name c),
       vcc_initialModeId = mid \<rparr>"
  define st0 where "st0 = onReport addCollection (pushCollection created (st \<lparr> ts_idCounter := n2 \<rparr>))"
  define acc0 where "acc0 = (Map.empty(tc_defaultMode c \<mapsto> mid), st0)"
  define acc1 where "acc1 = fold (createMode prefix cid (tc_defaultMode c)) (tc_modes c) acc0"
  define cm where "cm = fst acc1"
  define st1 where "st1 = snd acc1"
  have acc1: "acc1 = (cm, st1)" by (simp add: cm_def st1_def)
  have s0: "variableCollections (ts_requestBody st0) = variableCollections (ts_requestBody st) @ [created]"
      "variableModes (ts_requestBody st0) = variableModes (ts_requestBody st)"
      "variables (ts_requestBody st0) = variables (ts_requestBody st)"
      "variableModeValues (ts_requestBody st0) = variableModeValues (ts_requestBody st)"
    by (simp_all add: st0_def trace_defs)
  have eq: "processCollection opts prefix c st =
      (case map_of (tc_tokens c) (tc_defaultMode c) of
           None \<Rightarrow> st1
         | Some defaultTokens \<Rightarrow>
             fold (processToken opts prefix c cid cm) (flattenTokens defaultTokens []) st1)"
    using acc1
    by (simp add: processCollection_def g1 g2 created_def [symmetric] st0_def [symmetric]
          acc0_def [symmetric] acc1_def [symmetric])
  have f: "fold (createMode prefix cid (tc_defaultMode c)) (tc_modes c)
             (Map.empty(tc_defaultMode c \<mapsto> mid), st0) = (cm, st1)"
    using acc1 by (simp add: acc1_def acc0_def)
  show ?thesis
    using mid s0 f eq unfolding created_def by blast
qed

lemma processCollection_extends: "extends st (processCollection opts prefix c st)"
proof -
  obtain cid mid st0 cm st1 where
    s0: "variableCollections (ts_requestBody st0) =
        variableCollections (ts_requestBody st) @
          [\<lparr> vcc_action = CREATE, vcc_id = cid, vcc_name = mappedName opts (tc_name c),
             vcc_initialModeId = mid \<rparr>]"
      "variableModes (ts_requestBody st0) = variableModes (ts_requestBody st)"
      "variables (ts_requestBody st0) = variables (ts_requestBody st)"
      "variableModeValues (ts_requestBody st0) = variableModeValues (ts_requestBody st)"
    and f: "fold (createMode prefix cid (tc_defaultMode c)) (tc_modes c)
        (Map.empty(tc_defaultMode c \<mapsto> mid), st0) = (cm, st1)"
    and eq: "processCollection opts prefix c st =
        (case map_of (tc_tokens c) (tc_defaultMode c) of
           None \<Rightarrow> st1
         | Some defaultTokens \<Rightarrow>
             fold (processToken opts prefix c cid cm) (flattenTokens defaultTokens []) st1)"
    using processCollection_unfold [of st opts c prefix] by blast
  have e0: "extends st st0" using s0 by (simp add: extends_def)
  have e1: "extends st0 st1"
    using fold_createMode_extends [of "(Map.empty(tc_defaultMode c \<mapsto> mid), st0)" prefix cid
            "tc_defaultMode c" "tc_modes c"] f
    by simp
  have e: "extends st st1" by (rule extends_trans [OF e0 e1])
  show ?thesis
    unfolding eq
    by (auto split: option.splits intro: e extends_trans [OF e fold_processToken_extends])
qed

lemma fold_processCollection_extends:
  "extends st (fold (processCollection opts prefix) cs st)"
proof (induction cs arbitrary: st)
  case Nil
  show ?case by (simp add: extends_refl)
next
  case (Cons c cs)
  show ?case
    using extends_trans [OF processCollection_extends Cons.IH, of st opts prefix c] by simp
qed

lemma processToken_creates:
  assumes "createsVariable opts (path, token)"
  shows "\<exists>vid n figmaType.
           processToken opts prefix c cid cm (path, token) st =
             fold (setModeValue c cm path vid) (tc_modes c)
               (onReport addVariable
                  (pushVariable
                     \<lparr> vc_action = CREATE, vc_id = vid, vc_name = join ''/'' path,
                       vc_variableCollectionId = cid, vc_resolvedType = figmaType,
                       vc_description = tk_description token \<rparr>
                     (st \<lparr> ts_idCounter := n \<rparr>)))"
proof -
  obtain figmaType where ft: "TOKEN_TYPE_TO_FIGMA (tk_type token) = Some figmaType"
    using assms by (auto simp: createsVariable_def)
  obtain vid n where g: "generateTempId (prefix @ ''_var'') (ts_idCounter st) = (vid, n)"
    by (cases "generateTempId (prefix @ ''_var'') (ts_idCounter st)")
  have "processToken opts prefix c cid cm (path, token) st =
             fold (setModeValue c cm path vid) (tc_modes c)
               (onReport addVariable
                  (pushVariable
                     \<lparr> vc_action = CREATE, vc_id = vid, vc_name = join ''/'' path,
                       vc_variableCollectionId = cid, vc_resolvedType = figmaType,
                       vc_description = tk_description token \<rparr>
                     (st \<lparr> ts_idCounter := n \<rparr>)))"
    using assms ft g by (auto simp: processToken_def createsVariable_def)
  then show ?thesis by blast
qed

lemma createMode_bound:
  assumes "fst (createMode prefix cid d m acc) k = Some i"
  shows "fst acc k = Some i \<or>
         (\<exists>mc \<in> set (variableModes (ts_requestBody (snd (createMode prefix cid d m acc)))).
            vmc_name mc = k \<and> vmc_id mc = i \<and> vmc_variableCollectionId mc = cid)"
  using assms
  by (cases acc)
     (auto simp: createMode_def generateTempId_def trace_defs split: if_splits)

lemma fold_createMode_bound:
  assumes "fst (fold (createMode prefix cid d) ms acc) k = Some i"
  shows "fst acc k = Some i \<or>
         (\<exists>mc \<in> set (variableModes (ts_requestBody (snd (fold (createMode prefix cid d) ms acc)))).
            vmc_name mc = k \<and> vmc_id mc = i \<and> vmc_variableCollectionId mc = cid)"
  using assms
proof (induction ms arbitrary: acc)
  case Nil
  then show ?case by simp
next
  case (Cons m ms)
  let ?a = "createMode prefix cid d m acc"
  have "fst ?a k = Some i \<or>
         (\<exists>mc \<in> set (variableModes (ts_requestBody (snd (fold (createMode prefix cid d) ms ?a)))).
            vmc_name mc = k \<and> vmc_id mc = i \<and> vmc_variableCollectionId mc = cid)"
    using Cons.IH [of ?a] Cons.prems by simp
  then show ?case
  proof
    assume "fst ?a k = Some i"
    then have "fst acc k = Some i \<or>
         (\<exists>mc \<in> set (variableModes (ts_requestBody (snd ?a))).
            vmc_name mc = k \<and> vmc_id mc = i \<and> vmc_variableCollectionId mc = cid)"
      by (rule createMode_bound)
    then show ?thesis
      using extends_set(1) [OF fold_createMode_extends [of ?a prefix cid d ms]] by auto
  next
    assume "\<exists>mc \<in> set (variableModes (ts_requestBody (snd (fold (createMode prefix cid d) ms ?a)))).
            vmc_name mc = k \<and> vmc_id mc = i \<and> vmc_variableCollectionId mc = cid"
    then show ?thesis by simp
  qed
qed

subsection \<open>Entries of the report and the tokens they come from\<close>

lemma skips_pinned:
  assumes "s \<in> set (map compositeSkip (filter isSkipType (concat (map defaultEntries cs))))"
  shows "\<exists>c' \<in> set cs. compositeSkipOf c' s"
proof -
  obtain c' e where e: "c' \<in> set cs" "e \<in> set (defaultEntries c')" "isSkipType e"
      "s = compositeSkip e"
    using assms by auto
  have "tokenOfMode c' (tc_defaultMode c') (fst e) (snd e)"
    using e(2) defaultEntries_set [of "fst e" "snd e" c'] by simp
  then have "compositeSkipOf c' s"
    unfolding compositeSkipOf_def using e(3,4) isSkipType_kinds [of e] 
    by (intro exI [of _ "fst e"] exI [of _ "snd e"]) simp
  then show ?thesis using e(1) by blast
qed

lemma variables_pinned:
  assumes "map vc_name vs =
             map (\<lambda>e. join ''/'' (fst e)) (filter (createsVariable options) (concat (map defaultEntries cs)))"
    and "v \<in> set vs"
  shows "\<exists>c' \<in> set cs. variableOf options c' v"
proof -
  have "vc_name v \<in> set (map vc_name vs)" using assms(2) by simp
  then obtain c' e where e: "c' \<in> set cs" "e \<in> set (defaultEntries c')" "createsVariable options e"
      "vc_name v = join ''/'' (fst e)"
    unfolding assms(1) by auto
  have "tokenOfMode c' (tc_defaultMode c') (fst e) (snd e)"
    using e(2) defaultEntries_set [of "fst e" "snd e" c'] by simp
  then have "variableOf options c' v"
    unfolding variableOf_def using e(3,4) createsVariable_kinds [of options e]
    by (intro exI [of _ "fst e"] exI [of _ "snd e"]) simp
  then show ?thesis using e(1) by blast
qed

lemma modeUnitWarnings_sound:
  assumes "w \<in> set (modeUnitWarnings c p m)" and "cleanPath p"
  shows "unitDiscardedAt c m p w"
proof -
  obtain tree t where t: "map_of (tc_tokens c) m = Some tree" "findModeToken tree p = Some t"
      "w \<in> set (unitWarningsOf t (tc_name c @ ''.'' @ m @ ''.'' @ join ''.'' p))"
  proof (cases "map_of (tc_tokens c) m")
    case None
    then show ?thesis using assms(1) by (simp add: modeUnitWarnings_def)
  next
    case tree: (Some tree)
    show ?thesis
    proof (cases "findModeToken tree p")
      case None
      then show ?thesis using assms(1) tree by (simp add: modeUnitWarnings_def)
    next
      case (Some t)
      then show ?thesis using assms(1) tree that [of tree t] by (simp add: modeUnitWarnings_def)
    qed
  qed
  obtain d where d: "tk_value t = VDimension d" "tk_type t = TDimension" "dv_unit d \<noteq> ''px''"
      "w = unitWarning d (tc_name c @ ''.'' @ m @ ''.'' @ join ''.'' p)"
  proof (cases "tk_value t")
    case (VDimension d)
    then show ?thesis using t(3) that [of d] by (simp add: unitWarningsOf_def split: if_splits)
  qed (use t(3) in \<open>simp_all add: unitWarningsOf_def\<close>)
  have "tokenAt tree p t"
    using findModeToken_found [OF t(2)] assms(2) by (simp add: cleanPath_def)
  then have "tokenOfMode c m p t" using t(1) by (simp add: tokenOfMode_def)
  then show ?thesis unfolding unitDiscardedAt_def using d by blast
qed

lemma modeUnitWarnings_complete:
  assumes "unitDiscardedAt c m p w" and "wellFormedTheme theme" and "c \<in> set (th_collections theme)"
  shows "modeUnitWarnings c p m = [w]"
proof -
  obtain t d where t: "tokenOfMode c m p t" "tk_type t = TDimension" "tk_value t = VDimension d"
      "dv_unit d \<noteq> ''px''" "w = unitWarning d (tc_name c @ ''.'' @ m @ ''.'' @ join ''.'' p)"
    using assms(1) unfolding unitDiscardedAt_def by blast
  obtain tree where tree: "map_of (tc_tokens c) m = Some tree" "tokenAt tree p t"
    using t(1) by (auto simp: tokenOfMode_def split: option.splits)
  have "findModeToken tree p = Some t"
    using findModeToken_tokenAt [OF wellFormed_tree(1) [OF assms(2,3) tree(1)] tree(2)] .
  then show ?thesis
    using tree(1) t by (simp add: modeUnitWarnings_def unitWarningsOf_def)
qed

lemma modeUnitWarnings_length: "length (modeUnitWarnings c p m) \<le> 1"
  by (simp add: modeUnitWarnings_def unitWarningsOf_def split: option.splits TokenValue.splits)

lemma tokenUnitWarnings_paths:
  "concat (map (tokenUnitWarnings options c) es) =
     concat (map (\<lambda>p. concat (map (modeUnitWarnings c p) (tc_modes c)))
               (map fst (filter (createsVariable options) es)))"
  by (induction es) (simp_all add: tokenUnitWarnings_def)

lemma warnings_pinned:
  assumes "w \<in> set (concat (map (\<lambda>c. concat (map (tokenUnitWarnings options c) (defaultEntries c))) cs))"
  shows "\<exists>c' \<in> set cs. unitDiscardedIn c' w"
proof -
  obtain c' e where e: "c' \<in> set cs" "e \<in> set (defaultEntries c')"
      "w \<in> set (tokenUnitWarnings options c' e)"
    using assms by auto
  obtain m where m: "m \<in> set (tc_modes c')" "w \<in> set (modeUnitWarnings c' (fst e) m)"
    using e(3) by (auto simp: tokenUnitWarnings_def split: if_splits)
  have "tokenOfMode c' (tc_defaultMode c') (fst e) (snd e)"
    using e(2) defaultEntries_set [of "fst e" "snd e" c'] by simp
  then have "cleanPath (fst e)"
    by (auto simp: tokenOfMode_def split: option.splits dest: tokenAt_clean)
  then have "unitDiscardedAt c' m (fst e) w" using m(2) by (rule modeUnitWarnings_sound [rotated])
  then show ?thesis using e(1) m(1) unfolding unitDiscardedIn_def by blast
qed

subsection \<open>Well-formed themes\<close>

text \<open>
  On a well-formed theme no mode value of the returned request body is the placeholder of an
  unchecked cast: every converter found a value of the shape that it reads.
\<close>

lemma map_of_wellShaped:
  assumes "map_of grp key = Some node" and "wellShapedGroup grp"
  shows "case node of Leaf t \<Rightarrow> wellShaped t | Group sub \<Rightarrow> wellShapedGroup sub"
  using assms
  by (induction grp rule: wellShapedGroup.induct) (auto split: if_splits)

lemma navigate_wellShaped:
  assumes "navigate node path = Some (Leaf t)"
    and "case node of Leaf t \<Rightarrow> wellShaped t | Group sub \<Rightarrow> wellShapedGroup sub"
  shows "wellShaped t"
  using assms
proof (induction path arbitrary: node)
  case Nil
  then show ?case by simp
next
  case (Cons segment rest)
  show ?case
  proof (cases node)
    case (Leaf u)
    then show ?thesis using Cons.prems by simp
  next
    case (Group grp)
    then obtain nxt where n: "map_of grp segment = Some nxt" "navigate nxt rest = Some (Leaf t)"
      using Cons.prems(1) by (auto split: option.splits)
    have "case nxt of Leaf t \<Rightarrow> wellShaped t | Group sub \<Rightarrow> wellShapedGroup sub"
      using map_of_wellShaped [OF n(1)] Cons.prems(2) Group by simp
    then show ?thesis using Cons.IH [OF n(2)] by simp
  qed
qed

lemma findModeToken_wellShaped:
  assumes "findModeToken tree path = Some t" and "wellShapedGroup tree"
  shows "wellShaped t"
proof -
  have "navigate (Group tree) path = Some (Leaf t)"
    using assms(1) by (auto simp: findModeToken_def split: option.splits Node.splits)
  then show ?thesis using navigate_wellShaped [of "Group tree" path t] assms(2) by simp
qed

lemma tokenValueToFigma_checked:
  assumes "wellShaped t" and "fst (tokenValueToFigma t rep p) = Some fv"
  shows "\<not> isUnchecked fv"
  using assms
  by (cases "tk_value t"; cases "tk_type t")
     (auto simp: tokenValueToFigma_def wellShaped_def dimensionToNumber_def split: if_splits)

lemma setModeValue_checked:
  assumes "wellShapedCollection c" and "checkedValues st"
  shows "checkedValues (setModeValue c cm path vid m st)"
proof (cases "map_of (tc_tokens c) m")
  case None
  then show ?thesis using assms(2) by (simp add: setModeValue_def)
next
  case (Some tree)
  have "(m, tree) \<in> set (tc_tokens c)" using Some by (rule map_of_SomeD)
  then have ws: "wellShapedGroup tree"
    using assms(1) by (force simp: wellShapedCollection_def list_all_iff)
  show ?thesis
  proof (cases "findModeToken tree path")
    case None
    then show ?thesis using Some assms(2) by (simp add: setModeValue_def)
  next
    case tok: (Some t)
    have wt: "wellShaped t" by (rule findModeToken_wellShaped [OF tok ws])
    let ?p = "tc_name c @ ''.'' @ m @ ''.'' @ join ''.'' path"
    obtain x rep' where r: "tokenValueToFigma t (ts_report st) ?p = (x, rep')"
      by (cases "tokenValueToFigma t (ts_report st) ?p")
    have ok: "\<And>fv. x = Some fv \<Longrightarrow> \<not> isUnchecked fv"
      using tokenValueToFigma_checked [OF wt, of "ts_report st" ?p] r by simp
    show ?thesis
      using Some tok r ok assms(2)
      by (cases x; cases "cm m")
         (auto simp: setModeValue_def checkedValues_def trace_defs)
  qed
qed

lemma fold_setModeValue_checked:
  assumes "wellShapedCollection c" and "checkedValues st"
  shows "checkedValues (fold (setModeValue c cm path vid) ms st)"
  using assms(2)
  by (induction ms arbitrary: st) (simp_all add: setModeValue_checked [OF assms(1)])

lemma processToken_checked:
  assumes "wellShapedCollection c" and "checkedValues st"
  shows "checkedValues (processToken opts prefix c cid cm entry st)"
proof (cases entry)
  case (Pair path token)
  have a: "\<And>f. checkedValues (onReport f st)"
    using assms(2) by (simp add: checkedValues_def onReport_def)
  have b: "\<And>v n. checkedValues (onReport addVariable (pushVariable v (st \<lparr> ts_idCounter := n \<rparr>)))"
    using assms(2) by (simp add: checkedValues_def trace_defs)
  show ?thesis
    unfolding Pair processToken_def
    by (auto split: option.splits prod.splits simp: a assms(2)
             intro: fold_setModeValue_checked [OF assms(1) b])
qed

lemma fold_processToken_checked:
  assumes "wellShapedCollection c" and "checkedValues st"
  shows "checkedValues (fold (processToken opts prefix c cid cm) entries st)"
  using assms(2)
  by (induction entries arbitrary: st) (simp_all add: processToken_checked [OF assms(1)])

lemma createMode_values:
  "variableModeValues (ts_requestBody (snd (createMode prefix cid d m acc))) =
     variableModeValues (ts_requestBody (snd acc))"
  by (cases acc) (simp add: createMode_def generateTempId_def trace_defs)

lemma fold_createMode_values:
  "variableModeValues (ts_requestBody (snd (fold (createMode prefix cid d) ms acc))) =
     variableModeValues (ts_requestBody (snd acc))"
  by (induction ms arbitrary: acc) (simp_all add: createMode_values)

lemma processCollection_checked:
  assumes "wellShapedCollection c" and "checkedValues st"
  shows "checkedValues (processCollection opts prefix c st)"
proof -
  obtain cid mid st0 cm st1 where
    s0: "variableModeValues (ts_requestBody st0) = variableModeValues (ts_requestBody st)"
    and f: "fold (createMode prefix cid (tc_defaultMode c)) (tc_modes c)
        (Map.empty(tc_defaultMode c \<mapsto> mid), st0) = (cm, st1)"
    and eq: "processCollection opts prefix c st =
        (case map_of (tc_tokens c) (tc_defaultMode c) of
           None \<Rightarrow> st1
         | Some defaultTokens \<Rightarrow>
             fold (processToken opts prefix c cid cm) (flattenTokens defaultTokens []) st1)"
    using processCollection_unfold [of st opts c prefix] by blast
  have "variableModeValues (ts_requestBody st1) = variableModeValues (ts_requestBody st)"
    using fold_createMode_values [of prefix cid "tc_defaultMode c" "tc_modes c"
            "(Map.empty(tc_defaultMode c \<mapsto> mid), st0)"] f s0
    by simp
  then have c1: "checkedValues st1" using assms(2) by (simp add: checkedValues_def)
  show ?thesis
    unfolding eq
    by (auto split: option.splits intro: c1 fold_processToken_checked [OF assms(1) c1])
qed

lemma fold_processCollection_checked:
  assumes "\<forall>c \<in> set cs. wellShapedCollection c" and "checkedValues st"
  shows "checkedValues (fold (processCollection opts prefix) cs st)"
  using assms
  by (induction cs arbitrary: st) (simp_all add: processCollection_checked)

lemma transform_checked:
  assumes "wellFormedTheme theme"
  shows "list_all (\<lambda>y. \<not> isUnchecked (mv_value y))
           (variableModeValues (requestBody (fst (transformToFigmaVariables theme options n))))"
proof -
  have a: "\<forall>c \<in> set (th_collections theme). wellShapedCollection c"
    using assms by (auto simp: wellFormedTheme_def wellShapedCollection_def list_all_iff)
  have b: "checkedValues (initialState theme options n)"
    by (simp add: checkedValues_def initialState_def)
  have "checkedValues (runCollections theme options n)"
    unfolding runCollections_def by (rule fold_processCollection_checked [OF a b])
  then show ?thesis
    by (simp add: checkedValues_def transformToFigmaVariables_def Let_def)
qed

subsection \<open>The variables and mode values of a collection\<close>

text \<open>
  A round for a token that becomes a variable appends one variable-create and, for each
  declared mode in order, what \<open>modeValuesOf\<close> gives for the id of that variable; a round
  for a collection appends these for the tokens of its default-mode tree in order, with the
  table of mode ids that binds the default mode to the initial mode of the collection-create
  and every other declared mode to a mode-create of the collection.
\<close>

lemma tokenValueToFigma_value: "fst (tokenValueToFigma t rep p) = figmaValueOf t"
  unfolding figmaValueOf_def
  by (cases "tk_value t"; cases "tk_type t")
     (simp_all add: tokenValueToFigma_def dimensionToNumber_def split: prod.splits)

lemma setModeValue_values:
  "variableModeValues (ts_requestBody (setModeValue c cm path vid m st)) =
     variableModeValues (ts_requestBody st) @ modeValuesOf c cm path vid m"
proof (cases "map_of (tc_tokens c) m")
  case None
  then show ?thesis by (simp add: setModeValue_def modeValuesOf_def)
next
  case (Some modeTokens)
  show ?thesis
  proof (cases "findModeToken modeTokens path")
    case None
    with Some show ?thesis by (simp add: setModeValue_def modeValuesOf_def)
  next
    case tok: (Some t)
    show ?thesis
    proof (cases "cm m")
      case None
      with Some tok show ?thesis by (simp add: setModeValue_def modeValuesOf_def)
    next
      case mid: (Some i)
      let ?p = "tc_name c @ ''.'' @ m @ ''.'' @ join ''.'' path"
      obtain x rep' where r: "tokenValueToFigma t (ts_report st) ?p = (x, rep')"
        by (cases "tokenValueToFigma t (ts_report st) ?p")
      have x: "figmaValueOf t = x"
        using tokenValueToFigma_value [of t "ts_report st" ?p] r by simp
      show ?thesis
        using Some tok mid r x
        by (cases x) (auto simp: setModeValue_def modeValuesOf_def trace_defs)
    qed
  qed
qed

lemma fold_setModeValue_values:
  "variableModeValues (ts_requestBody (fold (setModeValue c cm path vid) ms st)) =
     variableModeValues (ts_requestBody st) @ concat (map (modeValuesOf c cm path vid) ms)"
  by (induction ms arbitrary: st) (simp_all add: setModeValue_values)

lemma modeValuesOf_length: "length (modeValuesOf c cm path vid m) \<le> 1"
  by (simp add: modeValuesOf_def split: option.splits)

lemma modeValuesOf_variable: "y \<in> set (modeValuesOf c cm path vid m) \<Longrightarrow> mv_variableId y = vid"
  by (auto simp: modeValuesOf_def split: option.splits if_splits)

lemma modeValuesOf_dimension:
  assumes "cm m = Some i" and "i \<noteq> []" and "map_of (tc_tokens c) m = Some tree"
    and "findModeToken tree path = Some t"
    and "tk_type t = TDimension" and "tk_value t = VDimension d"
  shows "modeValuesOf c cm path vid m =
           [\<lparr> mv_variableId = vid, mv_modeId = i, mv_value = FNumber (Lit (dv_value d)) \<rparr>]"
  using assms
  by (simp add: modeValuesOf_def figmaValueOf_def tokenValueToFigma_def dimensionToNumber_def)

lemma processToken_values:
  "\<exists>vb. variables (ts_requestBody (processToken opts prefix c cid cm entry st)) =
          variables (ts_requestBody st) @ vb \<and>
        map vc_name vb = (if createsVariable opts entry then [join ''/'' (fst entry)] else []) \<and>
        (\<forall>v \<in> set vb. vc_variableCollectionId v = cid) \<and>
        variableModeValues (ts_requestBody (processToken opts prefix c cid cm entry st)) =
          variableModeValues (ts_requestBody st) @
            concat (map (\<lambda>v. concat (map (modeValuesOf c cm (fst entry) (vc_id v)) (tc_modes c))) vb)"
proof (cases entry)
  case (Pair path token)
  show ?thesis
  proof (cases "createsVariable opts entry")
    case False
    have "ts_requestBody (processToken opts prefix c cid cm entry st) = ts_requestBody st"
      using False unfolding Pair
      by (auto simp: processToken_def createsVariable_def trace_defs split: option.splits)
    then show ?thesis using False by simp
  next
    case True
    then obtain vid n figmaType where eq:
      "processToken opts prefix c cid cm (path, token) st =
             fold (setModeValue c cm path vid) (tc_modes c)
               (onReport addVariable
                  (pushVariable
                     \<lparr> vc_action = CREATE, vc_id = vid, vc_name = join ''/'' path,
                       vc_variableCollectionId = cid, vc_resolvedType = figmaType,
                       vc_description = tk_description token \<rparr>
                     (st \<lparr> ts_idCounter := n \<rparr>)))"
      using processToken_creates [of opts path token prefix c cid cm st] unfolding Pair by blast
    let ?v = "\<lparr> vc_action = CREATE, vc_id = vid, vc_name = join ''/'' path,
                 vc_variableCollectionId = cid, vc_resolvedType = figmaType,
                 vc_description = tk_description token \<rparr>"
    have a: "variables (ts_requestBody (processToken opts prefix c cid cm entry st)) =
            variables (ts_requestBody st) @ [?v]"
      unfolding Pair eq by (simp add: fold_setModeValue_trace) (simp add: trace_defs)
    have b: "variableModeValues (ts_requestBody (processToken opts prefix c cid cm entry st)) =
            variableModeValues (ts_requestBody st) @
              concat (map (modeValuesOf c cm path vid) (tc_modes c))"
      unfolding Pair eq by (simp add: fold_setModeValue_values) (simp add: trace_defs)
    show ?thesis
      by (rule exI [of _ "[?v]"]) (use a b True Pair in simp)
  qed
qed

lemma fold_processToken_values:
  "\<exists>vb. variables (ts_requestBody (fold (processToken opts prefix c cid cm) entries st)) =
          variables (ts_requestBody st) @ vb \<and>
        map vc_name vb =
          map (\<lambda>e. join ''/'' (fst e)) (filter (createsVariable opts) entries) \<and>
        (\<forall>v \<in> set vb. vc_variableCollectionId v = cid) \<and>
        variableModeValues (ts_requestBody (fold (processToken opts prefix c cid cm) entries st)) =
          variableModeValues (ts_requestBody st) @
            concat (map (\<lambda>(v, p). concat (map (modeValuesOf c cm p (vc_id v)) (tc_modes c)))
                      (zip vb (map fst (filter (createsVariable opts) entries))))"
proof (induction entries arbitrary: st)
  case Nil
  show ?case by simp
next
  case (Cons e es)
  let ?s = "processToken opts prefix c cid cm e st"
  obtain vb1 where a:
    "variables (ts_requestBody ?s) = variables (ts_requestBody st) @ vb1"
    "map vc_name vb1 = (if createsVariable opts e then [join ''/'' (fst e)] else [])"
    "\<forall>v \<in> set vb1. vc_variableCollectionId v = cid"
    "variableModeValues (ts_requestBody ?s) =
          variableModeValues (ts_requestBody st) @
            concat (map (\<lambda>v. concat (map (modeValuesOf c cm (fst e) (vc_id v)) (tc_modes c))) vb1)"
    using processToken_values [of opts prefix c cid cm e st] by blast
  obtain vb2 where b:
    "variables (ts_requestBody (fold (processToken opts prefix c cid cm) es ?s)) =
       variables (ts_requestBody ?s) @ vb2"
    "map vc_name vb2 = map (\<lambda>e. join ''/'' (fst e)) (filter (createsVariable opts) es)"
    "\<forall>v \<in> set vb2. vc_variableCollectionId v = cid"
    "variableModeValues (ts_requestBody (fold (processToken opts prefix c cid cm) es ?s)) =
          variableModeValues (ts_requestBody ?s) @
            concat (map (\<lambda>(v, p). concat (map (modeValuesOf c cm p (vc_id v)) (tc_modes c)))
                      (zip vb2 (map fst (filter (createsVariable opts) es))))"
    using Cons.IH [of ?s] by blast
  show ?case
  proof (cases "createsVariable opts e")
    case True
    then obtain v where v: "vb1 = [v]" using a(2) by (cases vb1) auto
    show ?thesis
      by (rule exI [of _ "v # vb2"]) (use a b v True in auto)
  next
    case False
    then have v: "vb1 = []" using a(2) by simp
    show ?thesis
      by (rule exI [of _ vb2]) (use a b v False in auto)
  qed
qed

lemma processCollection_values:
  "\<exists>vb created cm.
     variables (ts_requestBody (processCollection opts prefix c st)) =
       variables (ts_requestBody st) @ vb \<and>
     variableCollections (ts_requestBody (processCollection opts prefix c st)) =
       variableCollections (ts_requestBody st) @ [created] \<and>
     map vc_name vb =
       map (\<lambda>e. join ''/'' (fst e)) (filter (createsVariable opts) (defaultEntries c)) \<and>
     (\<forall>v \<in> set vb. vc_variableCollectionId v = vcc_id created) \<and>
     variableModeValues (ts_requestBody (processCollection opts prefix c st)) =
       variableModeValues (ts_requestBody st) @
         concat (map (\<lambda>(v, p). concat (map (modeValuesOf c cm p (vc_id v)) (tc_modes c)))
                   (zip vb (map fst (filter (createsVariable opts) (defaultEntries c))))) \<and>
     (\<forall>m \<in> set (tc_modes c).
        \<exists>i. cm m = Some i \<and> i \<noteq> [] \<and>
            (m = tc_defaultMode c \<and> i = vcc_initialModeId created \<or>
             m \<noteq> tc_defaultMode c \<and>
             (\<exists>mc \<in> set (variableModes (ts_requestBody (processCollection opts prefix c st))).
                vmc_name mc = m \<and> vmc_variableCollectionId mc = vcc_id created \<and>
                vmc_id mc = i)))"
proof -
  obtain cid mid st0 cm st1 where mid: "mid \<noteq> []" and
    s0: "variableCollections (ts_requestBody st0) =
        variableCollections (ts_requestBody st) @
          [\<lparr> vcc_action = CREATE, vcc_id = cid, vcc_name = mappedName opts (tc_name c),
             vcc_initialModeId = mid \<rparr>]"
      "variables (ts_requestBody st0) = variables (ts_requestBody st)"
      "variableModeValues (ts_requestBody st0) = variableModeValues (ts_requestBody st)"
    and f: "fold (createMode prefix cid (tc_defaultMode c)) (tc_modes c)
        (Map.empty(tc_defaultMode c \<mapsto> mid), st0) = (cm, st1)"
    and eq: "processCollection opts prefix c st =
        (case map_of (tc_tokens c) (tc_defaultMode c) of
           None \<Rightarrow> st1
         | Some defaultTokens \<Rightarrow>
             fold (processToken opts prefix c cid cm) (flattenTokens defaultTokens []) st1)"
    using processCollection_unfold [of st opts c prefix] by blast
  let ?created = "\<lparr> vcc_action = CREATE, vcc_id = cid, vcc_name = mappedName opts (tc_name c),
             vcc_initialModeId = mid \<rparr>"
  let ?acc0 = "(Map.empty(tc_defaultMode c \<mapsto> mid), st0)"
  let ?final = "fold (processToken opts prefix c cid cm) (defaultEntries c) st1"
  have e: "processCollection opts prefix c st = ?final"
    unfolding eq by (simp add: defaultEntries_def split: option.splits)
  have cm: "cm = fst (fold (createMode prefix cid (tc_defaultMode c)) (tc_modes c) ?acc0)"
    and st1: "st1 = snd (fold (createMode prefix cid (tc_defaultMode c)) (tc_modes c) ?acc0)"
    using f by simp_all
  have s1: "variables (ts_requestBody st1) = variables (ts_requestBody st)"
      "variableCollections (ts_requestBody st1) = variableCollections (ts_requestBody st) @ [?created]"
    using fold_createMode_frame [of prefix cid "tc_defaultMode c" "tc_modes c" ?acc0] f s0
    by simp_all
  have x1: "variableModeValues (ts_requestBody st1) = variableModeValues (ts_requestBody st)"
    using fold_createMode_values [of prefix cid "tc_defaultMode c" "tc_modes c" ?acc0] f s0
    by simp
  have col: "variableCollections (ts_requestBody ?final) =
       variableCollections (ts_requestBody st) @ [?created]"
    using s1 by (simp add: fold_processToken_trace)
  obtain vb where vb:
    "variables (ts_requestBody ?final) = variables (ts_requestBody st1) @ vb"
    "map vc_name vb =
          map (\<lambda>e. join ''/'' (fst e)) (filter (createsVariable opts) (defaultEntries c))"
    "\<forall>v \<in> set vb. vc_variableCollectionId v = cid"
    "variableModeValues (ts_requestBody ?final) =
          variableModeValues (ts_requestBody st1) @
            concat (map (\<lambda>(v, p). concat (map (modeValuesOf c cm p (vc_id v)) (tc_modes c)))
                      (zip vb (map fst (filter (createsVariable opts) (defaultEntries c)))))"
    using fold_processToken_values [of opts prefix c cid cm "defaultEntries c" st1] by blast
  have ne0: "nonEmptyIds (fst ?acc0)" using mid by (simp add: nonEmptyIds_def)
  have ne: "nonEmptyIds cm"
    unfolding cm
    using fold_createMode_ids [where acc = ?acc0 and prefix = prefix and cid = cid
            and d = "tc_defaultMode c" and ms = "tc_modes c"] ne0
    by blast
  have modes: "\<forall>m \<in> set (tc_modes c).
        \<exists>i. cm m = Some i \<and> i \<noteq> [] \<and>
            (m = tc_defaultMode c \<and> i = mid \<or>
             m \<noteq> tc_defaultMode c \<and>
             (\<exists>mc \<in> set (variableModes (ts_requestBody ?final)).
                vmc_name mc = m \<and> vmc_variableCollectionId mc = cid \<and> vmc_id mc = i))"
  proof
    fix m assume m: "m \<in> set (tc_modes c)"
    have "cm m \<noteq> None"
    proof (cases "m = tc_defaultMode c")
      case True
      then show ?thesis
        using fold_createMode_default [of prefix cid "tc_defaultMode c" "tc_modes c" ?acc0]
        by (simp add: cm)
    next
      case False
      then show ?thesis
        using fold_createMode_ids [where acc = ?acc0 and k = m and prefix = prefix and cid = cid
                and d = "tc_defaultMode c" and ms = "tc_modes c"] m
        by (simp add: cm)
    qed
    then obtain i where i: "cm m = Some i" by auto
    have ine: "i \<noteq> []" using ne i by (auto simp: nonEmptyIds_def)
    have "m = tc_defaultMode c \<and> i = mid \<or>
          m \<noteq> tc_defaultMode c \<and>
          (\<exists>mc \<in> set (variableModes (ts_requestBody ?final)).
             vmc_name mc = m \<and> vmc_variableCollectionId mc = cid \<and> vmc_id mc = i)"
    proof (cases "m = tc_defaultMode c")
      case True
      then show ?thesis
        using fold_createMode_default [of prefix cid "tc_defaultMode c" "tc_modes c" ?acc0] i
        by (simp add: cm)
    next
      case False
      have "fst (fold (createMode prefix cid (tc_defaultMode c)) (tc_modes c) ?acc0) m = Some i"
        using i by (simp add: cm)
      then have "fst ?acc0 m = Some i \<or>
           (\<exists>mc \<in> set (variableModes (ts_requestBody st1)).
              vmc_name mc = m \<and> vmc_id mc = i \<and> vmc_variableCollectionId mc = cid)"
        unfolding st1 by (rule fold_createMode_bound)
      then have "\<exists>mc \<in> set (variableModes (ts_requestBody st1)).
              vmc_name mc = m \<and> vmc_id mc = i \<and> vmc_variableCollectionId mc = cid"
        using False by simp
      then show ?thesis
        using False extends_set(1) [OF fold_processToken_extends [of st1 opts prefix c cid cm
                "defaultEntries c"]]
        by auto
    qed
    then show "\<exists>i. cm m = Some i \<and> i \<noteq> [] \<and>
            (m = tc_defaultMode c \<and> i = mid \<or>
             m \<noteq> tc_defaultMode c \<and>
             (\<exists>mc \<in> set (variableModes (ts_requestBody ?final)).
                vmc_name mc = m \<and> vmc_variableCollectionId mc = cid \<and> vmc_id mc = i))"
      using i ine by blast
  qed
  have ids: "vcc_id ?created = cid" "vcc_initialModeId ?created = mid" by simp_all
  show ?thesis
    unfolding e
    apply (rule exI [of _ vb], rule exI [of _ ?created], rule exI [of _ cm])
    apply (intro conjI)
    subgoal using vb(1) s1(1) by simp
    subgoal by (rule col)
    subgoal by (rule vb(2))
    subgoal unfolding ids by (rule vb(3))
    subgoal using vb(4) x1 by simp
    subgoal unfolding ids by (rule modes)
    done
qed

lemma block_values_variable:
  assumes "y \<in> set (concat (map (\<lambda>(v, p). concat (map (modeValuesOf c cm p (vc_id v)) ms))
                              (zip vb ps)))"
  shows "\<exists>v \<in> set vb. mv_variableId y = vc_id v"
proof -
  obtain v p m where "(v, p) \<in> set (zip vb ps)" "y \<in> set (modeValuesOf c cm p (vc_id v) m)"
    using assms by auto
  then show ?thesis using modeValuesOf_variable set_zip_leftD by fast
qed

lemma fold_processCollection_values:
  "\<exists>vs xs.
     variables (ts_requestBody (fold (processCollection opts prefix) cs st)) =
       variables (ts_requestBody st) @ vs \<and>
     variableModeValues (ts_requestBody (fold (processCollection opts prefix) cs st)) =
       variableModeValues (ts_requestBody st) @ xs \<and>
     (\<forall>y \<in> set xs. \<exists>v \<in> set vs. mv_variableId y = vc_id v)"
proof (induction cs arbitrary: st)
  case Nil
  show ?case by simp
next
  case (Cons c cs)
  let ?s = "processCollection opts prefix c st"
  obtain vb cm where a:
    "variables (ts_requestBody ?s) = variables (ts_requestBody st) @ vb"
    "variableModeValues (ts_requestBody ?s) =
       variableModeValues (ts_requestBody st) @
         concat (map (\<lambda>(v, p). concat (map (modeValuesOf c cm p (vc_id v)) (tc_modes c)))
                   (zip vb (map fst (filter (createsVariable opts) (defaultEntries c)))))"
    using processCollection_values [of opts prefix c st] by blast
  obtain vs xs where b:
    "variables (ts_requestBody (fold (processCollection opts prefix) cs ?s)) =
       variables (ts_requestBody ?s) @ vs"
    "variableModeValues (ts_requestBody (fold (processCollection opts prefix) cs ?s)) =
       variableModeValues (ts_requestBody ?s) @ xs"
    "\<forall>y \<in> set xs. \<exists>v \<in> set vs. mv_variableId y = vc_id v"
    using Cons.IH [of ?s] by blast
  define blk where
    "blk = concat (map (\<lambda>(v, p). concat (map (modeValuesOf c cm p (vc_id v)) (tc_modes c)))
                   (zip vb (map fst (filter (createsVariable opts) (defaultEntries c)))))"
  have c1: "\<forall>y \<in> set blk. \<exists>v \<in> set vb. mv_variableId y = vc_id v"
    unfolding blk_def using block_values_variable by fast
  have c2: "\<forall>y \<in> set (blk @ xs). \<exists>v \<in> set (vb @ vs). mv_variableId y = vc_id v"
    using c1 b(3) by auto
  show ?case
    apply (rule exI [of _ "vb @ vs"], rule exI [of _ "blk @ xs"])
    apply (intro conjI)
    subgoal using a(1) b(1) by simp
    subgoal using a(2) b(2) by (simp add: blk_def)
    subgoal by (rule c2)
    done
qed

subsection \<open>Composite tokens and discarded units\<close>

lemmas nested_defs = nestedTheme_def nestedCollection_def

lemma nestedTheme_body:
  "requestBody (fst (transformToFigmaVariables nestedTheme (exampleOptions None None) 0)) =
     \<lparr> variableCollections =
         [\<lparr> vcc_action = CREATE, vcc_id = ''temp_col_1'', vcc_name = ''c'',
            vcc_initialModeId = ''temp_mode_2'' \<rparr>,
          \<lparr> vcc_action = CREATE, vcc_id = ''temp_col_5'', vcc_name = ''k'',
            vcc_initialModeId = ''temp_mode_6'' \<rparr>],
       variableModes =
         [\<lparr> vmc_action = CREATE, vmc_id = ''temp_mode_3'', vmc_name = ''n'',
            vmc_variableCollectionId = ''temp_col_1'' \<rparr>,
          \<lparr> vmc_action = CREATE, vmc_id = ''temp_mode_7'', vmc_name = ''n'',
            vmc_variableCollectionId = ''temp_col_5'' \<rparr>],
       variables =
         [\<lparr> vc_action = CREATE, vc_id = ''temp_var_4'', vc_name = ''d'',
            vc_variableCollectionId = ''temp_col_1'', vc_resolvedType = FLOAT,
            vc_description = None \<rparr>,
          \<lparr> vc_action = CREATE, vc_id = ''temp_var_8'', vc_name = ''b/d'',
            vc_variableCollectionId = ''temp_col_5'', vc_resolvedType = FLOAT,
            vc_description = None \<rparr>],
       variableModeValues =
         [\<lparr> mv_variableId = ''temp_var_4'', mv_modeId = ''temp_mode_2'',
            mv_value = FNumber (Lit 32) \<rparr>,
          \<lparr> mv_variableId = ''temp_var_8'', mv_modeId = ''temp_mode_6'',
            mv_value = FNumber (Lit 32) \<rparr>,
          \<lparr> mv_variableId = ''temp_var_8'', mv_modeId = ''temp_mode_7'',
            mv_value = FNumber (Lit 32) \<rparr>] \<rparr>"
  by (simp add: eval_defs example_defs nested_defs)

lemma nestedTheme_skipped:
  "map sk_path (skipped (report (fst (transformToFigmaVariables nestedTheme (exampleOptions None None) 0)))) =
     [''s'', ''a.s'']"
  by (simp add: eval_defs example_defs nested_defs)

lemma nestedTheme_warnings:
  "warnings (report (fst (transformToFigmaVariables nestedTheme (exampleOptions None None) 0))) =
     [unitWarning \<lparr> dv_value = 32, dv_unit = ''rem'' \<rparr> ''c.m.d'',
      unitWarning \<lparr> dv_value = 32, dv_unit = ''rem'' \<rparr> ''k.m.b.d'',
      unitWarning \<lparr> dv_value = 32, dv_unit = ''rem'' \<rparr> ''k.n.b.d'']"
  by (simp add: eval_defs example_defs nested_defs unitWarning_def)

lemma nestedTheme_wellFormed: "wellFormedTheme nestedTheme"
  by (simp add: wellFormedTheme_def nested_defs example_defs wellShaped_def)

text \<open>
  C5. Take a well-formed theme, a collection \<open>c\<close> of it (the collections are
  \<open>before\<close>, then \<open>c\<close>, then \<open>after\<close>) and a token at a path of the
  default-mode tree of \<open>c\<close> whose type is one of typography, shadow, border, gradient,
  cubicBezier, transition, animation and keyframes. In the result of
  \<open>transformToFigmaVariables\<close> the Skipped entries of composite tokens are those of the
  collections before \<open>c\<close>, then a block for \<open>c\<close>, then those of the collections
  after \<open>c\<close>. The block has, for the list \<open>es\<close> of the tokens of the default-mode
  tree that have one of the eight types, each of them once and nothing else, the entry with
  the dotted path and the type of each: the given token is in that list exactly once, so
  exactly one Skipped entry is appended for it. The variable-creates are split in the same
  way; the block of \<open>c\<close> refers to the collection-create of \<open>c\<close> and has one
  variable-create, named by the slash path, for each path of a token of the tree that has
  one of the eight variable kinds (and is not hidden while \<open>skipHidden\<close> is set), each
  path once: the path of the given token is not among them, so no variable-create is emitted
  for it. Entries are counted by the place of the token in the tree (its list of keys), not
  by the joined string. The Skipped entries of composite tokens are those with the
  suggestion of the styles interface; the other entries of the list, for kinds without a
  mapping and for references, carry another suggestion or none.
\<close>

theorem composite_tokens_skipped:
  assumes "th_collections theme = before @ c # after"
    and "wellFormedTheme theme"
    and "map_of (tc_tokens c) (tc_defaultMode c) = Some tree"
    and "tokenAt tree path token"
    and "tk_type token \<in> {TTypography, TShadow, TBorder, TGradient, TCubicBezier, TTransition,
                          TAnimation, TKeyframes}"
  shows "\<exists>pre es post vpre vblock ps vpost.
     filter isCompositeSkip (skipped (report (fst (transformToFigmaVariables theme options n)))) =
       pre @ map compositeSkip es @ post \<and>
     distinct es \<and>
     set es = {e. tokenAt tree (fst e) (snd e) \<and> tk_type (snd e) \<in> compositeKinds} \<and>
     count_list es (path, token) = 1 \<and>
     (\<forall>s \<in> set pre. \<exists>c' \<in> set before. compositeSkipOf c' s) \<and>
     (\<forall>s \<in> set post. \<exists>c' \<in> set after. compositeSkipOf c' s) \<and>
     variables (requestBody (fst (transformToFigmaVariables theme options n))) =
       vpre @ vblock @ vpost \<and>
     map vc_name vblock = map (join ''/'') ps \<and>
     distinct ps \<and>
     set ps = {p. \<exists>t. tokenAt tree p t \<and> becomesVariable options t} \<and>
     path \<notin> set ps \<and>
     (\<forall>v \<in> set vblock.
        vc_variableCollectionId v =
          vcc_id (variableCollections
                    (requestBody (fst (transformToFigmaVariables theme options n))) ! length before)) \<and>
     (\<forall>v \<in> set vpre. \<exists>c' \<in> set before. variableOf options c' v) \<and>
     (\<forall>v \<in> set vpost. \<exists>c' \<in> set after. variableOf options c' v)"
proof -
  let ?f = "processCollection options (idPrefixOf options)"
  define st0 where "st0 = initialState theme options n"
  define sb where "sb = fold ?f before st0"
  define sc where "sc = ?f c sb"
  define sa where "sa = fold ?f after sc"
  define es where "es = filter isSkipType (defaultEntries c)"
  define ps where "ps = map fst (filter (createsVariable options) (defaultEntries c))"
  define pre where "pre = map compositeSkip (filter isSkipType (concat (map defaultEntries before)))"
  define post where "post = map compositeSkip (filter isSkipType (concat (map defaultEntries after)))"
  have run: "runCollections theme options n = sa"
    by (simp add: runCollections_def assms(1) sa_def sc_def sb_def st0_def)
  have res: "requestBody (fst (transformToFigmaVariables theme options n)) = ts_requestBody sa"
      "report (fst (transformToFigmaVariables theme options n)) = ts_report sa"
    by (simp_all add: transformToFigmaVariables_def Let_def run)
  have cin: "c \<in> set (th_collections theme)" using assms(1) by simp
  have init: "skipsOf st0 = []" "variableNamesOf st0 = []"
      "variableCollections (ts_requestBody st0) = []"
    using runCollections_initial [of theme options n] by (simp_all add: st0_def)
  have tb: "skipsOf sb = pre"
      "variableNamesOf sb =
         map (\<lambda>e. join ''/'' (fst e))
           (filter (createsVariable options) (concat (map defaultEntries before)))"
    using fold_processCollection_trace [of options "idPrefixOf options" before st0] init
    by (simp_all add: sb_def pre_def)
  have tc: "skipsOf sc = skipsOf sb @ map compositeSkip es"
    using processCollection_trace [of options "idPrefixOf options" c sb]
    by (simp add: sc_def es_def)
  have ta: "skipsOf sa = skipsOf sc @ post"
      "variableNamesOf sa = variableNamesOf sc @
         map (\<lambda>e. join ''/'' (fst e))
           (filter (createsVariable options) (concat (map defaultEntries after)))"
    using fold_processCollection_trace [of options "idPrefixOf options" after sc]
    by (simp_all add: sa_def post_def)
  obtain colsB where colsB:
    "variableCollections (ts_requestBody sb) = colsB" "length colsB = length before"
    using fold_processCollection_append [of options "idPrefixOf options" before st0] init
    unfolding sb_def by auto
  obtain vblock created cm where vb:
    "variables (ts_requestBody sc) = variables (ts_requestBody sb) @ vblock"
    "variableCollections (ts_requestBody sc) = variableCollections (ts_requestBody sb) @ [created]"
    "map vc_name vblock =
       map (\<lambda>e. join ''/'' (fst e)) (filter (createsVariable options) (defaultEntries c))"
    "\<forall>v \<in> set vblock. vc_variableCollectionId v = vcc_id created"
    using processCollection_values [of options "idPrefixOf options" c sb, folded sc_def]
    by (elim exE conjE) (rule that; assumption)
  have ext: "extends sc sa"
    unfolding sa_def by (rule fold_processCollection_extends)
  obtain vpost where vpost: "variables (ts_requestBody sa) = variables (ts_requestBody sc) @ vpost"
    using ext unfolding extends_def by blast
  have nth: "variableCollections (ts_requestBody sa) ! length before = created"
    using extends_set(4) [OF ext, of "length before"] vb(2) colsB by (simp add: nth_append)
  have skips: "filter isCompositeSkip (skipped (ts_report sa)) = pre @ map compositeSkip es @ post"
    using tb(1) tc ta(1) by (simp add: skipsOf_def)
  have vars: "variables (ts_requestBody sa) = variables (ts_requestBody sb) @ vblock @ vpost"
    using vb(1) vpost by simp
  have dk: "distinct (map fst (defaultEntries c))"
    by (rule defaultEntries_distinct [OF assms(2) cin])
  have mem: "\<And>p t. (p, t) \<in> set (defaultEntries c) \<longleftrightarrow> tokenAt tree p t"
    using assms(3) by (simp add: defaultEntries_set tokenOfMode_def)
  have d_es: "distinct es"
    using dk unfolding es_def by (simp add: distinct_map)
  have set_es: "set es = {e. tokenAt tree (fst e) (snd e) \<and> tk_type (snd e) \<in> compositeKinds}"
    unfolding es_def using mem by (auto simp: isSkipType_kinds)
  have comp: "tk_type token \<in> compositeKinds" using assms(5) by (simp add: compositeKinds_def)
  have in_es: "(path, token) \<in> set es" unfolding set_es using assms(4) comp by simp
  have cnt: "count_list es (path, token) = 1"
    using d_es in_es by (rule count_list_distinct)
  have d_ps: "distinct ps"
    unfolding ps_def using dk by (rule distinct_map_filter)
  have set_ps: "set ps = {p. \<exists>t. tokenAt tree p t \<and> becomesVariable options t}"
    unfolding ps_def using mem by (force simp: createsVariable_kinds)
  have notin: "path \<notin> set ps"
  proof
    assume "path \<in> set ps"
    then obtain t where t: "tokenAt tree path t" "becomesVariable options t"
      unfolding set_ps by blast
    have "(path, t) \<in> set (defaultEntries c)" "(path, token) \<in> set (defaultEntries c)"
      using t(1) assms(4) mem by simp_all
    then have "t = token" using dk by (rule_tac eq_key_imp_eq_value)
    then show False using t(2) comp kinds_disjoint by blast
  qed
  have names: "map vc_name vblock = map (join ''/'') ps"
    using vb(3) by (simp add: ps_def comp_def)
  have p_pre: "\<forall>s \<in> set pre. \<exists>c' \<in> set before. compositeSkipOf c' s"
    unfolding pre_def using skips_pinned by blast
  have p_post: "\<forall>s \<in> set post. \<exists>c' \<in> set after. compositeSkipOf c' s"
    unfolding post_def using skips_pinned by blast
  have v_pre: "\<forall>v \<in> set (variables (ts_requestBody sb)). \<exists>c' \<in> set before. variableOf options c' v"
    using variables_pinned [of "variables (ts_requestBody sb)" options before] tb(2)
    by (simp add: variableNamesOf_def)
  have "map vc_name vpost =
         map (\<lambda>e. join ''/'' (fst e))
           (filter (createsVariable options) (concat (map defaultEntries after)))"
    using ta(2) vpost by (simp add: variableNamesOf_def)
  then have v_post: "\<forall>v \<in> set vpost. \<exists>c' \<in> set after. variableOf options c' v"
    using variables_pinned [of vpost options after] by simp
  show ?thesis
    unfolding res nth
    apply (rule exI [of _ pre], rule exI [of _ es], rule exI [of _ post])
    apply (rule exI [of _ "variables (ts_requestBody sb)"], rule exI [of _ vblock])
    apply (rule exI [of _ ps], rule exI [of _ vpost])
    apply (intro conjI)
    subgoal by (rule skips)
    subgoal by (rule d_es)
    subgoal by (rule set_es)
    subgoal by (rule cnt)
    subgoal by (rule p_pre)
    subgoal by (rule p_post)
    subgoal by (rule vars)
    subgoal by (rule names)
    subgoal by (rule d_ps)
    subgoal by (rule set_ps)
    subgoal by (rule notin)
    subgoal by (rule vb(4))
    subgoal by (rule v_pre)
    subgoal by (rule v_post)
    done
qed

theorem composite_tokens_skipped_witness:
  "wellFormedTheme nestedTheme \<and>
   tokenAt [(''a'', Group [(''s'', Leaf shadowToken)]), (''b'', Group [(''d'', Leaf remToken)])] [''a'', ''s''] shadowToken \<and>
   tk_type shadowToken = TShadow \<and>
   map sk_path (skipped (report (fst (transformToFigmaVariables nestedTheme (exampleOptions None None) 0)))) = [''s'', ''a.s''] \<and>
   map vc_name (variables (requestBody (fst (transformToFigmaVariables nestedTheme (exampleOptions None None) 0)))) = [''d'', ''b/d''] \<and>
   (\<exists>pre es post vpre vblock ps vpost.
     filter isCompositeSkip (skipped (report (fst (transformToFigmaVariables nestedTheme (exampleOptions None None) 0)))) =
       pre @ map compositeSkip es @ post \<and>
     distinct es \<and>
     set es = {e. tokenAt [(''a'', Group [(''s'', Leaf shadowToken)]), (''b'', Group [(''d'', Leaf remToken)])] (fst e) (snd e) \<and> tk_type (snd e) \<in> compositeKinds} \<and>
     count_list es ([''a'', ''s''], shadowToken) = 1 \<and>
     (\<forall>s \<in> set pre. \<exists>c' \<in> set [smallCollection]. compositeSkipOf c' s) \<and>
     (\<forall>s \<in> set post. \<exists>c' \<in> set []. compositeSkipOf c' s) \<and>
     variables (requestBody (fst (transformToFigmaVariables nestedTheme (exampleOptions None None) 0))) =
       vpre @ vblock @ vpost \<and>
     map vc_name vblock = map (join ''/'') ps \<and>
     distinct ps \<and>
     set ps = {p. \<exists>t. tokenAt [(''a'', Group [(''s'', Leaf shadowToken)]), (''b'', Group [(''d'', Leaf remToken)])] p t \<and> becomesVariable (exampleOptions None None) t} \<and>
     [''a'', ''s''] \<notin> set ps \<and>
     (\<forall>v \<in> set vblock.
        vc_variableCollectionId v =
          vcc_id (variableCollections
                    (requestBody (fst (transformToFigmaVariables nestedTheme (exampleOptions None None) 0))) ! length [smallCollection])) \<and>
     (\<forall>v \<in> set vpre. \<exists>c' \<in> set [smallCollection]. variableOf (exampleOptions None None) c' v) \<and>
     (\<forall>v \<in> set vpost. \<exists>c' \<in> set []. variableOf (exampleOptions None None) c' v))"
proof -
  have h1: "th_collections nestedTheme = [smallCollection] @ nestedCollection # []"
    by (simp add: nestedTheme_def)
  have h3: "map_of (tc_tokens nestedCollection) (tc_defaultMode nestedCollection) = Some [(''a'', Group [(''s'', Leaf shadowToken)]), (''b'', Group [(''d'', Leaf remToken)])]"
    by (simp add: nestedCollection_def)
  have h4: "tokenAt [(''a'', Group [(''s'', Leaf shadowToken)]), (''b'', Group [(''d'', Leaf remToken)])] [''a'', ''s''] shadowToken"
    by (simp add: tokenAt_Cons_Group tokenAt_Cons_Leaf startsWithDollar_def)
  have h5: "tk_type shadowToken \<in> {TTypography, TShadow, TBorder, TGradient, TCubicBezier,
              TTransition, TAnimation, TKeyframes}"
    by (simp add: shadowToken_def)
  have t: "tk_type shadowToken = TShadow" by (simp add: shadowToken_def)
  have names: "map vc_name (variables (requestBody (fst (transformToFigmaVariables nestedTheme (exampleOptions None None) 0)))) = [''d'', ''b/d'']"
    by (simp add: nestedTheme_body)
  note r = composite_tokens_skipped [OF h1 nestedTheme_wellFormed h3 h4 h5,
             of "exampleOptions None None" 0]
  show ?thesis
    by (intro conjI nestedTheme_wellFormed h4 t nestedTheme_skipped names r)
qed

text \<open>
  C6. Take a well-formed theme, a collection \<open>c\<close> of it whose mode list has no mode
  twice, a declared mode \<open>modeName\<close> of \<open>c\<close> and a path at which the
  default-mode tree has a token that becomes a variable and the tree of \<open>modeName\<close> has
  a dimension token whose unit is not "px". In the result of \<open>transformToFigmaVariables\<close>
  the variable-creates are those of the collections before \<open>c\<close>, then a block for
  \<open>c\<close>, then those of the collections after \<open>c\<close>; the block refers to the
  collection-create of \<open>c\<close> and has one variable-create for each path \<open>ps\<close> of
  a token of the default-mode tree that becomes a variable, each path once, named by the
  slash path. The mode values are split in the same way; the block of \<open>c\<close> runs
  through the variable-creates of the block with their paths, and for each through the
  declared modes, and has at most one mode value for each, with the id of that
  variable-create. For the variable-create \<open>v\<close> of the given path and for
  \<open>modeName\<close> it has exactly one mode value \<open>x\<close>: its value is the bare number
  of the dimension and its mode is the initial mode of the collection-create (for the default
  mode) or a mode-create of that collection named \<open>modeName\<close>. The warnings with code
  UNIT_DISCARDED are split by collection as well. The block of \<open>c\<close> runs through
  the same paths and the declared modes; for a path and a mode it has the one warning of the
  dimension token with another unit than "px" at that path in the tree of that mode, when
  there is one, and nothing otherwise. For the given path and mode that is exactly the
  warning with the unit of the token and the path made of the collection name, the mode name
  and the dotted path. Values and warnings are counted by the place of the token (the
  collection, the mode and the list of keys), not by the joined string.
\<close>

theorem unit_discarded_warning:
  assumes "th_collections theme = before @ c # after"
    and "wellFormedTheme theme"
    and "distinct (tc_modes c)" and "modeName \<in> set (tc_modes c)"
    and "tokenOfMode c (tc_defaultMode c) path defaultToken"
    and "becomesVariable options defaultToken"
    and "tokenOfMode c modeName path token"
    and "tk_type token = TDimension" and "tk_value token = VDimension d"
    and "dv_unit d \<noteq> ''px''"
  shows "\<exists>v x vpre vblock vpost xpre X xpost pre ps W post.
     variables (requestBody (fst (transformToFigmaVariables theme options n))) =
       vpre @ vblock @ vpost \<and>
     map vc_name vblock = map (join ''/'') ps \<and>
     distinct ps \<and>
     set ps = {p. \<exists>t. tokenOfMode c (tc_defaultMode c) p t \<and> becomesVariable options t} \<and>
     (\<forall>u \<in> set vblock.
        vc_variableCollectionId u =
          vcc_id (variableCollections
                    (requestBody (fst (transformToFigmaVariables theme options n))) ! length before)) \<and>
     variableModeValues (requestBody (fst (transformToFigmaVariables theme options n))) =
       xpre @ concat (map (\<lambda>(u, p). concat (map (X u p) (tc_modes c))) (zip vblock ps)) @ xpost \<and>
     (\<forall>(u, p) \<in> set (zip vblock ps). \<forall>m \<in> set (tc_modes c).
        length (X u p m) \<le> 1 \<and> (\<forall>y \<in> set (X u p m). mv_variableId y = vc_id u)) \<and>
     (\<forall>y \<in> set xpre. \<exists>u \<in> set vpre. mv_variableId y = vc_id u) \<and>
     (\<forall>y \<in> set xpost. \<exists>u \<in> set vpost. mv_variableId y = vc_id u) \<and>
     (v, path) \<in> set (zip vblock ps) \<and>
     vc_name v = join ''/'' path \<and>
     X v path modeName = [x] \<and>
     mv_variableId x = vc_id v \<and>
     mv_value x = FNumber (Lit (dv_value d)) \<and>
     (modeName = tc_defaultMode c \<and>
      mv_modeId x =
        vcc_initialModeId
          (variableCollections
             (requestBody (fst (transformToFigmaVariables theme options n))) ! length before) \<or>
      modeName \<noteq> tc_defaultMode c \<and>
      (\<exists>mc \<in> set (variableModes (requestBody (fst (transformToFigmaVariables theme options n)))).
         vmc_name mc = modeName \<and>
         vmc_variableCollectionId mc =
           vcc_id (variableCollections
                     (requestBody (fst (transformToFigmaVariables theme options n))) ! length before) \<and>
         vmc_id mc = mv_modeId x)) \<and>
     filter isUnitDiscarded (warnings (report (fst (transformToFigmaVariables theme options n)))) =
       pre @ concat (map (\<lambda>p. concat (map (W p) (tc_modes c))) ps) @ post \<and>
     (\<forall>p \<in> set ps. \<forall>m \<in> set (tc_modes c).
        length (W p m) \<le> 1 \<and> set (W p m) = {w. unitDiscardedAt c m p w}) \<and>
     W path modeName = [unitWarning d (tc_name c @ ''.'' @ modeName @ ''.'' @ join ''.'' path)] \<and>
     (\<forall>w \<in> set pre. \<exists>c' \<in> set before. unitDiscardedIn c' w) \<and>
     (\<forall>w \<in> set post. \<exists>c' \<in> set after. unitDiscardedIn c' w)"
proof -
  let ?f = "processCollection options (idPrefixOf options)"
  define st0 where "st0 = initialState theme options n"
  define sb where "sb = fold ?f before st0"
  define sc where "sc = ?f c sb"
  define sa where "sa = fold ?f after sc"
  define ps where "ps = map fst (filter (createsVariable options) (defaultEntries c))"
  define pre where
    "pre = concat (map (\<lambda>c. concat (map (tokenUnitWarnings options c) (defaultEntries c))) before)"
  define post where
    "post = concat (map (\<lambda>c. concat (map (tokenUnitWarnings options c) (defaultEntries c))) after)"
  have run: "runCollections theme options n = sa"
    by (simp add: runCollections_def assms(1) sa_def sc_def sb_def st0_def)
  have res: "requestBody (fst (transformToFigmaVariables theme options n)) = ts_requestBody sa"
      "report (fst (transformToFigmaVariables theme options n)) = ts_report sa"
    by (simp_all add: transformToFigmaVariables_def Let_def run)
  have cin: "c \<in> set (th_collections theme)" using assms(1) by simp
  have init: "unitWarningsIn st0 = []" "variableCollections (ts_requestBody st0) = []"
    using runCollections_initial [of theme options n] by (simp_all add: st0_def)
  have init2: "variables (ts_requestBody st0) = []" "variableModeValues (ts_requestBody st0) = []"
    by (simp_all add: st0_def initialState_def)
  have tb: "unitWarningsIn sb = pre"
    using fold_processCollection_trace [of options "idPrefixOf options" before st0] init
    by (simp add: sb_def pre_def)
  have tc: "unitWarningsIn sc =
              unitWarningsIn sb @ concat (map (tokenUnitWarnings options c) (defaultEntries c))"
    using processCollection_trace [of options "idPrefixOf options" c sb]
    by (simp add: sc_def)
  have ta: "unitWarningsIn sa = unitWarningsIn sc @ post"
    using fold_processCollection_trace [of options "idPrefixOf options" after sc]
    by (simp add: sa_def post_def)
  have warn: "filter isUnitDiscarded (warnings (ts_report sa)) =
       pre @ concat (map (\<lambda>p. concat (map (modeUnitWarnings c p) (tc_modes c))) ps) @ post"
    using tb tc ta by (simp add: unitWarningsIn_def tokenUnitWarnings_paths ps_def)
  obtain colsB where colsB:
    "variableCollections (ts_requestBody sb) = colsB" "length colsB = length before"
    using fold_processCollection_append [of options "idPrefixOf options" before st0] init
    unfolding sb_def by auto
  have dk: "distinct (map fst (defaultEntries c))"
    by (rule defaultEntries_distinct [OF assms(2) cin])
  have d_ps: "distinct ps"
    unfolding ps_def using dk by (rule distinct_map_filter)
  have set_ps: "set ps = {p. \<exists>t. tokenOfMode c (tc_defaultMode c) p t \<and> becomesVariable options t}"
  proof -
    have mem: "\<And>p t. (p, t) \<in> set (defaultEntries c) \<longleftrightarrow> tokenOfMode c (tc_defaultMode c) p t"
      by (rule defaultEntries_set)
    show ?thesis unfolding ps_def using mem by (force simp: createsVariable_kinds)
  qed
  have in_ps: "path \<in> set ps" unfolding set_ps using assms(5,6) by blast
  obtain modeTree where mt: "map_of (tc_tokens c) modeName = Some modeTree"
      "tokenAt modeTree path token"
    using assms(7) by (auto simp: tokenOfMode_def split: option.splits)
  have found: "findModeToken modeTree path = Some token"
    using findModeToken_tokenAt [OF wellFormed_tree(1) [OF assms(2) cin mt(1)] mt(2)] .
  obtain vpre xpre where pb:
    "variables (ts_requestBody sb) = vpre" "variableModeValues (ts_requestBody sb) = xpre"
    "\<forall>y \<in> set xpre. \<exists>u \<in> set vpre. mv_variableId y = vc_id u"
    using fold_processCollection_values [of options "idPrefixOf options" before st0] init2
    unfolding sb_def by auto
  obtain vb created cm where pc:
    "variables (ts_requestBody sc) = variables (ts_requestBody sb) @ vb"
    "variableCollections (ts_requestBody sc) = variableCollections (ts_requestBody sb) @ [created]"
    "map vc_name vb =
       map (\<lambda>e. join ''/'' (fst e)) (filter (createsVariable options) (defaultEntries c))"
    "\<forall>u \<in> set vb. vc_variableCollectionId u = vcc_id created"
    "variableModeValues (ts_requestBody sc) =
       variableModeValues (ts_requestBody sb) @
         concat (map (\<lambda>(u, p). concat (map (modeValuesOf c cm p (vc_id u)) (tc_modes c)))
                   (zip vb ps))"
    "\<forall>m \<in> set (tc_modes c).
        \<exists>i. cm m = Some i \<and> i \<noteq> [] \<and>
            (m = tc_defaultMode c \<and> i = vcc_initialModeId created \<or>
             m \<noteq> tc_defaultMode c \<and>
             (\<exists>mc \<in> set (variableModes (ts_requestBody sc)).
                vmc_name mc = m \<and> vmc_variableCollectionId mc = vcc_id created \<and>
                vmc_id mc = i))"
    using processCollection_values [of options "idPrefixOf options" c sb]
    unfolding sc_def ps_def by blast
  obtain vpost xpost where pa:
    "variables (ts_requestBody sa) = variables (ts_requestBody sc) @ vpost"
    "variableModeValues (ts_requestBody sa) = variableModeValues (ts_requestBody sc) @ xpost"
    "\<forall>y \<in> set xpost. \<exists>u \<in> set vpost. mv_variableId y = vc_id u"
    using fold_processCollection_values [of options "idPrefixOf options" after sc]
    unfolding sa_def by blast
  have ext: "extends sc sa"
    unfolding sa_def by (rule fold_processCollection_extends)
  have nth: "variableCollections (ts_requestBody sa) ! length before = created"
    using extends_set(4) [OF ext, of "length before"] pc(2) colsB by (simp add: nth_append)
  have vars: "variables (ts_requestBody sa) = vpre @ vb @ vpost"
    using pb(1) pc(1) pa(1) by simp
  have vals: "variableModeValues (ts_requestBody sa) =
      xpre @ concat (map (\<lambda>(u, p). concat (map (modeValuesOf c cm p (vc_id u)) (tc_modes c)))
                       (zip vb ps)) @ xpost"
    using pb(2) pc(5) pa(2) by simp
  have names: "map vc_name vb = map (join ''/'') ps"
    using pc(3) by (simp add: ps_def comp_def)
  have len: "length vb = length ps"
    using names by (metis length_map)
  obtain k where k: "k < length ps" "ps ! k = path"
    using in_ps by (auto simp: in_set_conv_nth)
  define v where "v = vb ! k"
  have v_zip: "(v, path) \<in> set (zip vb ps)"
    unfolding v_def using k len by (auto simp: set_zip)
  have v_name: "vc_name v = join ''/'' path"
  proof -
    have "map vc_name vb ! k = map (join ''/'') ps ! k" using names by simp
    then show ?thesis using k len by (simp add: v_def)
  qed
  obtain i where i: "cm modeName = Some i" "i \<noteq> []"
      "modeName = tc_defaultMode c \<and> i = vcc_initialModeId created \<or>
       modeName \<noteq> tc_defaultMode c \<and>
       (\<exists>mc \<in> set (variableModes (ts_requestBody sc)).
          vmc_name mc = modeName \<and> vmc_variableCollectionId mc = vcc_id created \<and>
          vmc_id mc = i)"
    using bspec [OF pc(6) assms(4)] by (elim exE conjE) (rule that; assumption)
  define x where
    "x = \<lparr> mv_variableId = vc_id v, mv_modeId = i, mv_value = FNumber (Lit (dv_value d)) \<rparr>"
  have x_one: "modeValuesOf c cm path (vc_id v) modeName = [x]"
    unfolding x_def
    using modeValuesOf_dimension [where cm = cm and m = modeName and i = i and c = c
            and tree = modeTree and path = path and t = token and d = d and vid = "vc_id v"]
          i(1,2) mt(1) found assms(8,9)
    by simp
  have x_var: "mv_variableId x = vc_id v" and x_val: "mv_value x = FNumber (Lit (dv_value d))"
    and x_mode: "mv_modeId x = i"
    by (simp_all add: x_def)
  have mode: "modeName = tc_defaultMode c \<and> mv_modeId x = vcc_initialModeId created \<or>
      modeName \<noteq> tc_defaultMode c \<and>
      (\<exists>mc \<in> set (variableModes (ts_requestBody sa)).
         vmc_name mc = modeName \<and> vmc_variableCollectionId mc = vcc_id created \<and>
         vmc_id mc = mv_modeId x)"
    unfolding x_mode using i(3) extends_set(1) [OF ext] by blast
  have slots: "\<forall>(u, p) \<in> set (zip vb ps). \<forall>m \<in> set (tc_modes c).
        length (modeValuesOf c cm p (vc_id u) m) \<le> 1 \<and>
        (\<forall>y \<in> set (modeValuesOf c cm p (vc_id u) m). mv_variableId y = vc_id u)"
    using modeValuesOf_length modeValuesOf_variable by fast
  have one: "\<forall>p \<in> set ps. \<forall>m \<in> set (tc_modes c).
        length (modeUnitWarnings c p m) \<le> 1 \<and>
        set (modeUnitWarnings c p m) = {w. unitDiscardedAt c m p w}"
  proof (intro ballI conjI)
    fix p m assume p: "p \<in> set ps"
    show "length (modeUnitWarnings c p m) \<le> 1" by (rule modeUnitWarnings_length)
    obtain t where "tokenOfMode c (tc_defaultMode c) p t" using p unfolding set_ps by blast
    then have clean: "cleanPath p"
      by (auto simp: tokenOfMode_def split: option.splits dest: tokenAt_clean)
    show "set (modeUnitWarnings c p m) = {w. unitDiscardedAt c m p w}"
    proof (intro set_eqI iffI)
      fix w assume "w \<in> set (modeUnitWarnings c p m)"
      then show "w \<in> {w. unitDiscardedAt c m p w}"
        using modeUnitWarnings_sound [OF _ clean] by simp
    next
      fix w assume "w \<in> {w. unitDiscardedAt c m p w}"
      then have "modeUnitWarnings c p m = [w]"
        using modeUnitWarnings_complete [OF _ assms(2) cin] by simp
      then show "w \<in> set (modeUnitWarnings c p m)" by simp
    qed
  qed
  have this_one: "modeUnitWarnings c path modeName =
                    [unitWarning d (tc_name c @ ''.'' @ modeName @ ''.'' @ join ''.'' path)]"
    using mt(1) found assms(8,9,10) by (simp add: modeUnitWarnings_def unitWarningsOf_def)
  have p_pre: "\<forall>w \<in> set pre. \<exists>c' \<in> set before. unitDiscardedIn c' w"
    unfolding pre_def using warnings_pinned by blast
  have p_post: "\<forall>w \<in> set post. \<exists>c' \<in> set after. unitDiscardedIn c' w"
    unfolding post_def using warnings_pinned by blast
  show ?thesis
    unfolding res nth
    apply (rule exI [of _ v], rule exI [of _ x], rule exI [of _ vpre], rule exI [of _ vb])
    apply (rule exI [of _ vpost], rule exI [of _ xpre])
    apply (rule exI [of _ "\<lambda>u p. modeValuesOf c cm p (vc_id u)"], rule exI [of _ xpost])
    apply (rule exI [of _ pre], rule exI [of _ ps])
    apply (rule exI [of _ "modeUnitWarnings c"], rule exI [of _ post])
    apply (intro conjI)
    subgoal by (rule vars)
    subgoal by (rule names)
    subgoal by (rule d_ps)
    subgoal by (rule set_ps)
    subgoal by (rule pc(4))
    subgoal by (rule vals)
    subgoal by (rule slots)
    subgoal by (rule pb(3))
    subgoal by (rule pa(3))
    subgoal by (rule v_zip)
    subgoal by (rule v_name)
    subgoal by (rule x_one)
    subgoal by (rule x_var)
    subgoal by (rule x_val)
    subgoal by (rule mode)
    subgoal by (rule warn)
    subgoal by (rule one)
    subgoal by (rule this_one)
    subgoal by (rule p_pre)
    subgoal by (rule p_post)
    done
qed

theorem unit_discarded_warning_witness:
  "wellFormedTheme nestedTheme \<and>
   tokenOfMode nestedCollection ''m'' [''b'', ''d''] remToken \<and>
   tokenOfMode nestedCollection ''n'' [''b'', ''d''] remToken \<and>
   becomesVariable (exampleOptions None None) remToken \<and>
   tk_value remToken = VDimension \<lparr> dv_value = 32, dv_unit = ''rem'' \<rparr> \<and>
   warnings (report (fst (transformToFigmaVariables nestedTheme (exampleOptions None None) 0))) =
     [unitWarning \<lparr> dv_value = 32, dv_unit = ''rem'' \<rparr> ''c.m.d'',
      unitWarning \<lparr> dv_value = 32, dv_unit = ''rem'' \<rparr> ''k.m.b.d'',
      unitWarning \<lparr> dv_value = 32, dv_unit = ''rem'' \<rparr> ''k.n.b.d''] \<and>
   variableModeValues
     (requestBody (fst (transformToFigmaVariables nestedTheme (exampleOptions None None) 0))) =
     [\<lparr> mv_variableId = ''temp_var_4'', mv_modeId = ''temp_mode_2'',
        mv_value = FNumber (Lit 32) \<rparr>,
      \<lparr> mv_variableId = ''temp_var_8'', mv_modeId = ''temp_mode_6'',
        mv_value = FNumber (Lit 32) \<rparr>,
      \<lparr> mv_variableId = ''temp_var_8'', mv_modeId = ''temp_mode_7'',
        mv_value = FNumber (Lit 32) \<rparr>] \<and>
   (\<exists>v x vpre vblock vpost xpre X xpost pre ps W post.
     variables (requestBody (fst (transformToFigmaVariables nestedTheme (exampleOptions None None) 0))) =
       vpre @ vblock @ vpost \<and>
     map vc_name vblock = map (join ''/'') ps \<and>
     distinct ps \<and>
     set ps = {p. \<exists>t. tokenOfMode nestedCollection (tc_defaultMode nestedCollection) p t \<and> becomesVariable (exampleOptions None None) t} \<and>
     (\<forall>u \<in> set vblock.
        vc_variableCollectionId u =
          vcc_id (variableCollections
                    (requestBody (fst (transformToFigmaVariables nestedTheme (exampleOptions None None) 0))) ! length [smallCollection])) \<and>
     variableModeValues (requestBody (fst (transformToFigmaVariables nestedTheme (exampleOptions None None) 0))) =
       xpre @ concat (map (\<lambda>(u, p). concat (map (X u p) (tc_modes nestedCollection))) (zip vblock ps)) @ xpost \<and>
     (\<forall>(u, p) \<in> set (zip vblock ps). \<forall>m \<in> set (tc_modes nestedCollection).
        length (X u p m) \<le> 1 \<and> (\<forall>y \<in> set (X u p m). mv_variableId y = vc_id u)) \<and>
     (\<forall>y \<in> set xpre. \<exists>u \<in> set vpre. mv_variableId y = vc_id u) \<and>
     (\<forall>y \<in> set xpost. \<exists>u \<in> set vpost. mv_variableId y = vc_id u) \<and>
     (v, [''b'', ''d'']) \<in> set (zip vblock ps) \<and>
     vc_name v = join ''/'' [''b'', ''d''] \<and>
     X v [''b'', ''d''] ''n'' = [x] \<and>
     mv_variableId x = vc_id v \<and>
     mv_value x = FNumber (Lit (dv_value \<lparr> dv_value = 32, dv_unit = ''rem'' \<rparr>)) \<and>
     (''n'' = tc_defaultMode nestedCollection \<and>
      mv_modeId x =
        vcc_initialModeId
          (variableCollections
             (requestBody (fst (transformToFigmaVariables nestedTheme (exampleOptions None None) 0))) ! length [smallCollection]) \<or>
      ''n'' \<noteq> tc_defaultMode nestedCollection \<and>
      (\<exists>mc \<in> set (variableModes (requestBody (fst (transformToFigmaVariables nestedTheme (exampleOptions None None) 0)))).
         vmc_name mc = ''n'' \<and>
         vmc_variableCollectionId mc =
           vcc_id (variableCollections
                     (requestBody (fst (transformToFigmaVariables nestedTheme (exampleOptions None None) 0))) ! length [smallCollection]) \<and>
         vmc_id mc = mv_modeId x)) \<and>
     filter isUnitDiscarded (warnings (report (fst (transformToFigmaVariables nestedTheme (exampleOptions None None) 0)))) =
       pre @ concat (map (\<lambda>p. concat (map (W p) (tc_modes nestedCollection))) ps) @ post \<and>
     (\<forall>p \<in> set ps. \<forall>m \<in> set (tc_modes nestedCollection).
        length (W p m) \<le> 1 \<and> set (W p m) = {w. unitDiscardedAt nestedCollection m p w}) \<and>
     W [''b'', ''d''] ''n'' = [unitWarning \<lparr> dv_value = 32, dv_unit = ''rem'' \<rparr> (tc_name nestedCollection @ ''.'' @ ''n'' @ ''.'' @ join ''.'' [''b'', ''d''])] \<and>
     (\<forall>w \<in> set pre. \<exists>c' \<in> set [smallCollection]. unitDiscardedIn c' w) \<and>
     (\<forall>w \<in> set post. \<exists>c' \<in> set []. unitDiscardedIn c' w))"
proof -
  have h1: "th_collections nestedTheme = [smallCollection] @ nestedCollection # []"
    by (simp add: nestedTheme_def)
  have h3: "distinct (tc_modes nestedCollection)" by (simp add: nestedCollection_def)
  have h4: "''n'' \<in> set (tc_modes nestedCollection)" by (simp add: nestedCollection_def)
  have h5: "tokenOfMode nestedCollection (tc_defaultMode nestedCollection) [''b'', ''d''] remToken"
    by (simp add: tokenOfMode_def nestedCollection_def tokenAt_Cons_Group tokenAt_Cons_Leaf
          startsWithDollar_def)
  have h5': "tokenOfMode nestedCollection ''m'' [''b'', ''d''] remToken"
    using h5 by (simp add: nestedCollection_def)
  have h6: "becomesVariable (exampleOptions None None) remToken"
    by (simp add: becomesVariable_def variableKinds_def remToken_def exampleOptions_def)
  have h7: "tokenOfMode nestedCollection ''n'' [''b'', ''d''] remToken"
    by (simp add: tokenOfMode_def nestedCollection_def tokenAt_Cons_Group tokenAt_Cons_Leaf
          startsWithDollar_def)
  have h8: "tk_type remToken = TDimension" by (simp add: remToken_def)
  have h9: "tk_value remToken = VDimension \<lparr> dv_value = 32, dv_unit = ''rem'' \<rparr>"
    by (simp add: remToken_def)
  have h10: "dv_unit \<lparr> dv_value = 32, dv_unit = ''rem'' \<rparr> \<noteq> ''px''" by simp
  have vals: "variableModeValues
     (requestBody (fst (transformToFigmaVariables nestedTheme (exampleOptions None None) 0))) =
     [\<lparr> mv_variableId = ''temp_var_4'', mv_modeId = ''temp_mode_2'',
        mv_value = FNumber (Lit 32) \<rparr>,
      \<lparr> mv_variableId = ''temp_var_8'', mv_modeId = ''temp_mode_6'',
        mv_value = FNumber (Lit 32) \<rparr>,
      \<lparr> mv_variableId = ''temp_var_8'', mv_modeId = ''temp_mode_7'',
        mv_value = FNumber (Lit 32) \<rparr>]"
    by (simp add: nestedTheme_body)
  note r = unit_discarded_warning [OF h1 nestedTheme_wellFormed h3 h4 h5 h6 h7 h8 h9 h10,
             of 0]
  show ?thesis
    by (intro conjI nestedTheme_wellFormed h5' h7 h6 h9 nestedTheme_warnings vals r)
qed

subsection \<open>Read-path shapes and composite styles\<close>

text \<open>
  C4 fails on the code. A FLOAT variable whose only scope is STROKE_FLOAT gets the type tag
  number from \<open>detectTokenType\<close> and the value \<open>{ value: 2, unit: "px" }\<close> from
  \<open>convertFigmaNumber\<close>, whose list of dimension scopes has three scopes more than the
  test in \<open>detectTokenType\<close>: the value shape and the type tag disagree.
\<close>

theorem createToken_stroke_float:
  "tk_type (createToken strokeVariable (NumberValue 2) Map.empty) = TNumber \<and>
   tk_value (createToken strokeVariable (NumberValue 2) Map.empty) =
     VDimension \<lparr> dv_value = 2, dv_unit = ''px'' \<rparr> \<and>
   \<not> shapeAgrees (createToken strokeVariable (NumberValue 2) Map.empty)"
  by (simp add: createToken_def detectTokenType_def convertFigmaNumber_def dimensionScopes_def
        strokeVariable_def shapeAgrees_def Let_def)

text \<open>
  The half of C4 that holds: a number that is given the type tag dimension is stored as
  \<open>{ value, unit: "px" }\<close>.
\<close>

lemma createToken_dimension_shape:
  assumes "tk_type (createToken variable (NumberValue x) variablesById) = TDimension"
  shows "tk_value (createToken variable (NumberValue x) variablesById) =
           VDimension \<lparr> dv_value = x, dv_unit = ''px'' \<rparr>"
  using assms
  by (auto simp: createToken_def detectTokenType_def convertFigmaNumber_def dimensionScopes_def
        Let_def list_ex_iff split: if_splits)

text \<open>
  C2 fails on the code. On a theme whose default-mode tree has a typography token with a
  reference as its value, \<open>extractStyleTokens\<close> raises a TypeError and returns no
  style list at all.
\<close>

theorem extractStyleTokens_reference:
  "extractStyleTokens referenceTheme \<lparr> textCount = 0, effectCount = 0, paintCount = 0 \<rparr>
     = Inl TypeError"
  by (simp add: extractStyleTokens_def referenceTheme_def referenceTypography_def
        styleOfToken_def asTypography_def startsWithDollar_def)

text \<open>
  What holds of the style path: \<open>traverseForStyles\<close> visits the tokens that
  \<open>flattenTokens\<close> lists, in the same order, and when every typography, shadow and
  gradient token carries a value of its own shape, \<open>extractStyleTokens\<close> returns, with
  one style entry named by the slash path for each such token and the counter of its kind
  raised by one for each.
\<close>

lemma applyStyles_append:
  "applyStyles (xs @ ys) acc =
     (case applyStyles xs acc of Inl e \<Rightarrow> Inl e | Inr acc' \<Rightarrow> applyStyles ys acc')"
  by (induction xs arbitrary: acc) (simp_all split: sum.splits)

lemma traverseForStyles_flatten:
  "traverseForStyles grp path collectionName acc = applyStyles (flattenTokens grp path) acc"
  by (induction grp path collectionName acc rule: traverseForStyles.induct)
     (simp_all add: applyStyles_append split: sum.splits)

lemma extractCollections_flatten:
  "extractCollections cs acc = applyStyles (concat (map defaultEntries cs)) acc"
  by (induction cs arbitrary: acc)
     (simp_all add: defaultEntries_def traverseForStyles_flatten applyStyles_append
        split: option.splits sum.splits)

lemma styleOfToken_shaped:
  assumes "styleShaped entry"
  shows "\<exists>res rep'.
     styleOfToken (join ''/'' (fst entry)) (snd entry) (res0, rep) = Inr (res, rep') \<and>
     map (\<lambda>x. fts_name (pts_style x)) (textStyles res) =
       map (\<lambda>x. fts_name (pts_style x)) (textStyles res0) @
         map (\<lambda>e. join ''/'' (fst e)) (filter (ofType TTypography) [entry]) \<and>
     map (\<lambda>x. fes_name (pes_style x)) (effectStyles res) =
       map (\<lambda>x. fes_name (pes_style x)) (effectStyles res0) @
         map (\<lambda>e. join ''/'' (fst e)) (filter (ofType TShadow) [entry]) \<and>
     map (\<lambda>x. fps_name (pps_style x)) (paintStyles res) =
       map (\<lambda>x. fps_name (pps_style x)) (paintStyles res0) @
         map (\<lambda>e. join ''/'' (fst e)) (filter (ofType TGradient) [entry]) \<and>
     textCount rep' = textCount rep + length (filter (ofType TTypography) [entry]) \<and>
     effectCount rep' = effectCount rep + length (filter (ofType TShadow) [entry]) \<and>
     paintCount rep' = paintCount rep + length (filter (ofType TGradient) [entry])"
  using assms
  by (cases "tk_type (snd entry)")
     (auto simp: styleOfToken_def styleShaped_def returns_def ofType_def
        typographyToTextStyle_def shadowToEffectStyle_def gradientToPaintStyle_def
        split: sum.splits)

lemma applyStyles_shaped:
  assumes "\<forall>entry \<in> set entries. styleShaped entry"
  shows "\<exists>res rep'.
     applyStyles entries (res0, rep) = Inr (res, rep') \<and>
     map (\<lambda>x. fts_name (pts_style x)) (textStyles res) =
       map (\<lambda>x. fts_name (pts_style x)) (textStyles res0) @
         map (\<lambda>e. join ''/'' (fst e)) (filter (ofType TTypography) entries) \<and>
     map (\<lambda>x. fes_name (pes_style x)) (effectStyles res) =
       map (\<lambda>x. fes_name (pes_style x)) (effectStyles res0) @
         map (\<lambda>e. join ''/'' (fst e)) (filter (ofType TShadow) entries) \<and>
     map (\<lambda>x. fps_name (pps_style x)) (paintStyles res) =
       map (\<lambda>x. fps_name (pps_style x)) (paintStyles res0) @
         map (\<lambda>e. join ''/'' (fst e)) (filter (ofType TGradient) entries) \<and>
     textCount rep' = textCount rep + length (filter (ofType TTypography) entries) \<and>
     effectCount rep' = effectCount rep + length (filter (ofType TShadow) entries) \<and>
     paintCount rep' = paintCount rep + length (filter (ofType TGradient) entries)"
  using assms
proof (induction entries arbitrary: res0 rep)
  case Nil
  show ?case by simp
next
  case (Cons entry rest)
  have sh: "styleShaped entry" using Cons.prems by simp
  obtain res1 rep1 where one:
     "styleOfToken (join ''/'' (fst entry)) (snd entry) (res0, rep) = Inr (res1, rep1)"
     "map (\<lambda>x. fts_name (pts_style x)) (textStyles res1) =
       map (\<lambda>x. fts_name (pts_style x)) (textStyles res0) @
         map (\<lambda>e. join ''/'' (fst e)) (filter (ofType TTypography) [entry])"
     "map (\<lambda>x. fes_name (pes_style x)) (effectStyles res1) =
       map (\<lambda>x. fes_name (pes_style x)) (effectStyles res0) @
         map (\<lambda>e. join ''/'' (fst e)) (filter (ofType TShadow) [entry])"
     "map (\<lambda>x. fps_name (pps_style x)) (paintStyles res1) =
       map (\<lambda>x. fps_name (pps_style x)) (paintStyles res0) @
         map (\<lambda>e. join ''/'' (fst e)) (filter (ofType TGradient) [entry])"
     "textCount rep1 = textCount rep + length (filter (ofType TTypography) [entry])"
     "effectCount rep1 = effectCount rep + length (filter (ofType TShadow) [entry])"
     "paintCount rep1 = paintCount rep + length (filter (ofType TGradient) [entry])"
    using styleOfToken_shaped [OF sh, of res0 rep] by blast
  have rest: "\<forall>e \<in> set rest. styleShaped e" using Cons.prems by simp
  obtain res rep' where more:
     "applyStyles rest (res1, rep1) = Inr (res, rep')"
     "map (\<lambda>x. fts_name (pts_style x)) (textStyles res) =
       map (\<lambda>x. fts_name (pts_style x)) (textStyles res1) @
         map (\<lambda>e. join ''/'' (fst e)) (filter (ofType TTypography) rest)"
     "map (\<lambda>x. fes_name (pes_style x)) (effectStyles res) =
       map (\<lambda>x. fes_name (pes_style x)) (effectStyles res1) @
         map (\<lambda>e. join ''/'' (fst e)) (filter (ofType TShadow) rest)"
     "map (\<lambda>x. fps_name (pps_style x)) (paintStyles res) =
       map (\<lambda>x. fps_name (pps_style x)) (paintStyles res1) @
         map (\<lambda>e. join ''/'' (fst e)) (filter (ofType TGradient) rest)"
     "textCount rep' = textCount rep1 + length (filter (ofType TTypography) rest)"
     "effectCount rep' = effectCount rep1 + length (filter (ofType TShadow) rest)"
     "paintCount rep' = paintCount rep1 + length (filter (ofType TGradient) rest)"
    using Cons.IH [OF rest, of res1 rep1] by blast
  have "applyStyles (entry # rest) (res0, rep) = Inr (res, rep')"
    using one(1) more(1) by simp
  moreover have "map (\<lambda>x. fts_name (pts_style x)) (textStyles res) =
       map (\<lambda>x. fts_name (pts_style x)) (textStyles res0) @
         map (\<lambda>e. join ''/'' (fst e)) (filter (ofType TTypography) (entry # rest))"
    using one(2) more(2) by simp
  moreover have "map (\<lambda>x. fes_name (pes_style x)) (effectStyles res) =
       map (\<lambda>x. fes_name (pes_style x)) (effectStyles res0) @
         map (\<lambda>e. join ''/'' (fst e)) (filter (ofType TShadow) (entry # rest))"
    using one(3) more(3) by simp
  moreover have "map (\<lambda>x. fps_name (pps_style x)) (paintStyles res) =
       map (\<lambda>x. fps_name (pps_style x)) (paintStyles res0) @
         map (\<lambda>e. join ''/'' (fst e)) (filter (ofType TGradient) (entry # rest))"
    using one(4) more(4) by simp
  moreover have "textCount rep' = textCount rep + length (filter (ofType TTypography) (entry # rest))"
    using one(5) more(5) by simp
  moreover have "effectCount rep' = effectCount rep + length (filter (ofType TShadow) (entry # rest))"
    using one(6) more(6) by simp
  moreover have "paintCount rep' = paintCount rep + length (filter (ofType TGradient) (entry # rest))"
    using one(7) more(7) by simp
  ultimately show ?case by blast
qed

lemma extractStyleTokens_shaped:
  assumes "\<forall>entry \<in> set (concat (map defaultEntries (th_collections theme))). styleShaped entry"
  shows "\<exists>res rep'.
     extractStyleTokens theme rep = Inr (res, rep') \<and>
     map (\<lambda>x. fts_name (pts_style x)) (textStyles res) =
       map (\<lambda>e. join ''/'' (fst e))
         (filter (ofType TTypography) (concat (map defaultEntries (th_collections theme)))) \<and>
     map (\<lambda>x. fes_name (pes_style x)) (effectStyles res) =
       map (\<lambda>e. join ''/'' (fst e))
         (filter (ofType TShadow) (concat (map defaultEntries (th_collections theme)))) \<and>
     map (\<lambda>x. fps_name (pps_style x)) (paintStyles res) =
       map (\<lambda>e. join ''/'' (fst e))
         (filter (ofType TGradient) (concat (map defaultEntries (th_collections theme)))) \<and>
     textCount rep' = textCount rep +
       length (filter (ofType TTypography) (concat (map defaultEntries (th_collections theme)))) \<and>
     effectCount rep' = effectCount rep +
       length (filter (ofType TShadow) (concat (map defaultEntries (th_collections theme)))) \<and>
     paintCount rep' = paintCount rep +
       length (filter (ofType TGradient) (concat (map defaultEntries (th_collections theme))))"
  using applyStyles_shaped [OF assms, of "\<lparr> textStyles = [], effectStyles = [], paintStyles = [] \<rparr>" rep]
  by (simp add: extractStyleTokens_def extractCollections_flatten)

end
